(* ===== verification/Prelude.thy ===== *)
theory Prelude
  imports Main "HOL-Library.Word" "HOL-Library.Monad_Syntax"
begin

text \<open>
  The vocabulary every component shares: byte strings, Go's slice and index expressions
  with their run-time checks, the parts of \<open>math/big\<close> the program uses, and the generic
  lemmas about them.

  Conventions of the whole development.
  \<^item> A Go \<open>[]byte\<close> or \<open>string\<close> is a list of 8-bit words. Slices are values: sharing of a
    backing array between slices is modelled only where a theory says so.
  \<^item> A \<open>*big.Int\<close> is an \<open>int\<close>; a \<open>uint64\<close> is a \<open>nat\<close> with its reduction modulo
    \<open>2 ^ 64\<close> written out where it can overflow.
  \<^item> A computation that can hit a run-time panic has an \<open>option\<close> type, \<open>None\<close> being
    the panic.
\<close>

section \<open>Collections of simplification rules\<close>

named_theorems bytes_simps \<open>big-endian numbers and byte strings\<close>
named_theorems slice_simps \<open>Go slice and index expressions that are in range\<close>

section \<open>Byte strings\<close>

type_synonym byte = "8 word"
type_synonym bytes = "byte list"

definition lit :: "string \<Rightarrow> bytes" where
  "lit s = map of_char s"

lemma length_lit [simp]: "length (lit s) = length s"
  by (simp add: lit_def)

lemma unat_byte_less: "unat (b :: byte) < 256"
  using unsigned_less [of b, where ?'a = nat] by simp

lemma unat_byte_of_nat [simp]: "n < 256 \<Longrightarrow> unat (of_nat n :: byte) = n"
  by (simp add: unat_of_nat)

lemma byte_eq_iff_unat: "(a :: byte) = b \<longleftrightarrow> unat a = unat b"
  by (simp add: word_eq_iff_unsigned [where ?'a = nat])

lemma byte_eq_0_iff: "(b :: byte) = 0 \<longleftrightarrow> unat b = 0"
  by (simp add: unat_eq_0)

section \<open>Slice and index expressions\<close>

definition index_go :: "'a list \<Rightarrow> nat \<Rightarrow> 'a option" where
  "index_go xs i = (if i < length xs then Some (xs ! i) else None)"

definition slice_go :: "'a list \<Rightarrow> nat \<Rightarrow> nat \<Rightarrow> 'a list option" where
  "slice_go xs a b = (if a \<le> b \<and> b \<le> length xs then Some (take (b - a) (drop a xs)) else None)"

lemma index_go_Some [slice_simps]: "i < length xs \<Longrightarrow> index_go xs i = Some (xs ! i)"
  by (simp add: index_go_def)

lemma index_go_None [slice_simps]: "length xs \<le> i \<Longrightarrow> index_go xs i = None"
  by (simp add: index_go_def)

lemma slice_go_Some_iff:
  "slice_go xs a b = Some ys \<longleftrightarrow> a \<le> b \<and> b \<le> length xs \<and> ys = take (b - a) (drop a xs)"
  by (auto simp: slice_go_def)

lemma slice_go_SomeD:
  assumes "slice_go xs a b = Some ys"
  shows "a \<le> b" and "b \<le> length xs" and "length ys = b - a"
  using assms by (auto simp: slice_go_Some_iff)

lemma slice_go_mid [slice_simps]:
  "a = length pre \<Longrightarrow> b = length pre + length mid \<Longrightarrow> slice_go (pre @ mid @ post) a b = Some mid"
  by (simp add: slice_go_def)

lemma slice_go_all [simp]: "slice_go xs 0 (length xs) = Some xs"
  by (simp add: slice_go_def)

section \<open>Big-endian numbers: the \<open>Bytes\<close> and \<open>SetBytes\<close> of \<open>math/big\<close>\<close>

text \<open>\<open>be_val\<close> reads a byte string as a big-endian number; \<open>be_bytes\<close> is the shortest byte
  string of a number, the empty one for 0.\<close>

definition be_val :: "bytes \<Rightarrow> nat" where
  "be_val bs = foldl (\<lambda>a b. 256 * a + unat b) 0 bs"

fun be_bytes :: "nat \<Rightarrow> bytes" where
  "be_bytes n = (if n = 0 then [] else be_bytes (n div 256) @ [of_nat (n mod 256)])"

declare be_bytes.simps [simp del]

definition big_bytes :: "int \<Rightarrow> bytes" where
  "big_bytes x = be_bytes (nat \<bar>x\<bar>)"

lemma be_val_Nil [simp, bytes_simps]: "be_val [] = 0"
  by (simp add: be_val_def)

lemma be_val_snoc [simp, bytes_simps]: "be_val (bs @ [b]) = 256 * be_val bs + unat b"
  by (simp add: be_val_def)

lemma be_val_append: "be_val (xs @ ys) = be_val xs * 256 ^ length ys + be_val ys"
proof (induction ys rule: rev_induct)
  case Nil
  show ?case by simp
next
  case (snoc y ys)
  have "be_val (xs @ ys @ [y]) = 256 * be_val (xs @ ys) + unat y"
    using be_val_snoc [of "xs @ ys" y] by simp
  then show ?case by (simp add: snoc algebra_simps)
qed

lemma be_val_Cons: "be_val (b # bs) = unat b * 256 ^ length bs + be_val bs"
  using be_val_append [of "[b]" bs] by (simp add: be_val_def)

lemma be_snoc_less: "v < p \<Longrightarrow> 256 * v + unat (b :: byte) < 256 * p"
  using unat_byte_less [of b] by linarith

lemma be_val_bound: "be_val bs < 256 ^ length bs"
  by (induction bs rule: rev_induct) (simp_all add: be_snoc_less)

lemma be_val_replicate_0 [simp]: "be_val (replicate n 0) = 0"
  by (induction n) (simp_all add: be_val_Cons)

lemma be_val_zeros_append [bytes_simps]: "be_val (replicate n 0 @ bs) = be_val bs"
  by (simp add: be_val_append)

lemma be_bytes_0 [simp, bytes_simps]: "be_bytes 0 = []"
  by (simp add: be_bytes.simps)

lemma be_bytes_pos:
  "0 < n \<Longrightarrow> be_bytes n = be_bytes (n div 256) @ [of_nat (n mod 256)]"
  by (subst be_bytes.simps) simp

lemma be_bytes_eq_Nil_iff [simp]: "be_bytes n = [] \<longleftrightarrow> n = 0"
  by (subst be_bytes.simps) simp

lemma be_val_be_bytes [simp, bytes_simps]: "be_val (be_bytes n) = n"
proof (induction n rule: be_bytes.induct)
  case (1 n)
  then show ?case by (cases "n = 0") (simp_all add: be_bytes_pos)
qed

lemma be_bytes_inject [simp]: "be_bytes m = be_bytes n \<longleftrightarrow> m = n"
  by (metis be_val_be_bytes)

lemma hd_be_bytes: "0 < n \<Longrightarrow> hd (be_bytes n) \<noteq> 0"
proof (induction n rule: be_bytes.induct)
  case (1 n)
  show ?case
  proof (cases "n < 256")
    case True
    with "1.prems" show ?thesis
      by (simp add: be_bytes_pos byte_eq_0_iff)
  next
    case False
    then have "0 < n div 256" by simp
    with 1 show ?thesis by (simp add: be_bytes_pos [of n] hd_append)
  qed
qed

lemma length_be_bytes_le_iff: "length (be_bytes n) \<le> k \<longleftrightarrow> n < 256 ^ k"
proof (induction n arbitrary: k rule: be_bytes.induct)
  case (1 n)
  show ?case
  proof (cases "n = 0")
    case False
    show ?thesis
    proof (cases k)
      case 0
      with False show ?thesis by simp
    next
      case (Suc j)
      have "length (be_bytes n) \<le> Suc j \<longleftrightarrow> length (be_bytes (n div 256)) \<le> j"
        using False by (simp add: be_bytes_pos)
      also have "\<dots> \<longleftrightarrow> n div 256 < 256 ^ j"
        using 1 False by simp
      also have "\<dots> \<longleftrightarrow> n < 256 ^ Suc j"
        by (simp add: div_less_iff_less_mult mult.commute)
      finally show ?thesis using Suc by simp
    qed
  qed simp
qed

lemma be_bytes_snoc_val: "0 < v \<or> b \<noteq> 0 \<Longrightarrow> be_bytes (256 * v + unat b) = be_bytes v @ [b]"
  using unat_byte_less [of b] by (subst be_bytes_pos) (auto simp: byte_eq_0_iff)

lemma be_bytes_be_val: "be_bytes (be_val bs) = dropWhile (\<lambda>b. b = 0) bs"
proof (induction bs rule: rev_induct)
  case (snoc b bs)
  show ?case
  proof (cases "be_val bs = 0")
    case True
    then have z: "dropWhile (\<lambda>b. b = 0) bs = []" using snoc by simp
    then have "\<forall>x \<in> set bs. x = 0" by simp
    then show ?thesis
      using True be_bytes_snoc_val [of 0 b] by (cases "b = 0") (auto simp: dropWhile_append)
  next
    case False
    then have "dropWhile (\<lambda>b. b = 0) bs \<noteq> []" using snoc [symmetric] by simp
    then have "\<not> (\<forall>x \<in> set bs. x = 0)" by simp
    moreover have "be_bytes (256 * be_val bs + unat b) = be_bytes (be_val bs) @ [b]"
      using False by (intro be_bytes_snoc_val) simp
    ultimately show ?thesis using snoc by (auto simp: dropWhile_append)
  qed
qed simp

lemma big_bytes_of_nat [simp, bytes_simps]: "big_bytes (int n) = be_bytes n"
  by (simp add: big_bytes_def)

lemma big_bytes_0 [simp, bytes_simps]: "big_bytes 0 = []"
  by (simp add: big_bytes_def)

section \<open>Machine integers of \<open>math/big\<close> values\<close>

text \<open>\<open>Int64\<close> keeps the low 64 bits of the magnitude as a two's complement number and then
  restores the sign; \<open>Uint64\<close> keeps the low 64 bits of the magnitude. \<open>int64\<close> is the
  conversion of a Go integer to \<open>int64\<close>.\<close>

definition int64 :: "int \<Rightarrow> int" where
  "int64 x = signed_take_bit 63 x"

definition big_Int64 :: "int \<Rightarrow> int" where
  "big_Int64 x = (if x < 0 then int64 (- int64 \<bar>x\<bar>) else int64 x)"

definition big_Uint64 :: "int \<Rightarrow> nat" where
  "big_Uint64 x = nat \<bar>x\<bar> mod 2 ^ 64"

lemma int64_id: "- (2 ^ 63) \<le> x \<Longrightarrow> x < 2 ^ 63 \<Longrightarrow> int64 x = x"
  by (simp add: int64_def signed_take_bit_int_eq_self)

lemma int64_range: "- (2 ^ 63) \<le> int64 x" "int64 x < 2 ^ 63"
  using signed_take_bit_int_greater_eq_minus_exp [of 63 x] signed_take_bit_int_less_exp [of 63 x]
  by (simp_all add: int64_def)

lemma big_Int64_id: "0 \<le> x \<Longrightarrow> x < 2 ^ 63 \<Longrightarrow> big_Int64 x = x"
  by (simp add: big_Int64_def int64_id)

lemma big_Uint64_id: "0 \<le> x \<Longrightarrow> x < 2 ^ 64 \<Longrightarrow> big_Uint64 x = nat x"
  by (simp add: big_Uint64_def nat_less_iff)

text \<open>\<open>Div\<close> and \<open>Mod\<close> of \<open>math/big\<close> are Euclidean: the remainder is never negative. A zero
  divisor panics.\<close>

definition big_Mod :: "int \<Rightarrow> int \<Rightarrow> int option" where
  "big_Mod x y = (if y = 0 then None else Some (x mod \<bar>y\<bar>))"

definition big_Div :: "int \<Rightarrow> int \<Rightarrow> int option" where
  "big_Div x y = (if y = 0 then None else Some ((x - x mod \<bar>y\<bar>) div y))"

lemma big_Div_pos: "0 < y \<Longrightarrow> big_Div x y = Some (x div y)"
  by (simp add: big_Div_def minus_mod_eq_div_mult)

lemma big_Mod_pos: "0 < y \<Longrightarrow> big_Mod x y = Some (x mod y)"
  by (simp add: big_Mod_def)

end
