(* ===== verification/Byte_Util.thy ===== *)
theory Byte_Util
  imports Prelude
begin

text \<open>
  The byte and big-integer helpers of \<^verbatim>\<open>monkutil/bytes.go\<close> and \<^verbatim>\<open>monkutil/big.go\<close>: padding,
  variable-length integers, hexadecimal text, addresses. Functions the rest of the program
  calls to move between numbers and byte strings.
\<close>

section \<open>\<^verbatim>\<open>monkutil/big.go\<close>\<close>

definition BigPow :: "int \<Rightarrow> int \<Rightarrow> int" where
  "BigPow a b = (if b \<le> 0 then 1 else a ^ nat b)"

definition BigD :: "bytes \<Rightarrow> int" where
  "BigD data = int (be_val data)"

definition BigToBytes :: "int \<Rightarrow> nat \<Rightarrow> bytes" where
  "BigToBytes num base =
     (let nb = big_bytes num
      in if length nb > base div 8 then nb
         else replicate (base div 8 - length nb) 0 @ nb)"

definition BigMax :: "int \<Rightarrow> int \<Rightarrow> int" where
  "BigMax x y = (if x \<le> y then y else x)"

definition BigMin :: "int \<Rightarrow> int \<Rightarrow> int" where
  "BigMin x y = (if x \<ge> y then y else x)"

section \<open>\<^verbatim>\<open>monkutil/bytes.go\<close>\<close>

fun DeleteFromByteSlice :: "bytes list \<Rightarrow> bytes \<Rightarrow> bytes list" where
  "DeleteFromByteSlice [] hash = []"
| "DeleteFromByteSlice (h # s) hash =
     (if h = hash then s else h # DeleteFromByteSlice s hash)"

definition RightPadBytes :: "bytes \<Rightarrow> nat \<Rightarrow> bytes" where
  "RightPadBytes sl l =
     (if l < length sl then sl else sl @ replicate (l - length sl) 0)"

definition LeftPadBytes :: "bytes \<Rightarrow> nat \<Rightarrow> bytes" where
  "LeftPadBytes sl l =
     (if l < length sl then sl else replicate (l - length sl) 0 @ sl)"

text \<open>\<open>binary.Read\<close> of an unsigned \<open>k\<close>-byte number: it needs \<open>k\<close> bytes and leaves the
  destination alone (here 0) when there are fewer.\<close>

definition binary_Read :: "nat \<Rightarrow> bytes \<Rightarrow> nat" where
  "binary_Read k d = (if length d < k then 0 else be_val (take k d))"

definition BytesToNumber :: "bytes \<Rightarrow> nat option" where
  "BytesToNumber b =
     (if length b > 8 then None
      else Some (binary_Read 8 (replicate (length b) 0 @ b)))"

definition ReadVarInt :: "bytes \<Rightarrow> nat" where
  "ReadVarInt buff =
     (let l = length buff
      in if l > 4 then binary_Read 8 (LeftPadBytes buff 8)
         else if l > 2 then binary_Read 4 (LeftPadBytes buff 4)
         else if l > 1 then binary_Read 2 (LeftPadBytes buff 2)
         else binary_Read 1 buff)"

partial_function (option) BinaryLength :: "int \<Rightarrow> nat option" where
  "BinaryLength num =
     (if num = 0 then Some 0
      else do { n \<leftarrow> BinaryLength (num div 256); Some (1 + n) })"

definition Address :: "bytes \<Rightarrow> bytes" where
  "Address sl =
     (if length sl < 20 then LeftPadBytes sl 20
      else if length sl > 20 then drop (length sl - 20) sl
      else sl)"

text \<open>Text is a byte string; the characters the functions test for are written as numbers:
  \<open>48 = '0'\<close>, \<open>120 = 'x'\<close>, \<open>10\<close> is a newline.\<close>

definition has_0x :: "bytes \<Rightarrow> bool" where
  "has_0x s \<longleftrightarrow> take 2 s = [48, 120]"

definition IsHex :: "bytes \<Rightarrow> bool" where
  "IsHex str \<longleftrightarrow> length str \<ge> 4 \<and> length str mod 2 = 0 \<and> has_0x str"

definition StripHex :: "bytes \<Rightarrow> bytes" where
  "StripHex s = (if length s > 1 \<and> has_0x s then drop 2 s else s)"

definition hex_digit :: "nat \<Rightarrow> byte" where
  "hex_digit n = (if n < 10 then of_nat (48 + n) else of_nat (87 + n))"

definition Bytes2Hex :: "bytes \<Rightarrow> bytes" where
  "Bytes2Hex d = concat (map (\<lambda>b. [hex_digit (unat b div 16), hex_digit (unat b mod 16)]) d)"

definition from_hex_digit :: "byte \<Rightarrow> nat option" where
  "from_hex_digit c =
     (let n = unat c
      in if 48 \<le> n \<and> n \<le> 57 then Some (n - 48)
         else if 97 \<le> n \<and> n \<le> 102 then Some (n - 87)
         else if 65 \<le> n \<and> n \<le> 70 then Some (n - 55)
         else None)"

fun hex_DecodeString :: "bytes \<Rightarrow> bytes option" where
  "hex_DecodeString [] = Some []"
| "hex_DecodeString [c] = None"
| "hex_DecodeString (a # b # s) =
     do { x \<leftarrow> from_hex_digit a; y \<leftarrow> from_hex_digit b; r \<leftarrow> hex_DecodeString s;
          Some (of_nat (16 * x + y) # r) }"

text \<open>The error of \<open>hex.DecodeString\<close> is dropped; it comes with a nil slice.\<close>

definition Hex2Bytes :: "bytes \<Rightarrow> bytes" where
  "Hex2Bytes str = (case hex_DecodeString str of None \<Rightarrow> [] | Some h \<Rightarrow> h)"

definition UserHex2Bytes :: "bytes \<Rightarrow> bytes" where
  "UserHex2Bytes str =
     (if length str \<le> 1 then [] else Hex2Bytes (if has_0x str then drop 2 str else str))"

definition StringToByteFunc :: "bytes \<Rightarrow> (bytes \<Rightarrow> bytes) \<Rightarrow> bytes" where
  "StringToByteFunc str cb =
     (if length str > 1 \<and> has_0x str \<and> 10 \<notin> set str then Hex2Bytes (drop 2 str) else cb str)"

definition LeftPadString :: "bytes \<Rightarrow> nat \<Rightarrow> bytes" where
  "LeftPadString str l =
     (if l < length str then str
      else Bytes2Hex (replicate ((l - length str) div 2) 0) @ str)"

definition RightPadString :: "bytes \<Rightarrow> nat \<Rightarrow> bytes" where
  "RightPadString str l =
     (if l < length str then str
      else str @ Bytes2Hex (replicate ((l - length str) div 2) 0))"

text \<open>The two kinds of argument \<open>ParseData\<close> takes.\<close>

datatype parse_arg = PStr bytes | PBytes bytes

fun ParseData :: "parse_arg list \<Rightarrow> bytes" where
  "ParseData [] = []"
| "ParseData (PStr t # data) =
     RightPadBytes (if IsHex t then Hex2Bytes (drop 2 t) else t) 32 @ ParseData data"
| "ParseData (PBytes t # data) = LeftPadBytes t 32 @ ParseData data"

section \<open>Padding\<close>

lemma length_LeftPadBytes [simp]: "length (LeftPadBytes bs l) = max l (length bs)"
  by (simp add: LeftPadBytes_def)

lemma length_RightPadBytes [simp]: "length (RightPadBytes bs l) = max l (length bs)"
  by (simp add: RightPadBytes_def)

lemma be_val_LeftPadBytes [simp, bytes_simps]: "be_val (LeftPadBytes bs l) = be_val bs"
  by (simp add: LeftPadBytes_def be_val_zeros_append)

lemma BigD_LeftPadBytes [simp, bytes_simps]: "BigD (LeftPadBytes bs l) = BigD bs"
  by (simp add: BigD_def)

lemma BigD_nonneg [simp]: "0 \<le> BigD bs"
  by (simp add: BigD_def)

lemma BigD_big_bytes [simp, bytes_simps]: "BigD (big_bytes x) = \<bar>x\<bar>"
  by (simp add: BigD_def big_bytes_def)

lemma BigToBytes_LeftPad: "BigToBytes num base = LeftPadBytes (big_bytes num) (base div 8)"
  by (simp add: BigToBytes_def LeftPadBytes_def Let_def)

lemma BigD_BigToBytes [simp, bytes_simps]: "BigD (BigToBytes num base) = \<bar>num\<bar>"
  by (simp add: BigToBytes_LeftPad)

lemma length_big_bytes_le: "\<bar>x\<bar> < 256 ^ k \<longleftrightarrow> length (big_bytes x) \<le> k"
  by (simp add: big_bytes_def length_be_bytes_le_iff nat_less_iff)

lemma length_BigToBytes_256: "\<bar>x\<bar> < 2 ^ 256 \<Longrightarrow> length (BigToBytes x 256) = 32"
proof -
  assume "\<bar>x\<bar> < 2 ^ 256"
  then have "\<bar>x\<bar> < 256 ^ 32" by simp
  then have "length (big_bytes x) \<le> 32" by (rule length_big_bytes_le [THEN iffD1])
  then show ?thesis by (simp add: BigToBytes_LeftPad)
qed

lemma length_Address [simp]: "length (Address bs) = 20"
  by (simp add: Address_def)

lemma Address_idem [simp]: "Address (Address bs) = Address bs"
  by (simp add: Address_def [of "Address bs"])

section \<open>Variable-length integers\<close>

lemma binary_Read_all: "length d = k \<Longrightarrow> binary_Read k d = be_val d"
  by (simp add: binary_Read_def)

lemma ReadVarInt_eq: "length bs \<le> 8 \<Longrightarrow> ReadVarInt bs = be_val bs"
proof -
  assume len: "length bs \<le> 8"
  consider "length bs > 4" | "length bs = 3 \<or> length bs = 4" | "length bs = 2" | "length bs = 1" | "bs = []"
    using len by (cases "length bs") (auto, linarith)
  then show ?thesis
  proof cases
    case 5
    then show ?thesis by (simp add: ReadVarInt_def binary_Read_def)
  qed (use len in \<open>auto simp: ReadVarInt_def Let_def binary_Read_all\<close>)
qed

lemma ReadVarInt_long: "length bs > 8 \<Longrightarrow> ReadVarInt bs = be_val (take 8 bs)"
  by (simp add: ReadVarInt_def Let_def binary_Read_def LeftPadBytes_def)

lemma ReadVarInt_be_bytes: "n < 2 ^ 64 \<Longrightarrow> ReadVarInt (be_bytes n) = n"
proof -
  assume "n < 2 ^ 64"
  then have "n < 256 ^ 8" by simp
  then have "length (be_bytes n) \<le> 8" by (simp add: length_be_bytes_le_iff)
  then show ?thesis by (simp add: ReadVarInt_eq)
qed

lemma ReadVarInt_less: "ReadVarInt bs < 2 ^ 64"
proof -
  have "ReadVarInt bs = be_val (take 8 bs)"
    by (cases "length bs \<le> 8") (simp_all add: ReadVarInt_eq ReadVarInt_long)
  also have "\<dots> < 256 ^ length (take 8 bs)" by (rule be_val_bound)
  also have "\<dots> \<le> (256 :: nat) ^ 8" by (rule power_increasing) simp_all
  finally show ?thesis by simp
qed

lemma BinaryLength_of_nat: "BinaryLength (int n) = Some (length (be_bytes n))"
proof (induction n rule: be_bytes.induct)
  case (1 n)
  show ?case
  proof (cases "n = 0")
    case True
    then show ?thesis by (simp add: BinaryLength.simps)
  next
    case False
    then have "BinaryLength (int (n div 256)) = Some (length (be_bytes (n div 256)))"
      using 1 by simp
    with False show ?thesis
      by (subst BinaryLength.simps) (simp add: zdiv_int be_bytes_pos)
  qed
qed

section \<open>Hexadecimal text\<close>

lemma from_hex_digit_hex_digit [simp]: "n < 16 \<Longrightarrow> from_hex_digit (hex_digit n) = Some n"
  by (auto simp: hex_digit_def from_hex_digit_def Let_def simp del: of_nat_add)

lemma hex_DecodeString_Bytes2Hex: "hex_DecodeString (Bytes2Hex d) = Some d"
proof (induction d)
  case Nil
  show ?case by (simp add: Bytes2Hex_def)
next
  case (Cons b d)
  have "unat b div 16 < 16" using unat_byte_less [of b] by simp
  with Cons show ?case by (simp add: Bytes2Hex_def del: of_nat_add of_nat_mult)
qed

section \<open>Properties\<close>

text \<open>C27: \<open>BytesToNumber\<close> is not a big-endian read: it pads with as many zeros as the input has
  bytes instead of padding to eight, so it reads the leading \<open>8 - n\<close> bytes of an \<open>n\<close>-byte input,
  gives 0 for inputs of fewer than four bytes, and the right number only for four.\<close>

theorem BytesToNumber_value:
  assumes "length b \<le> 8"
  shows "BytesToNumber b = Some (if length b < 4 then 0 else be_val (take (8 - length b) b))"
  using assms by (auto simp: BytesToNumber_def binary_Read_def be_val_append)

theorem BytesToNumber_value_witness:
  "BytesToNumber [1, 2] = Some 0 \<and> BytesToNumber [1, 2, 3, 4, 5, 6] = Some 258"
  using BytesToNumber_value [of "[1, 2]"] BytesToNumber_value [of "[1, 2, 3, 4, 5, 6]"]
  by (simp add: be_val_def)

end
