(* ===== verification/Rlp.thy ===== *)
theory Rlp
  imports Byte_Util
begin

text \<open>
  The recursive length prefix codec of \<^verbatim>\<open>monkutil/rlp.go\<close>, and the type of the dynamic values
  (\<open>interface{}\<close>) it reads and writes. The zero-run compression the codec can be switched to
  (the global \<open>COMPRESS\<close>) is a component of its own, theory \<^verbatim>\<open>Rlp_Compress\<close>; here the two
  functions it supplies are the arguments \<open>cmp\<close> and \<open>dcmp\<close>.
\<close>

section \<open>Dynamic values\<close>

text \<open>
  The dynamic types the program puts into an \<open>interface{}\<close> that reaches the codec.
  \<open>VInt\<close> is an \<open>int\<close> (64 bits) and \<open>VUint\<close> one of the unsigned integers wider than a byte; the
  program stores no other signed width. A byte string and a string are different dynamic types
  although both are bytes. \<open>VNil\<close> is the nil interface, and a \<open>*big.Int\<close> is never a nil pointer.
\<close>

datatype gval =
    VNil
  | VByte byte
  | VBytes bytes
  | VStr bytes
  | VInt int
  | VUint nat
  | VBig int
  | VList "gval list"

section \<open>Encoding\<close>

definition encode_bytes :: "bytes \<Rightarrow> bytes" where
  "encode_bytes t =
     (if length t = 1 \<and> t ! 0 \<le> 0x7f then t
      else if length t < 56 then of_nat (length t + 0x80) # t
      else let b = be_bytes (length t) in of_nat (length b + 0xb7) # b @ t)"

definition WriteSliceHeader :: "nat \<Rightarrow> bytes" where
  "WriteSliceHeader len =
     (if len < 56 then [of_nat (len + 0xc0)]
      else let b = be_bytes len in of_nat (length b + 0xf7) # b)"

text \<open>Every integer goes through \<open>big.NewInt(int64(t)).Bytes()\<close>, so it is first reduced to
  \<open>int64\<close> and then loses its sign.\<close>

fun Encode_with :: "(bytes \<Rightarrow> bytes) \<Rightarrow> gval \<Rightarrow> bytes" where
  "Encode_with cmp VNil = [0xc0]"
| "Encode_with cmp (VInt t) = encode_bytes (cmp (big_bytes (int64 t)))"
| "Encode_with cmp (VUint t) = encode_bytes (cmp (big_bytes (int64 (int t))))"
| "Encode_with cmp (VByte t) = encode_bytes (cmp (big_bytes (uint t)))"
| "Encode_with cmp (VBig t) = encode_bytes (cmp (big_bytes t))"
| "Encode_with cmp (VBytes t) = encode_bytes (cmp t)"
| "Encode_with cmp (VStr t) = encode_bytes (cmp t)"
| "Encode_with cmp (VList ts) =
     (let b = concat (map (Encode_with cmp) ts) in WriteSliceHeader (length b) @ b)"

section \<open>Decoding\<close>

text \<open>
  \<open>data\<close> is the slice, \<open>spare\<close> the bytes between its length and its capacity: an index
  \<open>data[pos]\<close> is checked against the length, a slice expression \<open>data[a:b]\<close> against the
  capacity. The position is a \<open>uint64\<close>; only the sum with a length of up to eight bytes can
  wrap. The list cases share the loop \<open>decode_items\<close>: \<open>b\<close> is the number of bytes the list
  announces, \<open>i\<close> the number read so far, \<open>slice\<close> the items read.
\<close>

function decode_item :: "bytes \<Rightarrow> bytes \<Rightarrow> nat \<Rightarrow> (gval \<times> nat) option"
  and decode_items :: "bytes \<Rightarrow> bytes \<Rightarrow> nat \<Rightarrow> nat \<Rightarrow> nat \<Rightarrow> gval list \<Rightarrow> (gval list \<times> nat) option"
where
  "decode_item data spare pos =
     (if pos < length data then
        let char = unat (data ! pos); mem = data @ spare in
        if char \<le> 0x7f then Some (VByte (data ! pos), pos + 1)
        else if char \<le> 0xb7 then
          let b = char - 0x80 in
          do { ret \<leftarrow> slice_go mem (pos + 1) (pos + 1 + b); Some (VBytes ret, pos + 1 + b) }
        else if char \<le> 0xbf then
          let b = char - 0xb7 in
          do { lb \<leftarrow> slice_go mem (pos + 1) (pos + 1 + b);
               let e = (pos + 1 + b + ReadVarInt lb) mod 2 ^ 64;
               ret \<leftarrow> slice_go mem (pos + 1 + b) e;
               Some (VBytes ret, e) }
        else if char \<le> 0xf7 then
          do { (sl, p) \<leftarrow> decode_items data spare (pos + 1) (char - 0xc0) 0 []; Some (VList sl, p) }
        else
          let l = char - 0xf7 in
          do { lb \<leftarrow> slice_go mem (pos + 1) (pos + 1 + l);
               (sl, p) \<leftarrow> decode_items data spare (pos + l + 1) (ReadVarInt lb) 0 [];
               Some (VList sl, p) }
      else None)"
| "decode_items data spare pos b i sl =
     (if i < b then
        do { (obj, prevPos) \<leftarrow> decode_item data spare pos;
             decode_items data spare prevPos b (i + (prevPos - pos)) (sl @ [obj]) }
      else Some (sl, pos))"
  by pat_completeness auto

text \<open>Reading an item moves the position forward, and so does reading a list: that is why the
  decoder always stops.\<close>

lemma decode_progress:
  "decode_item_decode_items_dom (Inl (data, spare, pos)) \<Longrightarrow>
     decode_item data spare pos = Some (v, p) \<longrightarrow> pos < length data \<and> pos < p"
  "decode_item_decode_items_dom (Inr (data, spare, pos, b, i, sl)) \<Longrightarrow>
     decode_items data spare pos b i sl = Some (r, q) \<longrightarrow> pos \<le> q"
proof (induction data spare pos and data spare pos b i sl arbitrary: v p and r q
    rule: decode_item_decode_items.pinduct)
  case (1 data spare pos)
  show ?case
  proof
    assume "decode_item data spare pos = Some (v, p)"
    then show "pos < length data \<and> pos < p"
      using "1.hyps" "1.IH" [OF _ refl refl]
      by (auto simp: decode_item.psimps Let_def slice_go_Some_iff bind_eq_Some_conv
          split: if_splits) (metis Suc_le_lessD le_less_trans)+
  qed
next
  case (2 data spare pos b i sl)
  show ?case
  proof
    assume ret: "decode_items data spare pos b i sl = Some (r, q)"
    show "pos \<le> q"
    proof (cases "i < b")
      case True
      with ret obtain obj p' where item: "decode_item data spare pos = Some (obj, p')"
        and rest: "decode_items data spare p' b (i + (p' - pos)) (sl @ [obj]) = Some (r, q)"
        by (auto simp: decode_items.psimps [OF "2.hyps"] bind_eq_Some_conv)
      have "pos < p'" using "2.IH"(1) [OF True] item by blast
      moreover have "p' \<le> q"
        using "2.IH"(2) [OF True item refl] rest by blast
      ultimately show ?thesis by simp
    next
      case False
      with ret show ?thesis by (simp add: decode_items.psimps [OF "2.hyps"])
    qed
  qed
qed

lemma decode_total: "All decode_item_decode_items_dom"
proof (relation "measure (\<lambda>x. case x of
      Inl (data, spare, pos) \<Rightarrow> 2 * (length data - pos)
    | Inr (data, spare, pos, b, i, sl) \<Rightarrow> 2 * (length data - pos) + 1)", goal_cases)
  case (5 data spare pos b i sl x obj prevPos)
  then have "pos < length data \<and> pos < prevPos"
    using decode_progress(1) [of data spare pos obj prevPos] by simp
  then show ?case by auto
qed simp_all

termination decode_item
  by (rule decode_total)

declare decode_item.simps [simp del] decode_items.simps [simp del]

lemma decode_item_less: "decode_item data spare pos = Some (v, p) \<Longrightarrow> pos < length data \<and> pos < p"
  using decode_progress(1) decode_total by simp

section \<open>The value a round trip gives back\<close>

text \<open>Decoding does not give back the dynamic type that was encoded: integers and strings come
  back as byte strings, a single small byte as a \<open>byte\<close>, and nil as the empty list.\<close>

definition canon_bytes :: "bytes \<Rightarrow> gval" where
  "canon_bytes t = (if length t = 1 \<and> t ! 0 \<le> 0x7f then VByte (t ! 0) else VBytes t)"

fun canon_with :: "(bytes \<Rightarrow> bytes) \<Rightarrow> gval \<Rightarrow> gval" where
  "canon_with cmp VNil = VList []"
| "canon_with cmp (VInt t) = canon_bytes (cmp (big_bytes (int64 t)))"
| "canon_with cmp (VUint t) = canon_bytes (cmp (big_bytes (int64 (int t))))"
| "canon_with cmp (VByte t) = canon_bytes (cmp (big_bytes (uint t)))"
| "canon_with cmp (VBig t) = canon_bytes (cmp (big_bytes t))"
| "canon_with cmp (VBytes t) = canon_bytes (cmp t)"
| "canon_with cmp (VStr t) = canon_bytes (cmp t)"
| "canon_with cmp (VList ts) = VList (map (canon_with cmp) ts)"

abbreviation canon :: "gval \<Rightarrow> gval" where
  "canon \<equiv> canon_with (\<lambda>t. t)"

lemma length_be_bytes_64: "n < 2 ^ 64 \<Longrightarrow> length (be_bytes n) \<le> 8"
  by (simp add: length_be_bytes_le_iff)

lemma length_be_bytes_pos: "0 < n \<Longrightarrow> 0 < length (be_bytes n)"
  by simp

lemma slice_go_at:
  "slice_go (pre @ c # mid @ post) (Suc (length pre)) (Suc (length pre + length mid)) = Some mid"
  using slice_go_mid [of _ "pre @ [c]" _ mid post] by simp

lemma decode_item_bytes:
  assumes "length pre + length (encode_bytes t) < 2 ^ 64"
  shows "decode_item (pre @ encode_bytes t @ post) spare (length pre) =
    Some (canon_bytes t, length pre + length (encode_bytes t))"
proof -
  consider (small) "length t = 1" "t ! 0 \<le> 0x7f"
    | (short) "\<not> (length t = 1 \<and> t ! 0 \<le> 0x7f)" "length t < 56"
    | (long) "\<not> (length t = 1 \<and> t ! 0 \<le> 0x7f)" "56 \<le> length t"
    by linarith
  then show ?thesis
  proof cases
    case small
    then obtain x where "t = [x]" by (cases t) auto
    with small show ?thesis
      by (simp add: encode_bytes_def canon_bytes_def decode_item.simps word_le_nat_alt)
  next
    case short
    let ?c = "of_nat (length t + 0x80) :: byte"
    have c: "unat ?c = length t + 0x80" using short by (simp del: of_nat_add)
    have enc: "encode_bytes t = ?c # t" using short by (simp add: encode_bytes_def)
    have can: "canon_bytes t = VBytes t" using short by (simp add: canon_bytes_def)
    show ?thesis unfolding enc can using short(2) c
      by (simp add: decode_item.simps [of "pre @ _"] Let_def slice_go_at del: of_nat_add)
  next
    case long
    let ?b = "be_bytes (length t)" and ?c = "of_nat (length (be_bytes (length t)) + 0xb7) :: byte"
    have enc: "encode_bytes t = ?c # ?b @ t" using long by (simp add: encode_bytes_def Let_def)
    with assms have len: "length pre + Suc (length ?b + length t) < 2 ^ 64" by simp
    then have b8: "length ?b \<le> 8" by (intro length_be_bytes_64) simp
    then have c: "unat ?c = length ?b + 0xb7" by (simp del: of_nat_add)
    have b0: "0 < length ?b" using long(2) by (intro length_be_bytes_pos) linarith
    have s1: "slice_go (pre @ ?c # ?b @ t @ post @ spare) (Suc (length pre))
        (Suc (length pre + length ?b)) = Some ?b" by (rule slice_go_at)
    have s2: "slice_go (pre @ ?c # ?b @ t @ post @ spare) (Suc (length pre + length ?b))
        (Suc (length pre + length ?b + length t)) = Some t"
      using slice_go_mid [of _ "pre @ ?c # ?b" _ t "post @ spare"] by simp
    have v: "ReadVarInt ?b = length t" using len by (intro ReadVarInt_be_bytes) simp
    have can: "canon_bytes t = VBytes t" using long by (simp add: canon_bytes_def)
    show ?thesis unfolding enc can using c b8 b0 s1 s2 v len
      by (simp add: decode_item.simps [of "pre @ _"] Let_def del: of_nat_add)
  qed
qed

lemma encode_bytes_not_Nil [simp]: "encode_bytes t \<noteq> []"
  by (auto simp: encode_bytes_def Let_def)

lemma WriteSliceHeader_not_Nil [simp]: "WriteSliceHeader n \<noteq> []"
  by (simp add: WriteSliceHeader_def Let_def)

lemma Encode_with_not_Nil [simp]: "Encode_with cmp v \<noteq> []"
  by (cases v) (simp_all add: Let_def)

text \<open>The list loop on the concatenated encodings of a list of values.\<close>

lemma decode_items_concat:
  assumes item: "\<And>v pre post. v \<in> set vs \<Longrightarrow> length pre + length (E v) < 2 ^ 64 \<Longrightarrow>
      decode_item (pre @ E v @ post) spare (length pre) = Some (C v, length pre + length (E v))"
    and ne: "\<And>v. v \<in> set vs \<Longrightarrow> E v \<noteq> []"
    and len: "length pre + length (concat (map E vs)) < 2 ^ 64"
  shows "decode_items (pre @ concat (map E vs) @ post) spare (length pre)
      (i + length (concat (map E vs))) i sl =
    Some (sl @ map C vs, length pre + length (concat (map E vs)))"
  using assms
proof (induction vs arbitrary: pre i sl)
  case Nil
  then show ?case by (subst decode_items.simps) simp
next
  case (Cons v vs)
  let ?cs = "concat (map E vs)"
  have item: "decode_item (pre @ E v @ ?cs @ post) spare (length pre) =
      Some (C v, length pre + length (E v))"
    using Cons.prems by (intro Cons.prems(1)) simp_all
  have rest: "decode_items ((pre @ E v) @ ?cs @ post) spare (length (pre @ E v))
      (i + length (E v) + length ?cs) (i + length (E v)) (sl @ [C v]) =
    Some ((sl @ [C v]) @ map C vs, length (pre @ E v) + length ?cs)"
    using Cons.prems by (intro Cons.IH) simp_all
  have "0 < length (E v)" using Cons.prems(2) by simp
  then show ?case
    using item rest by (subst decode_items.simps) (simp add: add.assoc)
qed

lemma decode_item_list:
  assumes items: "decode_items (pre @ WriteSliceHeader (length cs) @ cs @ post) spare
      (length pre + length (WriteSliceHeader (length cs))) (length cs) 0 [] = Some (vs, p)"
    and len: "length pre + length (WriteSliceHeader (length cs)) + length cs < 2 ^ 64"
  shows "decode_item (pre @ WriteSliceHeader (length cs) @ cs @ post) spare (length pre) =
    Some (VList vs, p)"
proof (cases "length cs < 56")
  case True
  let ?c = "of_nat (length cs + 0xc0) :: byte"
  have h: "WriteSliceHeader (length cs) = [?c]" using True by (simp add: WriteSliceHeader_def)
  have c: "unat ?c = length cs + 0xc0" using True by (simp del: of_nat_add)
  have it: "decode_items (pre @ ?c # cs @ post) spare (Suc (length pre)) (length cs) 0 [] = Some (vs, p)"
    using items unfolding h by simp
  show ?thesis unfolding h using True c it
    by (simp add: decode_item.simps [of "pre @ _"] Let_def del: of_nat_add)
next
  case False
  let ?b = "be_bytes (length cs)" and ?c = "of_nat (length (be_bytes (length cs)) + 0xf7) :: byte"
  have h: "WriteSliceHeader (length cs) = ?c # ?b" using False
    by (simp add: WriteSliceHeader_def Let_def)
  have b8: "length ?b \<le> 8" using len by (intro length_be_bytes_64) simp
  then have c: "unat ?c = length ?b + 0xf7" by (simp del: of_nat_add)
  have b0: "0 < length ?b" using False by (intro length_be_bytes_pos) linarith
  have s1: "slice_go (pre @ ?c # ?b @ cs @ post @ spare) (Suc (length pre))
      (Suc (length pre + length ?b)) = Some ?b" by (rule slice_go_at)
  have v: "ReadVarInt ?b = length cs" using len by (intro ReadVarInt_be_bytes) simp
  have it: "decode_items (pre @ ?c # ?b @ cs @ post) spare (Suc (length pre + length ?b)) (length cs) 0 [] = Some (vs, p)"
    using items unfolding h by simp
  show ?thesis unfolding h using c b0 s1 v it
    by (simp add: decode_item.simps [of "pre @ _"] Let_def del: of_nat_add)
qed

text \<open>The decoder reads back what the encoder wrote, wherever it stands in a buffer and whatever
  follows it, including the bytes beyond the slice's length.\<close>

lemma decode_item_Encode_with:
  "length pre + length (Encode_with cmp v) < 2 ^ 64 \<Longrightarrow>
     decode_item (pre @ Encode_with cmp v @ post) spare (length pre) =
       Some (canon_with cmp v, length pre + length (Encode_with cmp v))"
proof (induction cmp v arbitrary: pre post rule: Encode_with.induct)
  case (1 cmp)
  then show ?case
    by (simp add: decode_item.simps [of "pre @ _"] Let_def decode_items.simps)
next
  case (8 cmp ts)
  let ?cs = "concat (map (Encode_with cmp) ts)" and ?h = "WriteSliceHeader (length (concat (map (Encode_with cmp) ts)))"
  have len: "length pre + length ?h + length ?cs < 2 ^ 64"
    using "8.prems" by (simp add: Let_def)
  have "decode_items ((pre @ ?h) @ ?cs @ post) spare (length (pre @ ?h))
      (0 + length ?cs) 0 [] = Some ([] @ map (canon_with cmp) ts, length (pre @ ?h) + length ?cs)"
    by (rule decode_items_concat) (use "8.IH" len in auto)
  then have "decode_item (pre @ ?h @ ?cs @ post) spare (length pre) =
      Some (VList (map (canon_with cmp) ts), length pre + length ?h + length ?cs)"
    by (intro decode_item_list len) (simp add: add.assoc)
  then show ?case by (simp add: Let_def add.assoc)
qed (simp_all add: decode_item_bytes)

section \<open>Decoding under compression\<close>

text \<open>With \<open>COMPRESS\<close> set, \<open>Decode\<close> runs every byte string of the decoded value through
  decompression. A value of any other dynamic type panics there.\<close>

fun recursiveDecompress_with :: "(bytes \<Rightarrow> bytes option) \<Rightarrow> gval \<Rightarrow> gval option" where
  "recursiveDecompress_with dcmp (VByte t) = Some (VByte t)"
| "recursiveDecompress_with dcmp (VBytes t) = map_option VBytes (dcmp t)"
| "recursiveDecompress_with dcmp (VList t) =
     map_option VList (those (map (recursiveDecompress_with dcmp) t))"
| "recursiveDecompress_with dcmp t = None"

fun all_leaves :: "(bytes \<Rightarrow> bool) \<Rightarrow> gval \<Rightarrow> bool" where
  "all_leaves P VNil = True"
| "all_leaves P (VInt t) = P (big_bytes (int64 t))"
| "all_leaves P (VUint t) = P (big_bytes (int64 (int t)))"
| "all_leaves P (VByte t) = P (big_bytes (uint t))"
| "all_leaves P (VBig t) = P (big_bytes t)"
| "all_leaves P (VBytes t) = P t"
| "all_leaves P (VStr t) = P t"
| "all_leaves P (VList ts) = list_all (all_leaves P) ts"

lemma those_map_Some: "(\<And>x. x \<in> set xs \<Longrightarrow> f x = Some (g x)) \<Longrightarrow> those (map f xs) = Some (map g xs)"
  by (induction xs) simp_all

text \<open>What the codec needs of a compression: it is undone on the byte strings it accepts, and it
  leaves single bytes alone, which the encoder writes without a length.\<close>

locale zero_codec =
  fixes cmp :: "bytes \<Rightarrow> bytes"
    and dcmp :: "bytes \<Rightarrow> bytes option"
    and accepts :: "bytes \<Rightarrow> bool"
  assumes dcmp_cmp: "accepts t \<Longrightarrow> dcmp (cmp t) = Some t"
    and cmp_single: "cmp [x] = [x]"
    and dcmp_single: "dcmp [x] = Some [x]"
begin

lemma decompress_canon_bytes:
  assumes "accepts t"
  shows "recursiveDecompress_with dcmp (canon_bytes (cmp t)) = Some (canon_bytes t)"
proof (cases "length (cmp t) = 1")
  case True
  then obtain x where x: "cmp t = [x]" by (cases "cmp t") auto
  with dcmp_cmp [OF assms] have "t = [x]" by (simp add: dcmp_single)
  with x show ?thesis by (simp add: canon_bytes_def dcmp_single)
next
  case False
  then have "length t \<noteq> 1" by (cases t) (auto simp: cmp_single)
  with False dcmp_cmp [OF assms] show ?thesis by (simp add: canon_bytes_def)
qed

lemma decompress_canon:
  "all_leaves accepts v \<Longrightarrow> recursiveDecompress_with dcmp (canon_with cmp v) = Some (canon v)"
proof (induction v)
  case (VList ts)
  then have "those (map (recursiveDecompress_with dcmp \<circ> canon_with cmp) ts) = Some (map (canon) ts)"
    by (intro those_map_Some) (auto simp: list_all_iff)
  then show ?case by (simp add: comp_def)
qed (simp_all add: decompress_canon_bytes)

lemma compressed_round_trip:
  assumes "all_leaves accepts v"
    and "length pre + length (Encode_with cmp v) < 2 ^ 64"
  shows "do { (d, p) \<leftarrow> decode_item (pre @ Encode_with cmp v @ post) spare (length pre);
              d' \<leftarrow> recursiveDecompress_with dcmp d; Some (d', p) } =
    Some (canon v, length pre + length (Encode_with cmp v))"
  using decode_item_Encode_with [OF assms(2)] decompress_canon [OF assms(1)] by simp

end

end
