(* ===== verification/Rlp_Compress.thy ===== *)
theory Rlp_Compress
  imports Rlp
begin

text \<open>
  The zero-run compression of \<^verbatim>\<open>monkutil/rlp.go\<close> (\<open>compress0\<close>, \<open>decompress0\<close>), the codec entry
  points \<open>Encode\<close>, \<open>Decode\<close> and \<open>Decode_\<close> with the global switch \<open>COMPRESS\<close> as an argument, and
  the reader-based decoder.
\<close>

section \<open>Compression\<close>

text \<open>The first loop collects the bounds of every maximal run of zeros: \<open>i\<close> is the index of the
  next byte, \<open>beg\<close> and \<open>inz\<close> the variables \<open>beg\<close> and \<open>in\<close> of the source.\<close>

primrec find_matches :: "bytes \<Rightarrow> nat \<Rightarrow> nat \<Rightarrow> bool \<Rightarrow> (nat \<times> nat) list" where
  "find_matches [] i beg inz = (if inz then [(beg, i)] else [])"
| "find_matches (x # d) i beg inz =
     (let beg' = (if \<not> inz \<and> x = 0 then i else beg);
          inz' = (if \<not> inz \<and> x = 0 then True else inz)
      in if inz' \<and> x \<noteq> 0 then (beg', i) # find_matches d (i + 1) beg' False
         else find_matches d (i + 1) beg' inz')"

definition zero_marker :: "nat \<Rightarrow> bytes" where
  "zero_marker l =
     (if l > 1 then
        if l < 256 then [0, 0, of_nat l]
        else let lenn = be_bytes l in [0, 0, 0, of_nat (length lenn)] @ lenn
      else [0])"

fun emit_matches :: "bytes \<Rightarrow> (nat \<times> nat) list \<Rightarrow> nat \<Rightarrow> bytes" where
  "emit_matches d [] lasti = (if lasti \<noteq> length d then drop lasti d else [])"
| "emit_matches d ((i, j) # ms) lasti =
     take (i - lasti) (drop lasti d) @ zero_marker (j - i) @ emit_matches d ms j"

definition compress0 :: "bytes \<Rightarrow> bytes" where
  "compress0 d = emit_matches d (find_matches d 0 0 False) 0"

text \<open>The slice given to \<open>decompress0\<close> is a fresh copy, so its capacity is its length.
  \<open>bytes.Repeat\<close> panics on a negative count.\<close>

function decompress_loop :: "bytes \<Rightarrow> nat \<Rightarrow> nat \<Rightarrow> bytes \<Rightarrow> bytes option" where
  "decompress_loop d i lasti dd =
     (if i < length d then
        if length d - i < 3 then decompress_loop d (i + 1) lasti dd
        else if take 3 (drop i d) = [0, 0, 0] then
          do { pre \<leftarrow> slice_go d lasti i;
               n \<leftarrow> index_go d (i + 3);
               nzb \<leftarrow> slice_go d (i + 4) (i + 4 + unat n);
               let nzeros = big_Int64 (BigD nzb);
               if nzeros < 0 then None
               else decompress_loop d (i + 4) (i + 4 + unat n) (dd @ pre @ replicate (nat nzeros) 0) }
        else if take 2 (drop i d) = [0, 0] then
          do { pre \<leftarrow> slice_go d lasti i;
               n \<leftarrow> index_go d (i + 2);
               decompress_loop d (i + 3) (i + 3) (dd @ pre @ replicate (unat n) 0) }
        else decompress_loop d (i + 1) lasti dd
      else if lasti \<noteq> length d then
        do { rest \<leftarrow> slice_go d lasti (length d); Some (dd @ rest) }
      else Some dd)"
  by pat_completeness auto
termination
  by (relation "measure (\<lambda>(d, i, lasti, dd). length d - i)") auto

declare decompress_loop.simps [simp del]

definition decompress0 :: "bytes \<Rightarrow> bytes option" where
  "decompress0 d = decompress_loop d 0 0 []"

section \<open>What compression writes\<close>

lemma find_matches_nonzero:
  "0 \<notin> set ns \<Longrightarrow> find_matches (ns @ d) i beg False = find_matches d (i + length ns) beg False"
  by (induction ns arbitrary: i) (auto simp: Let_def)

lemma find_matches_zeros:
  "find_matches (replicate k 0 @ d) i beg True = find_matches d (i + k) beg True"
  by (induction k arbitrary: i) (simp_all add: Let_def)

lemma find_matches_run:
  assumes "rest = [] \<or> hd rest \<noteq> 0"
  shows "find_matches (replicate (Suc k) 0 @ rest) i beg False =
    (i, i + Suc k) # find_matches rest (i + Suc k) i False"
  using assms find_matches_zeros [of k "[]" "Suc i" i]
  by (cases rest) (auto simp: find_matches_zeros Let_def)

lemma find_matches_beg: "find_matches d i beg False = find_matches d i beg' False"
proof (induction d arbitrary: i)
  case (Cons x d)
  show ?case using Cons [of "Suc i"] by (cases "x = 0") (simp_all add: Let_def)
qed simp

lemma find_matches_shift:
  "find_matches d (n + i) (n + beg) inz = map (\<lambda>(a, b). (n + a, n + b)) (find_matches d i beg inz)"
proof (induction d arbitrary: i beg inz)
  case (Cons x d)
  have "find_matches d (Suc (n + i)) (n + b) z =
      map (\<lambda>(a, b). (n + a, n + b)) (find_matches d (Suc i) b z)" for b z
    using Cons [of "Suc i" b z] by simp
  note IH = this [of beg True] this [of i True] this [of beg False]
  show ?case by (cases inz; cases "x = 0") (simp_all add: IH)
qed simp

lemma emit_matches_shift:
  "emit_matches (pre @ d) (map (\<lambda>(a, b). (length pre + a, length pre + b)) ms) (length pre + l) =
     emit_matches d ms l"
  by (induction d ms l rule: emit_matches.induct) auto

lemma compress0_nonzero: "0 \<notin> set ns \<Longrightarrow> compress0 ns = ns"
  using find_matches_nonzero [of ns "[]" 0 0] by (simp add: compress0_def)

lemma compress0_run:
  assumes "0 \<notin> set ns" and "rest = [] \<or> hd rest \<noteq> 0"
  shows "compress0 (ns @ replicate (Suc k) 0 @ rest) = ns @ zero_marker (Suc k) @ compress0 rest"
proof -
  let ?pre = "ns @ replicate (Suc k) 0"
  have ms: "find_matches (ns @ replicate (Suc k) 0 @ rest) 0 0 False =
      (length ns, length ns + Suc k) # find_matches rest (length ?pre + 0) 0 False"
    using find_matches_nonzero [OF assms(1), of "replicate (Suc k) 0 @ rest" 0 0]
      find_matches_run [OF assms(2), of k "length ns" 0] find_matches_beg [of rest "length ns + Suc k" "length ns" 0]
    by simp
  have sh: "find_matches rest (length ?pre + 0) 0 False =
      map (\<lambda>(a, b). (length ?pre + a, length ?pre + b)) (find_matches rest 0 0 False)"
    using find_matches_shift [of rest "length ?pre" 0 0 False] find_matches_beg [of rest "length ?pre + 0" "length ?pre + 0" 0]
    by simp
  have em: "emit_matches (?pre @ rest) (map (\<lambda>(a, b). (length ?pre + a, length ?pre + b))
      (find_matches rest 0 0 False)) (length ?pre + 0) = compress0 rest"
    unfolding compress0_def by (rule emit_matches_shift)
  show ?thesis
    unfolding compress0_def [of "ns @ _"] ms sh using em by simp
qed

section \<open>What decompression reads\<close>

lemma decompress_skip:
  assumes "x \<noteq> 0 \<or> R = [] \<or> hd R \<noteq> 0"
  shows "decompress_loop (P @ x # R) (length P) l dd = decompress_loop (P @ x # R) (Suc (length P)) l dd"
  using assms by (subst decompress_loop.simps) (cases R; auto)

lemma decompress_skip_nonzero:
  "0 \<notin> set ns \<Longrightarrow> decompress_loop (P @ ns @ R) (length P) l dd =
     decompress_loop (P @ ns @ R) (length P + length ns) l dd"
proof (induction ns arbitrary: P)
  case (Cons x ns)
  then have "decompress_loop (P @ x # ns @ R) (length P) l dd =
      decompress_loop (P @ x # ns @ R) (Suc (length P)) l dd"
    by (intro decompress_skip) auto
  also have "\<dots> = decompress_loop (P @ x # ns @ R) (Suc (length P) + length ns) l dd"
    using Cons.IH [of "P @ [x]"] Cons.prems by simp
  finally show ?case by simp
qed simp

lemma decompress_end: "decompress_loop (A @ B) (length (A @ B)) (length A) dd = Some (dd @ B)"
  by (subst decompress_loop.simps) (auto simp: slice_go_def)

lemma decompress_short_marker:
  assumes "n \<noteq> 0"
  shows "decompress_loop (A @ B @ [0, 0, n] @ R) (length (A @ B)) (length A) dd =
    decompress_loop (A @ B @ [0, 0, n] @ R) (length (A @ B) + 3) (length (A @ B) + 3)
      (dd @ B @ replicate (unat n) 0)"
proof -
  have "slice_go (A @ B @ [0, 0, n] @ R) (length A) (length (A @ B)) = Some B"
    by (rule slice_go_mid) simp_all
  moreover have "index_go (A @ B @ [0, 0, n] @ R) (length (A @ B) + 2) = Some n"
    by (simp add: index_go_def nth_append)
  ultimately show ?thesis using assms by (subst decompress_loop.simps) (simp add: numeral_3_eq_3)
qed

lemma decompress_long_marker:
  assumes "unat k = length lenn" and "be_val lenn < 2 ^ 63"
  shows "decompress_loop (A @ B @ [0, 0, 0, k] @ lenn @ R) (length (A @ B)) (length A) dd =
    decompress_loop (A @ B @ [0, 0, 0, k] @ lenn @ R) (length (A @ B @ [0, 0, 0, k]))
      (length (A @ B @ [0, 0, 0, k]) + length lenn) (dd @ B @ replicate (be_val lenn) 0)"
proof -
  let ?d = "A @ B @ [0, 0, 0, k] @ lenn @ R"
  have len: "length (A @ B @ [0, 0, 0, k]) = length (A @ B) + 4" by simp
  have s1: "slice_go ?d (length A) (length (A @ B)) = Some B"
    by (rule slice_go_mid) simp_all
  have s2: "index_go ?d (length (A @ B) + 3) = Some k"
    by (simp add: index_go_def nth_append)
  have s3: "slice_go ?d (length (A @ B) + 4) (length (A @ B) + 4 + length lenn) = Some lenn"
    by (simp add: slice_go_def)
  have z: "big_Int64 (BigD lenn) = int (be_val lenn)"
    using assms(2) by (simp add: BigD_def big_Int64_id)
  show ?thesis unfolding len using s1 s2 s3 z assms(1)
    by (subst decompress_loop.simps) (simp add: numeral_3_eq_3)
qed

section \<open>The round trip of compression\<close>

text \<open>\<open>runs_below n c d\<close>: every run of zeros in \<open>d\<close> is shorter than \<open>n\<close>, counting \<open>c\<close> zeros
  just before \<open>d\<close>.\<close>

primrec runs_below :: "nat \<Rightarrow> nat \<Rightarrow> bytes \<Rightarrow> bool" where
  "runs_below n c [] = (c < n)"
| "runs_below n c (x # d) = (if x = 0 then runs_below n (Suc c) d else c < n \<and> runs_below n 0 d)"

definition short_zero_runs :: "bytes \<Rightarrow> bool" where
  "short_zero_runs d = runs_below 65536 0 d"

lemma runs_below_replicate: "runs_below n c (replicate k 0 @ d) = runs_below n (c + k) d"
  by (induction k arbitrary: c) simp_all

lemma short_zero_runs_run:
  assumes "0 \<notin> set ns" and "rest = [] \<or> hd rest \<noteq> 0"
    and "short_zero_runs (ns @ replicate k 0 @ rest)"
  shows "k < 65536" and "short_zero_runs rest"
proof -
  have "runs_below 65536 0 (replicate k 0 @ rest)"
    using assms(1,3) by (induction ns) (auto simp: short_zero_runs_def)
  then have "runs_below 65536 k rest" by (simp add: runs_below_replicate)
  then show "k < 65536" and "short_zero_runs rest"
    using assms(2) by (cases rest; simp add: short_zero_runs_def)+
qed

lemma zero_run_cases:
  obtains (nonzero) "0 \<notin> set d"
    | (run) ns k rest where "d = ns @ replicate (Suc k) 0 @ rest" and "0 \<notin> set ns"
      and "rest = [] \<or> hd rest \<noteq> 0"
proof (cases "0 \<in> set d")
  case True
  define tl0 where "tl0 = dropWhile (\<lambda>b. b \<noteq> 0) d"
  have "tl0 \<noteq> []" using True by (auto simp: tl0_def)
  moreover have "hd tl0 = 0" using hd_dropWhile [of "\<lambda>b. b \<noteq> 0" d] calculation
    by (simp add: tl0_def)
  ultimately obtain t where t: "tl0 = 0 # t" by (cases tl0) auto
  let ?zs = "takeWhile (\<lambda>b. b = 0) t" and ?rest = "dropWhile (\<lambda>b. b = 0) t"
  have zs: "?zs = replicate (length ?zs) 0"
    by (rule replicate_eqI) (auto dest: set_takeWhileD)
  have "d = takeWhile (\<lambda>b. b \<noteq> 0) d @ replicate (Suc (length ?zs)) 0 @ ?rest"
    using t takeWhile_dropWhile_id [of "\<lambda>b. b \<noteq> 0" d] takeWhile_dropWhile_id [of "\<lambda>b. b = 0" t] zs
    by (metis append_Cons append.assoc replicate_Suc tl0_def)
  moreover have "0 \<notin> set (takeWhile (\<lambda>b. b \<noteq> 0) d)" by (auto dest: set_takeWhileD)
  moreover have "?rest = [] \<or> hd ?rest \<noteq> 0" using hd_dropWhile [of "\<lambda>b. b = 0" t] by blast
  ultimately show ?thesis by (rule run)
qed (rule nonzero)

lemma compress0_hd:
  assumes "rest = [] \<or> hd rest \<noteq> 0"
  shows "compress0 rest = [] \<or> hd (compress0 rest) \<noteq> 0"
proof (cases rest rule: zero_run_cases)
  case nonzero
  with assms show ?thesis by (simp add: compress0_nonzero)
next
  case (run ns k rest')
  with assms have "ns \<noteq> []" by (cases ns) auto
  then show ?thesis using run(2) compress0_run [OF run(2,3), of k] run(1) by (cases ns) simp_all
qed

lemma be_bytes_two:
  assumes "256 \<le> n" and "n < 65536"
  obtains a b where "be_bytes n = [a, b]" and "a \<noteq> 0"
proof -
  have "n div 256 < 256" "0 < n div 256" using assms by (simp_all add: div_greater_zero_iff)
  then have "be_bytes n = [of_nat (n div 256), of_nat (n mod 256)]"
    using assms by (simp add: be_bytes_pos [of n] be_bytes_pos [of "n div 256"])
  moreover have "(of_nat (n div 256) :: byte) \<noteq> 0"
    using \<open>n div 256 < 256\<close> \<open>0 < n div 256\<close> by (simp add: byte_eq_0_iff)
  ultimately show thesis by (rule that)
qed

lemma decompress_marker:
  assumes "0 < k" and "k < 65536" and R: "R = [] \<or> hd R \<noteq> 0"
    and rest: "\<And>A B dd. decompress_loop (A @ B @ R) (length (A @ B)) (length A) dd = Some (dd @ B @ r)"
  shows "decompress_loop (A @ B @ zero_marker k @ R) (length (A @ B)) (length A) dd =
    Some (dd @ B @ replicate k 0 @ r)"
proof -
  consider "k = 1" | "1 < k" "k < 256" | "256 \<le> k" using assms(1) by linarith
  then show ?thesis
  proof cases
    case 1
    then show ?thesis
      using decompress_skip [where x = 0 and P = "A @ B" and l = "length A" and dd = dd, OF disjI2 [OF R]] rest [of A "B @ [0]" dd]
      by (simp add: zero_marker_def)
  next
    case 2
    let ?n = "of_nat k :: byte"
    have n: "?n \<noteq> 0" "unat ?n = k" using 2 by (simp_all add: byte_eq_0_iff)
    show ?thesis
      using decompress_short_marker [OF n(1), of A B R dd] 2 n
        rest [of "A @ B @ [0, 0, ?n]" "[]" "dd @ B @ replicate k 0"]
      by (simp add: zero_marker_def numeral_3_eq_3)
  next
    case 3
    then obtain a b where ab: "be_bytes k = [a, b]" "a \<noteq> 0"
      using be_bytes_two [OF _ assms(2)] by blast
    let ?P = "A @ B @ [0, 0, 0, 2]"
    have v: "be_val [a, b] = k" using ab(1) be_val_be_bytes [of k] by simp
    have m: "zero_marker k = [0, 0, 0, 2, a, b]" using 3 ab by (simp add: zero_marker_def Let_def)
    have "be_val [a, b] < 2 ^ 63" using v assms(2) by simp
    then have "decompress_loop (A @ B @ [0, 0, 0, 2] @ [a, b] @ R) (length (A @ B)) (length A) dd =
        decompress_loop (?P @ a # b # R) (length ?P) (length ?P + 2) (dd @ B @ replicate k 0)"
      using decompress_long_marker [of 2 "[a, b]" A B R dd] unfolding v by simp
    also have "\<dots> = decompress_loop (?P @ a # b # R) (Suc (length ?P)) (length ?P + 2) (dd @ B @ replicate k 0)"
      by (rule decompress_skip) (simp add: ab(2))
    also have "\<dots> = decompress_loop ((?P @ [a]) @ b # R) (Suc (length (?P @ [a]))) (length ?P + 2) (dd @ B @ replicate k 0)"
      using decompress_skip [where x = b and P = "?P @ [a]" and l = "length ?P + 2"
          and dd = "dd @ B @ replicate k 0", OF disjI2 [OF R]] by simp
    also have "\<dots> = Some (dd @ B @ replicate k 0 @ r)"
      using rest [of "?P @ [a, b]" "[]" "dd @ B @ replicate k 0"] by simp
    finally show ?thesis using m by simp
  qed
qed

lemma decompress_compress:
  "short_zero_runs d \<Longrightarrow>
     decompress_loop (A @ B @ compress0 d) (length (A @ B)) (length A) dd = Some (dd @ B @ d)"
proof (induction d arbitrary: A B dd rule: length_induct)
  case (1 d)
  show ?case
  proof (cases d rule: zero_run_cases)
    case nonzero
    then show ?thesis
      using decompress_skip_nonzero [OF nonzero, of "A @ B" "[]" "length A" dd] decompress_end [of A "B @ d" dd]
      by (simp add: compress0_nonzero add.assoc)
  next
    case (run ns k rest)
    have k: "Suc k < 65536" and s: "short_zero_runs rest"
      using short_zero_runs_run [OF run(2,3), of "Suc k"] "1.prems" run(1) by auto
    have "length rest < length d" using run(1) by simp
    then have IH: "\<And>A B dd. decompress_loop (A @ B @ compress0 rest) (length (A @ B)) (length A) dd =
        Some (dd @ B @ rest)" using "1.IH" s by blast
    let ?R = "zero_marker (Suc k) @ compress0 rest"
    have "decompress_loop (A @ B @ ns @ ?R) (length (A @ B)) (length A) dd =
        decompress_loop (A @ (B @ ns) @ ?R) (length (A @ B @ ns)) (length A) dd"
      using decompress_skip_nonzero [OF run(2), of "A @ B" ?R "length A" dd] by (simp add: add.assoc)
    also have "\<dots> = Some (dd @ (B @ ns) @ replicate (Suc k) 0 @ rest)"
      using decompress_marker [OF _ k compress0_hd [OF run(3)] IH, of A "B @ ns" dd] by simp
    finally show ?thesis using compress0_run [OF run(2,3), of k] run(1) by simp
  qed
qed

lemma decompress0_compress0: "short_zero_runs d \<Longrightarrow> decompress0 (compress0 d) = Some d"
  using decompress_compress [of d "[]" "[]" "[]"] by (simp add: decompress0_def)

interpretation zc: zero_codec compress0 decompress0 short_zero_runs
proof
  show "decompress0 (compress0 t) = Some t" if "short_zero_runs t" for t
    using that by (rule decompress0_compress0)
  show "compress0 [x] = [x]" for x
    using compress0_nonzero [of "[x]"] compress0_run [of "[]" "[]" 0] compress0_nonzero [of "[]"]
    by (cases "x = 0") (simp_all add: zero_marker_def)
  show "decompress0 [x] = Some [x]" for x
    using decompress_skip [of x "[]" "[]" 0 "[]"] decompress_end [of "[]" "[x]" "[]"]
    unfolding decompress0_def by simp
qed

section \<open>The entry points of the codec\<close>

text \<open>\<open>c\<close> is the global \<open>COMPRESS\<close>.\<close>

definition Encode :: "bool \<Rightarrow> gval \<Rightarrow> bytes" where
  "Encode c v = Encode_with (if c then compress0 else (\<lambda>t. t)) v"

definition Decode :: "bool \<Rightarrow> bytes \<Rightarrow> bytes \<Rightarrow> nat \<Rightarrow> (gval \<times> nat) option" where
  "Decode c data spare pos =
     do { (d, p) \<leftarrow> decode_item data spare pos;
          d' \<leftarrow> (if c then recursiveDecompress_with decompress0 d else Some d);
          Some (d', p) }"

text \<open>\<open>Decode_\<close> is the older decoder; its list loop calls \<open>Decode\<close>.\<close>

lemma Decode_less: "Decode c data spare pos = Some (v, p) \<Longrightarrow> pos < length data \<and> pos < p"
  by (auto simp: Decode_def bind_eq_Some_conv dest: decode_item_less)

function decode_loop_old :: "bool \<Rightarrow> bytes \<Rightarrow> bytes \<Rightarrow> nat \<Rightarrow> nat \<Rightarrow> nat \<Rightarrow> gval list \<Rightarrow> (gval list \<times> nat) option" where
  "decode_loop_old c data spare pos b i sl =
     (if i < b then
        do { (obj, prevPos) \<leftarrow> Decode c data spare pos;
             decode_loop_old c data spare prevPos b (i + (prevPos - pos)) (sl @ [obj]) }
      else Some (sl, pos))"
  by pat_completeness auto
termination
  by (relation "measure (\<lambda>(c, data, spare, pos, b, i, sl). length data - pos)") (auto dest!: Decode_less)

declare decode_loop_old.simps [simp del]

definition Decode_old :: "bool \<Rightarrow> bytes \<Rightarrow> bytes \<Rightarrow> nat \<Rightarrow> (gval \<times> nat) option" where
  "Decode_old c data spare pos =
     (if pos < length data then
        let char = unat (data ! pos); mem = data @ spare in
        if char \<le> 0x7f then Some (VByte (data ! pos), pos + 1)
        else if char \<le> 0xb7 then
          let b = char - 0x80 in
          do { ret \<leftarrow> slice_go mem (pos + 1) (pos + 1 + b); Some (VBytes ret, pos + 1 + b) }
        else if char \<le> 0xbf then
          let b = char - 0xb7 in
          do { lb \<leftarrow> slice_go mem (pos + 1) (pos + 1 + b);
               let e = (pos + 1 + b + ReadVarInt lb) mod 2 ^ 64;
               ret \<leftarrow> slice_go mem (pos + 1 + b) e;
               Some (VBytes ret, e) }
        else if char \<le> 0xf7 then
          do { (sl, p) \<leftarrow> decode_loop_old c data spare (pos + 1) (char - 0xc0) 0 []; Some (VList sl, p) }
        else
          let l = char - 0xf7 in
          do { lb \<leftarrow> slice_go mem (pos + 1) (pos + 1 + l);
               (sl, p) \<leftarrow> decode_loop_old c data spare (pos + l + 1) (ReadVarInt lb) 0 [];
               Some (VList sl, p) }
      else None)"

lemma Decode_False [simp]: "Decode False = decode_item"
  by (intro ext) (auto simp: Decode_def split: Option.bind_splits)

lemma decode_loop_old_False: "decode_loop_old False data spare pos b i sl = decode_items data spare pos b i sl"
proof (induction "False" data spare pos b i sl rule: decode_loop_old.induct)
  case (1 data spare pos b i sl)
  show ?case
  proof (cases "i < b")
    case True
    then have "decode_loop_old False data spare p b (i + (p - pos)) (sl @ [v]) =
        decode_items data spare p b (i + (p - pos)) (sl @ [v])"
      if "decode_item data spare pos = Some (v, p)" for v p
      using 1 [OF True _ refl] that by simp
    with True show ?thesis
      by (simp add: decode_loop_old.simps [of False _ _ pos] decode_items.simps [of _ _ pos]
          split: Option.bind_splits)
  qed (simp add: decode_loop_old.simps decode_items.simps)
qed

lemma compress0_not_Nil: "d \<noteq> [] \<Longrightarrow> compress0 d \<noteq> []"
  by (cases d rule: zero_run_cases) (auto simp: compress0_nonzero compress0_run zero_marker_def Let_def
      simp del: replicate.simps)

lemma be_bytes_long_run:
  "0 < a \<Longrightarrow> a < 256 \<Longrightarrow> be_bytes (65536 * a) = [of_nat a, 0, 0]"
  using be_bytes_be_val [of "[of_nat a, 0, 0]"] of_nat_neq_0 [of a, where 'a = 8]
  by (auto simp: be_val_def unat_of_nat)

section \<open>Properties\<close>

text \<open>C5: what \<open>Encode\<close> wrote is read back by \<open>Decode\<close>, from any position of a buffer and
  whatever follows, up to the dynamic types the format does not keep. With compression on, this
  holds for values whose byte strings have no run of 65536 zeros.\<close>

theorem rlp_roundtrip:
  assumes "c \<longrightarrow> all_leaves short_zero_runs v"
    and "length pre + length (Encode c v) < 2 ^ 64"
  shows "Decode c (pre @ Encode c v @ post) spare (length pre) =
    Some (canon v, length pre + length (Encode c v))"
  using assms zc.compressed_round_trip decode_item_Encode_with
  by (cases c) (simp_all add: Decode_def Encode_def)

theorem rlp_roundtrip_witness:
  "Decode True ([7] @ [201, 132, 0, 0, 3, 5, 130, 4, 0, 192] @ [9]) [] 1 =
    Some (VList [VBytes [0, 0, 0, 5], VBytes [4, 0], VList []], 11)"
proof -
  let ?v = "VList [VStr [0, 0, 0, 5], VUint 1024, VList []]"
  have l: "all_leaves short_zero_runs ?v"
    by (simp add: short_zero_runs_def big_bytes_def int64_def be_bytes.simps)
  have e: "Encode True ?v = [201, 132, 0, 0, 3, 5, 130, 4, 0, 192]"
    by code_simp
  have c: "canon ?v = VList [VBytes [0, 0, 0, 5], VBytes [4, 0], VList []]"
    by code_simp
  have n: "length [7 :: byte] = 1" "1 + length [201 :: byte, 132, 0, 0, 3, 5, 130, 4, 0, 192] = 11"
    by simp_all
  show ?thesis
    using rlp_roundtrip [of True ?v "[7]" "[9]" "[]", unfolded e c n] l by simp
qed

text \<open>C25: the decompression of a compressed byte string that starts with a run of \<open>65536 * a\<close> zeros
  (\<open>0 < a < 256\<close>) followed by another byte panics: after the long marker the scan resumes inside
  the marker's length bytes and takes the zeros there for a marker.\<close>

theorem decompress0_long_run_panics:
  assumes "0 < a" and "a < 256" and "x \<noteq> 0"
  shows "decompress0 (compress0 (replicate (65536 * a) 0 @ x # r)) = None"
proof -
  have k: "65536 * a = Suc (65536 * a - 1)" using assms by simp
  have c: "compress0 (replicate (65536 * a) 0 @ x # r) = zero_marker (65536 * a) @ compress0 (x # r)"
    using compress0_run [of "[]" "x # r" "65536 * a - 1"] assms(3) k by simp
  obtain y z where yz: "compress0 (x # r) = y # z" and y: "y \<noteq> 0"
    using compress0_hd [of "x # r"] compress0_not_Nil [of "x # r"] assms(3)
    by (cases "compress0 (x # r)") auto
  have a: "(of_nat a :: byte) \<noteq> 0" using assms by (simp add: byte_eq_0_iff)
  have l2: "\<not> 65536 * a < 256" "1 < 65536 * a" using assms(1) by linarith+
  have n47: "4 = Suc (Suc (Suc (Suc 0)))" "7 = Suc (Suc (Suc (Suc (Suc (Suc (Suc 0))))))" by simp_all
  have z: "compress0 (replicate (65536 * a) 0 @ x # r) = [] @ [] @ [0, 0, 0, 3] @ [of_nat a, 0, 0] @ y # z"
    using l2 by (simp add: c yz zero_marker_def be_bytes_long_run assms)
  have "decompress0 (compress0 (replicate (65536 * a) 0 @ x # r)) =
     decompress_loop ([0, 0, 0, 3, of_nat a, 0, 0] @ y # z) 4 7 (replicate (65536 * a) 0)"
    using decompress_long_marker [of 3 "[of_nat a, 0, 0]" "[]" "[]" "y # z" "[]"] assms(2)
    unfolding decompress0_def z n47 by (simp add: be_val_def unat_of_nat take_bit_eq_mod mult.commute)
  also have "\<dots> = decompress_loop ([0, 0, 0, 3, of_nat a, 0, 0] @ y # z) 5 7 (replicate (65536 * a) 0)"
    using a by (subst decompress_loop.simps) simp
  also have "\<dots> = None"
    using y by (subst decompress_loop.simps) (simp add: slice_go_def)
  finally show ?thesis .
qed

theorem decompress0_long_run_panics_witness:
  "decompress0 (compress0 (replicate (65536 * 1) 0 @ 5 # [])) = None"
  by (rule decompress0_long_run_panics) simp_all

text \<open>C22: without compression the older decoder \<open>Decode_\<close> returns exactly what \<open>Decode\<close> returns,
  on every input, panics included.\<close>

theorem Decode_old_equiv: "Decode_old False data spare pos = Decode False data spare pos"
  unfolding Decode_old_def Decode_False decode_item.simps [of data spare pos] decode_loop_old_False ..

end
