(* ===== verification/Rlp_Reader.thy ===== *)
theory Rlp_Reader
  imports Rlp_Compress
begin

text \<open>
  The reader-based decoder \<open>DecodeWithReader\<close> of \<^verbatim>\<open>monkutil/rlp.go\<close>. The \<open>bytes.Buffer\<close> is the list
  of its unread bytes; \<open>Next(n)\<close> takes up to \<open>n\<close> of them. Nothing in the program calls this
  decoder; it is modelled because it is exported, and because it does not read what \<open>Encode\<close>
  writes for a list.
\<close>

function DecodeWithReader :: "bytes \<Rightarrow> (gval \<times> bytes) option"
  and read_objs :: "nat \<Rightarrow> bytes \<Rightarrow> (gval list \<times> bytes) option"
where
  "DecodeWithReader [] = Some (VInt (- 1), [])"
| "DecodeWithReader (c # r) =
     (let char = unat c in
      if char \<le> 0x7f then Some (VInt (int char), r)
      else if char \<le> 0xb7 then Some (VBytes (take (char - 0x80) r), drop (char - 0x80) r)
      else if char \<le> 0xbf then
        let len = ReadVarInt (take (char - 0xb7) r); r' = drop (char - 0xb7) r
        in if len \<ge> 2 ^ 63 then None else Some (VBytes (take len r'), drop len r')
      else if char \<le> 0xf7 then
        do { (sl, r') \<leftarrow> read_objs (char - 0xc0) r; Some (VList sl, r') }
      else
        do { (sl, r') \<leftarrow> read_objs (ReadVarInt (take (char - 0xf7) r)) (drop (char - 0xf7) r);
             Some (VList sl, r') })"
| "read_objs 0 r = Some ([], r)"
| "read_objs (Suc n) r =
     do { (obj, r1) \<leftarrow> DecodeWithReader r; (objs, r2) \<leftarrow> read_objs n r1; Some (obj # objs, r2) }"
  by pat_completeness auto

lemma reader_progress:
  "DecodeWithReader_read_objs_dom (Inl r) \<Longrightarrow> DecodeWithReader r = Some (v, s) \<longrightarrow> length s \<le> length r"
  "DecodeWithReader_read_objs_dom (Inr (n, r)) \<Longrightarrow> read_objs n r = Some (vs, s) \<longrightarrow> length s \<le> length r"
proof (induction r and n r arbitrary: v s and vs s rule: DecodeWithReader_read_objs.pinduct)
  case (2 c r)
  have IH1: "length s' \<le> length r" if "read_objs (unat c - 0xc0) r = Some (sl, s')"
    "\<not> unat c \<le> 0xbf" "unat c \<le> 0xf7" for sl s'
    using "2.IH"(1) [OF refl] that by auto
  have IH2: "length s' \<le> length r"
    if "read_objs (ReadVarInt (take (unat c - 0xf7) r)) (drop (unat c - 0xf7) r) = Some (sl, s')"
      "\<not> unat c \<le> 0xf7" for sl s'
    using "2.IH"(2) [OF refl] that by fastforce
  show ?case
    using IH1 IH2
    by (auto simp: DecodeWithReader.psimps(2) [OF "2.hyps"] Let_def bind_eq_Some_conv split: if_splits)
next
  case (4 n r)
  have IH2: "length s2 \<le> length r1"
    if "DecodeWithReader r = Some (obj, r1)" "read_objs n r1 = Some (objs, s2)" for obj r1 objs s2
    using "4.IH"(2) [OF that(1) refl] that(2) by blast
  show ?case
    using "4.IH"(1) IH2 by (fastforce simp: read_objs.psimps(2) [OF "4.hyps"] bind_eq_Some_conv)
qed (auto simp: DecodeWithReader.psimps(1) read_objs.psimps(1))

lemma reader_total: "All DecodeWithReader_read_objs_dom"
proof (relation "measures [\<lambda>x. case x of Inl r \<Rightarrow> length r | Inr (n, r) \<Rightarrow> length r,
      \<lambda>x. case x of Inl r \<Rightarrow> 0 | Inr (n, r) \<Rightarrow> n]", goal_cases)
  case (5 n r x obj r1)
  then show ?case using reader_progress(1) [of r obj r1] by auto
qed auto

termination DecodeWithReader
  by (rule reader_total)

declare DecodeWithReader.simps(2) [simp del]

text \<open>On the encoding of a byte string the reader agrees with the other decoders, except that a
  single small byte comes back as an \<open>int\<close>.\<close>

lemma reader_bytes:
  assumes "length (encode_bytes t) < 2 ^ 63"
  shows "DecodeWithReader (encode_bytes t @ post) =
    Some (if length t = 1 \<and> t ! 0 \<le> 0x7f then VInt (uint (t ! 0)) else VBytes t, post)"
proof -
  consider (small) "length t = 1" "t ! 0 \<le> 0x7f"
    | (short) "\<not> (length t = 1 \<and> t ! 0 \<le> 0x7f)" "length t < 56"
    | (long) "\<not> (length t = 1 \<and> t ! 0 \<le> 0x7f)" "56 \<le> length t"
    by linarith
  then show ?thesis
  proof cases
    case small
    then obtain x where "t = [x]" by (cases t) auto
    with small show ?thesis
      by (simp add: encode_bytes_def DecodeWithReader.simps(2) word_le_nat_alt)
  next
    case short
    let ?c = "of_nat (length t + 0x80) :: byte"
    have c: "unat ?c = length t + 0x80" using short by (simp del: of_nat_add)
    have enc: "encode_bytes t = ?c # t" using short by (simp add: encode_bytes_def)
    show ?thesis unfolding enc using short c
      by (simp add: DecodeWithReader.simps(2) del: of_nat_add)
  next
    case long
    let ?b = "be_bytes (length t)" and ?c = "of_nat (length (be_bytes (length t)) + 0xb7) :: byte"
    have enc: "encode_bytes t = ?c # ?b @ t" using long by (simp add: encode_bytes_def Let_def)
    with assms have len: "length t < 2 ^ 63" by simp
    then have b8: "length ?b \<le> 8" by (intro length_be_bytes_64) simp
    then have c: "unat ?c = length ?b + 0xb7" by (simp del: of_nat_add)
    have b0: "0 < length ?b" using long(2) by (intro length_be_bytes_pos) linarith
    have v: "ReadVarInt ?b = length t" using len by (intro ReadVarInt_be_bytes) simp
    show ?thesis unfolding enc using long c b8 b0 v len
      by (simp add: DecodeWithReader.simps(2) Let_def del: of_nat_add)
  qed
qed

lemma read_objs_eof: "read_objs n [] = Some (replicate n (VInt (- 1)), [])"
  by (induction n) simp_all

text \<open>C26: the reader-based decoder takes the length of a list for a number of items, so it does not
  read what \<open>Encode\<close> wrote: for a list of one short byte string it returns that string followed
  by one end-of-input mark for every byte of it.\<close>

theorem DecodeWithReader_list:
  assumes "2 \<le> length t" and "length t < 55"
  shows "DecodeWithReader (Encode False (VList [VBytes t])) =
    Some (VList (VBytes t # replicate (length t) (VInt (- 1))), [])"
proof -
  let ?c = "of_nat (length t + 1 + 0xc0) :: byte"
  have e: "encode_bytes t = of_nat (length t + 0x80) # t"
    using assms by (simp add: encode_bytes_def)
  have enc: "Encode False (VList [VBytes t]) = ?c # encode_bytes t"
    using assms by (simp add: Encode_def WriteSliceHeader_def Let_def e del: of_nat_add)
  have c: "unat ?c = length t + 1 + 0xc0" using assms by (simp del: of_nat_add)
  have "DecodeWithReader (encode_bytes t @ []) = Some (VBytes t, [])"
    using assms e by (subst reader_bytes) auto
  then have "read_objs (Suc (length t)) (encode_bytes t) =
      Some (VBytes t # replicate (length t) (VInt (- 1)), [])"
    by (simp add: read_objs_eof)
  then show ?thesis
    unfolding enc using c assms by (simp add: DecodeWithReader.simps(2) del: of_nat_add)
qed

theorem DecodeWithReader_list_witness:
  "DecodeWithReader (Encode False (VList [VBytes [1, 2]])) =
    Some (VList [VBytes [1, 2], VInt (- 1), VInt (- 1)], [])"
  using DecodeWithReader_list [of "[1, 2]"] by simp
end
