(* ===== verification/Value.thy ===== *)
theory Value
  imports Rlp_Reader
begin

text \<open>
  The accessors of \<^verbatim>\<open>monkutil/value.go\<close>: a \<open>Value\<close> wraps one dynamic value and converts it to
  whatever type the caller asks for, and it "always returns something valid". A \<open>Value\<close> is
  modelled by the dynamic value it holds, a method that updates it by the value it leaves.
\<close>

section \<open>Conversions\<close>

text \<open>The conversion of a byte to a string is the UTF-8 encoding of the code point.\<close>

definition string_of_byte :: "byte \<Rightarrow> bytes" where
  "string_of_byte b =
     (if b \<le> 0x7f then [b] else [of_nat (0xc0 + unat b div 64), of_nat (0x80 + unat b mod 64)])"

text \<open>\<open>strconv.Atoi\<close>: an optional sign and decimal digits; 0 on a syntax error and the nearest
  \<open>int\<close> on an overflow (the error itself is dropped by the caller).\<close>

definition dec_digit :: "byte \<Rightarrow> bool" where
  "dec_digit b = (0x30 \<le> b \<and> b \<le> 0x39)"

definition dec_val :: "bytes \<Rightarrow> nat" where
  "dec_val ds = foldl (\<lambda>n d. 10 * n + (unat d - 0x30)) 0 ds"

definition Atoi :: "bytes \<Rightarrow> int" where
  "Atoi s =
     (let neg = (s \<noteq> [] \<and> hd s = 0x2d);
          ds = (if s \<noteq> [] \<and> (hd s = 0x2d \<or> hd s = 0x2b) then tl s else s)
      in if ds = [] \<or> \<not> list_all dec_digit ds then 0
         else max (- (2 ^ 63)) (min (2 ^ 63 - 1) (if neg then - int (dec_val ds) else int (dec_val ds))))"

text \<open>\<open>Big\<close> is \<open>SetString(num, 0)\<close>: the base comes from the prefix, and of a malformed text the
  digits before the first stray character count.\<close>

definition digit_of :: "byte \<Rightarrow> nat" where
  "digit_of b =
     (if 0x30 \<le> b \<and> b \<le> 0x39 then unat b - 0x30
      else if 0x61 \<le> b \<and> b \<le> 0x7a then unat b - 0x61 + 10
      else if 0x41 \<le> b \<and> b \<le> 0x5a then unat b - 0x41 + 10 else 255)"

definition digits_val :: "nat \<Rightarrow> bytes \<Rightarrow> nat" where
  "digits_val base ds = foldl (\<lambda>n d. base * n + digit_of d) 0 (takeWhile (\<lambda>d. digit_of d < base) ds)"

definition nat_scan :: "bytes \<Rightarrow> nat" where
  "nat_scan ds =
     (case ds of
        d # e # r \<Rightarrow>
          if d \<noteq> 0x30 then digits_val 10 ds
          else if e = 0x78 \<or> e = 0x58 then digits_val 16 r
          else if e = 0x62 \<or> e = 0x42 then digits_val 2 r
          else digits_val 8 (e # r)
      | _ \<Rightarrow> digits_val 10 ds)"

definition Big :: "bytes \<Rightarrow> int" where
  "Big num =
     (if num \<noteq> [] \<and> hd num = 0x2d then - int (nat_scan (tl num))
      else if num \<noteq> [] \<and> hd num = 0x2b then int (nat_scan (tl num))
      else int (nat_scan num))"

definition Value_Uint :: "gval \<Rightarrow> nat" where
  "Value_Uint v =
     (case v of
        VByte b \<Rightarrow> unat b
      | VUint n \<Rightarrow> n
      | VInt i \<Rightarrow> nat (i mod 2 ^ 64)
      | VBytes b \<Rightarrow> big_Uint64 (BigD b)
      | VBig i \<Rightarrow> big_Uint64 i
      | _ \<Rightarrow> 0)"

text \<open>\<open>Int\<close> knows the signed integers only: an unsigned one gives 0.\<close>

definition Value_Int :: "gval \<Rightarrow> int" where
  "Value_Int v =
     (case v of
        VInt i \<Rightarrow> i
      | VBytes b \<Rightarrow> big_Int64 (BigD b)
      | VBig i \<Rightarrow> big_Int64 i
      | VStr s \<Rightarrow> Atoi s
      | _ \<Rightarrow> 0)"

definition Value_Byte :: "gval \<Rightarrow> byte" where
  "Value_Byte v = (case v of VByte b \<Rightarrow> b | _ \<Rightarrow> 0)"

definition Value_BigInt :: "gval \<Rightarrow> int" where
  "Value_BigInt v =
     (case v of
        VBytes b \<Rightarrow> BigD b
      | VBig i \<Rightarrow> i
      | VStr s \<Rightarrow> Big s
      | _ \<Rightarrow> int64 (int (Value_Uint v)))"

definition Value_Str :: "gval \<Rightarrow> bytes" where
  "Value_Str v =
     (case v of VBytes b \<Rightarrow> b | VStr s \<Rightarrow> s | VByte b \<Rightarrow> string_of_byte b | _ \<Rightarrow> [])"

definition Value_Bytes :: "gval \<Rightarrow> bytes" where
  "Value_Bytes v =
     (case v of
        VBytes b \<Rightarrow> b
      | VByte b \<Rightarrow> [b]
      | VStr s \<Rightarrow> s
      | VBig i \<Rightarrow> big_bytes i
      | _ \<Rightarrow> big_bytes (Value_Int v))"

definition Value_Slice :: "gval \<Rightarrow> gval list" where
  "Value_Slice v = (case v of VList d \<Rightarrow> d | _ \<Rightarrow> [])"

definition Value_Len :: "gval \<Rightarrow> nat" where
  "Value_Len v = (case v of VList d \<Rightarrow> length d | _ \<Rightarrow> length (Value_Bytes v))"

definition Value_IsNil :: "gval \<Rightarrow> bool" where
  "Value_IsNil v = (v = VNil)"

text \<open>The kind checks ask \<open>reflect.TypeOf\<close>, which panics on nil.\<close>

definition Value_IsSlice :: "gval \<Rightarrow> bool option" where
  "Value_IsSlice v =
     (case v of VNil \<Rightarrow> None | VList _ \<Rightarrow> Some True | VBytes _ \<Rightarrow> Some True | _ \<Rightarrow> Some False)"

definition Value_IsStr :: "gval \<Rightarrow> bool option" where
  "Value_IsStr v = (case v of VNil \<Rightarrow> None | VStr _ \<Rightarrow> Some True | _ \<Rightarrow> Some False)"

definition Value_IsList :: "gval \<Rightarrow> bool" where
  "Value_IsList v = (case v of VList _ \<Rightarrow> True | _ \<Rightarrow> False)"

definition Value_IsEmpty :: "gval \<Rightarrow> bool option" where
  "Value_IsEmpty v =
     (if v = VNil then Some True
      else do { sl \<leftarrow> Value_IsSlice v;
                st \<leftarrow> (if sl then Some True else Value_IsStr v);
                Some (st \<and> Value_Len v = 0) })"

definition Value_Get :: "gval \<Rightarrow> int \<Rightarrow> gval" where
  "Value_Get v idx =
     (case v of
        VList d \<Rightarrow>
          if int (length d) \<le> idx then VNil
          else if idx < 0 then VNil
          else d ! nat idx
      | _ \<Rightarrow> VNil)"

definition Value_SliceFrom :: "gval \<Rightarrow> int \<Rightarrow> gval option" where
  "Value_SliceFrom v from =
     (if from < 0 \<or> int (length (Value_Slice v)) < from then None
      else Some (VList (drop (nat from) (Value_Slice v))))"

definition Value_Cmp :: "gval \<Rightarrow> gval \<Rightarrow> bool" where
  "Value_Cmp v w = (v = w)"

definition Value_DeepCmp :: "gval \<Rightarrow> gval \<Rightarrow> bool" where
  "Value_DeepCmp v w = (Value_Bytes v = Value_Bytes w)"

section \<open>Encoding\<close>

text \<open>The package variable \<open>COMPRESS\<close> is false and nothing but a test sets it.\<close>

definition COMPRESS :: bool where
  "COMPRESS = False"

definition Value_Encode :: "gval \<Rightarrow> bytes" where
  "Value_Encode v = Encode COMPRESS v"

text \<open>The slice that is decoded is taken to have no spare capacity: reading past the end of
  truncated data is a panic here, also where Go would find zeroed spare bytes.\<close>

definition Value_Decode :: "gval \<Rightarrow> gval option" where
  "Value_Decode v = map_option fst (Decode COMPRESS (Value_Bytes v) [] 0)"

definition NewValueFromBytes :: "bytes \<Rightarrow> gval option" where
  "NewValueFromBytes data =
     (if length data \<noteq> 0 then Value_Decode (VBytes data) else Some VNil)"

section \<open>Updates\<close>

definition EmptyValue :: gval where
  "EmptyValue = VList []"

definition Value_Append :: "gval \<Rightarrow> gval \<Rightarrow> gval" where
  "Value_Append v x = VList (Value_Slice v @ [x])"

definition NewSliceValue :: "gval \<Rightarrow> gval" where
  "NewSliceValue s = (case s of VList sl \<Rightarrow> foldl Value_Append EmptyValue sl | _ \<Rightarrow> EmptyValue)"

datatype valOp = valOpAdd | valOpDiv | valOpMul | valOpPow | valOpSub

definition big_Exp :: "int \<Rightarrow> int \<Rightarrow> int" where
  "big_Exp x y = (if y \<le> 0 then 1 else x ^ nat y)"

definition Value_doOp :: "gval \<Rightarrow> valOp \<Rightarrow> gval \<Rightarrow> gval option" where
  "Value_doOp self op other =
     (let left = Value_BigInt self; right = Value_BigInt other in
      case op of
        valOpAdd \<Rightarrow> Some (VBig (left + right))
      | valOpDiv \<Rightarrow> map_option VBig (big_Div left right)
      | valOpMul \<Rightarrow> Some (VBig (left * right))
      | valOpPow \<Rightarrow> Some (VBig (big_Exp left right))
      | valOpSub \<Rightarrow> Some (VBig (left - right)))"

record ValueIterator =
  it_value :: gval
  it_currentValue :: gval
  it_idx :: nat

definition Value_NewIterator :: "gval \<Rightarrow> ValueIterator" where
  "Value_NewIterator v = \<lparr>it_value = v, it_currentValue = VNil, it_idx = 0\<rparr>"

definition ValueIterator_Next :: "ValueIterator \<Rightarrow> bool \<times> ValueIterator" where
  "ValueIterator_Next it =
     (if it_idx it \<ge> Value_Len (it_value it) then (False, it)
      else (True, it\<lparr>it_currentValue := Value_Get (it_value it) (int (it_idx it)),
                     it_idx := it_idx it + 1\<rparr>))"

section \<open>Laws of the accessors\<close>

named_theorems value_simps

lemmas value_defs [value_simps] =
  Value_Uint_def Value_Int_def Value_BigInt_def Value_Str_def Value_Bytes_def Value_Slice_def
  Value_Len_def Value_IsNil_def Value_IsList_def Value_Get_def

lemma Value_Get_nth [value_simps]: "i < length d \<Longrightarrow> Value_Get (VList d) (int i) = d ! i"
  by (simp add: Value_Get_def)

lemma NewSliceValue_VList [simp]: "NewSliceValue (VList sl) = VList sl"
proof -
  have "foldl Value_Append (VList pre) sl = VList (pre @ sl)" for pre
    by (induction sl arbitrary: pre) (simp_all add: Value_Append_def Value_Slice_def)
  from this [of "[]"] show ?thesis by (simp add: NewSliceValue_def EmptyValue_def)
qed

text \<open>Decoding what was encoded.\<close>

lemma NewValueFromBytes_Encode:
  assumes "length (Value_Encode v) < 2 ^ 64"
  shows "NewValueFromBytes (Value_Encode v) = Some (canon v)"
  using decode_item_Encode_with [of "[]" "\<lambda>t. t" v "[]" "[]"] assms
  by (simp add: NewValueFromBytes_def Value_Decode_def Value_Encode_def Encode_def COMPRESS_def
      Value_Bytes_def)

text \<open>Values with the same encoding are the same up to what the encoding forgets.\<close>

lemma Value_Encode_inject:
  assumes "Value_Encode v = Value_Encode w" and "length (Value_Encode v) < 2 ^ 64"
  shows "canon v = canon w"
  using NewValueFromBytes_Encode [of v] NewValueFromBytes_Encode [of w] assms by simp

end
