(* ===== verification/Trie_Encoding.thy ===== *)
theory Trie_Encoding
  imports Value
begin

text \<open>
  The key encodings of the trie, \<^verbatim>\<open>monktrie/encoding.go\<close>, and the slice helpers of
  \<^verbatim>\<open>monktrie/slice.go\<close>. A trie key is a list of nibbles; 16 is the terminator, which stands at the
  end of a complete key.
\<close>

section \<open>Slices\<close>

definition CompareIntSlice :: "nat list \<Rightarrow> nat list \<Rightarrow> bool" where
  "CompareIntSlice a b = (length a = length b \<and> list_all2 (\<lambda>v w. v = w) a b)"

fun MatchingNibbleLength :: "nat list \<Rightarrow> nat list \<Rightarrow> nat" where
  "MatchingNibbleLength (x # a) (y # b) = (if x \<noteq> y then 0 else Suc (MatchingNibbleLength a b))"
| "MatchingNibbleLength _ _ = 0"

lemma CompareIntSlice_iff [simp]: "CompareIntSlice a b \<longleftrightarrow> a = b"
  by (auto simp: CompareIntSlice_def list_all2_eq [symmetric] list.rel_eq)

lemma matching_nibbles:
  "take (MatchingNibbleLength a b) a = take (MatchingNibbleLength a b) b"
  "MatchingNibbleLength a b \<le> length a" "MatchingNibbleLength a b \<le> length b"
  "MatchingNibbleLength a b < length a \<Longrightarrow> MatchingNibbleLength a b < length b \<Longrightarrow>
     a ! MatchingNibbleLength a b \<noteq> b ! MatchingNibbleLength a b"
  by (induction a b rule: MatchingNibbleLength.induct) auto

section \<open>Nibbles\<close>

definition hex_base :: bytes where
  "hex_base = lit ''0123456789abcdef''"

definition IndexByte :: "bytes \<Rightarrow> byte \<Rightarrow> int" where
  "IndexByte base v =
     (if v \<in> set base then int (length (takeWhile (\<lambda>b. b \<noteq> v) base)) else - 1)"

definition CompactHexDecode :: "bytes \<Rightarrow> nat list" where
  "CompactHexDecode str = map (\<lambda>v. nat (IndexByte hex_base v)) (Bytes2Hex str) @ [16]"

text \<open>The bytes of an even number of nibbles; an odd number would index past the end.\<close>

fun pack_nibbles :: "nat list \<Rightarrow> bytes option" where
  "pack_nibbles [] = Some []"
| "pack_nibbles [a] = None"
| "pack_nibbles (a # b # r) = map_option (\<lambda>s. of_nat (16 * a + b) # s) (pack_nibbles r)"

definition CompactEncode :: "nat list \<Rightarrow> bytes option" where
  "CompactEncode hexSlice =
     (if hexSlice = [] then None
      else
        let terminator = (if last hexSlice = 16 then 1 else 0);
            hs = (if terminator = 1 then butlast hexSlice else hexSlice);
            oddlen = length hs mod 2;
            flags = 2 * terminator + oddlen
        in if oddlen \<noteq> 0 then pack_nibbles (flags # hs) else pack_nibbles (flags # 0 # hs))"

definition CompactDecode :: "bytes \<Rightarrow> nat list option" where
  "CompactDecode str =
     (let base = CompactHexDecode str; base = butlast base in
      if base = [] then None
      else let base = (if base ! 0 \<ge> 2 then base @ [16] else base)
           in if base ! 0 mod 2 = 1 then Some (drop 1 base) else Some (drop 2 base))"

definition DecodeCompact :: "nat list \<Rightarrow> bytes" where
  "DecodeCompact key =
     Hex2Bytes (concat (map (\<lambda>v. if v < 16 then [hex_base ! v] else []) key))"

section \<open>The encodings are inverse to each other\<close>

definition nibbles :: "bytes \<Rightarrow> nat list" where
  "nibbles str = concat (map (\<lambda>b. [unat b div 16, unat b mod 16]) str)"

lemma nibbles_simps [simp]:
  "nibbles [] = []" "nibbles (b # s) = unat b div 16 # unat b mod 16 # nibbles s"
  by (simp_all add: nibbles_def)

lemma length_nibbles [simp]: "length (nibbles s) = 2 * length s"
  by (induction s) simp_all

lemma nibbles_less: "x \<in> set (nibbles s) \<Longrightarrow> x < 16"
proof (induction s)
  case (Cons b s)
  then show ?case using unat_byte_less [of b] by auto
qed simp

lemma nibbles_inject [simp]: "nibbles s = nibbles t \<longleftrightarrow> s = t"
proof (induction s arbitrary: t)
  case Nil
  show ?case by (cases t) simp_all
next
  case (Cons b s)
  have "unat b div 16 = unat c div 16 \<Longrightarrow> unat b mod 16 = unat c mod 16 \<Longrightarrow> b = c" for c
    by (metis div_mult_mod_eq byte_eq_iff_unat)
  with Cons show ?case by (cases t) auto
qed

lemma IndexByte_hex_digit [simp]: "n < 16 \<Longrightarrow> IndexByte hex_base (hex_digit n) = int n"
proof -
  assume "n < 16"
  then have "n \<in> {0, 1, 2, 3, 4, 5, 6, 7, 8, 9, 10, 11, 12, 13, 14, 15}" by simp presburger
  then show ?thesis
    by (auto simp: IndexByte_def hex_base_def lit_def hex_digit_def of_char_def)
qed

lemma CompactHexDecode_nibbles: "CompactHexDecode str = nibbles str @ [16]"
proof (induction str)
  case (Cons b s)
  have "unat b div 16 < 16" using unat_byte_less [of b] by simp
  with Cons show ?case by (simp add: CompactHexDecode_def Bytes2Hex_def)
qed (simp add: CompactHexDecode_def Bytes2Hex_def)

lemma pack_nibbles_nibbles: "pack_nibbles (nibbles s) = Some s"
proof (induction s)
  case (Cons b s)
  have "(of_nat (16 * (unat b div 16) + unat b mod 16) :: byte) = b"
    by (simp del: of_nat_add of_nat_mult)
  with Cons show ?case by (simp del: of_nat_add of_nat_mult)
qed simp

lemma pack_nibbles_even:
  "even (length ns) \<Longrightarrow> list_all (\<lambda>n. n < 16) ns \<Longrightarrow> \<exists>s. pack_nibbles ns = Some s \<and> nibbles s = ns"
proof (induction ns rule: pack_nibbles.induct)
  case (3 a b r)
  then obtain s where "pack_nibbles r = Some s" "nibbles s = r" by auto
  moreover have "unat (of_nat (16 * a + b) :: byte) = 16 * a + b"
    using "3.prems" by (simp del: of_nat_add of_nat_mult)
  ultimately show ?case using "3.prems" by (simp del: of_nat_add of_nat_mult)
qed auto

definition valid_key :: "nat list \<Rightarrow> bool" where
  "valid_key k = (k \<noteq> [] \<and> list_all (\<lambda>n. n < 16) (butlast k) \<and> last k \<le> 16)"

text \<open>The parts of a key, without and with its terminator.\<close>

lemma valid_key_cases:
  assumes "valid_key k"
  obtains (ended) hs where "k = hs @ [16]" "list_all (\<lambda>n. n < 16) hs"
    | (open_end) "k \<noteq> []" "list_all (\<lambda>n. n < 16) k"
proof (cases "last k = 16")
  case True
  with assms show ?thesis
    using append_butlast_last_id [of k] by (intro ended [of "butlast k"]) (auto simp: valid_key_def)
next
  case False
  with assms have "list_all (\<lambda>n. n < 16) (butlast k @ [last k])" "k \<noteq> []"
    unfolding valid_key_def list_all_append by (simp_all del: append_butlast_last_id)
  then show ?thesis by (intro open_end) simp_all
qed

lemma compact_pack:
  assumes hs: "list_all (\<lambda>n. n < 16) hs" and f: "f = 2 * t + length hs mod 2" "t \<le> 1"
    and ns: "ns = (if length hs mod 2 \<noteq> 0 then f # hs else f # 0 # hs)"
  obtains s where "pack_nibbles ns = Some s" "s \<noteq> []"
    "CompactDecode s = Some (if t = 1 then hs @ [16] else hs)"
proof -
  have "f < 16" using f by simp
  then have "list_all (\<lambda>n. n < 16) ns" "even (length ns)"
    using hs ns by (auto simp: even_iff_mod_2_eq_zero mod_Suc)
  then obtain s where s: "pack_nibbles ns = Some s" "nibbles s = ns"
    using pack_nibbles_even by blast
  have "CompactDecode s = Some (if t = 1 then hs @ [16] else hs)"
    using f ns unfolding CompactDecode_def CompactHexDecode_nibbles s(2)
    by (cases "t = 0"; cases "length hs mod 2 = 0") (auto simp: Let_def)
  moreover have "s \<noteq> []" using s(2) ns by (auto split: if_splits)
  ultimately show thesis using s(1) that by blast
qed

lemma CompactDecode_CompactEncode:
  assumes "valid_key k"
  obtains s where "CompactEncode k = Some s" "s \<noteq> []" "CompactDecode s = Some k"
  using assms
proof (cases rule: valid_key_cases)
  case (ended hs)
  obtain s where s: "pack_nibbles (if length hs mod 2 \<noteq> 0 then (2 * 1 + length hs mod 2) # hs else (2 * 1 + length hs mod 2) # 0 # hs) = Some s"
    "s \<noteq> []" "CompactDecode s = Some (if (1 :: nat) = 1 then hs @ [16] else hs)"
    by (rule compact_pack [OF ended(2) refl _ refl, where t = 1]) simp
  then show ?thesis using ended(1) that by (simp add: CompactEncode_def Let_def split: if_splits)
next
  case open_end
  have l: "last k \<noteq> 16" using open_end last_in_set [of k] by (force simp: list_all_iff)
  obtain s where s: "pack_nibbles (if length k mod 2 \<noteq> 0 then (2 * 0 + length k mod 2) # k else (2 * 0 + length k mod 2) # 0 # k) = Some s"
    "s \<noteq> []" "CompactDecode s = Some (if (0 :: nat) = 1 then k @ [16] else k)"
    by (rule compact_pack [OF open_end(2) refl _ refl, where t = 0]) simp
  then show ?thesis using open_end(1) l that by (simp add: CompactEncode_def Let_def split: if_splits)
qed

text \<open>The compact encoding is the single byte 0 for no key: that byte marks an empty path.\<close>

lemma CompactEncode_not_zero: "valid_key k \<Longrightarrow> CompactEncode k \<noteq> Some [0]"
proof
  assume "valid_key k" and z: "CompactEncode k = Some [0]"
  then have "CompactDecode [0] = Some k" by (elim CompactDecode_CompactEncode) simp
  moreover have "CompactDecode [0] = Some []"
    by (simp add: CompactDecode_def CompactHexDecode_nibbles)
  ultimately show False using \<open>valid_key k\<close> by (simp add: valid_key_def)
qed

lemma valid_key_CompactHexDecode: "valid_key (CompactHexDecode s)"
  using nibbles_less by (auto simp: CompactHexDecode_nibbles valid_key_def list_all_iff)

lemma DecodeCompact_CompactHexDecode: "DecodeCompact (CompactHexDecode s) = s"
proof -
  have hx: "hex_base ! n = hex_digit n" if "n < 16" for n
  proof -
    have "n \<in> {0, 1, 2, 3, 4, 5, 6, 7, 8, 9, 10, 11, 12, 13, 14, 15}" using that by simp presburger
    then show ?thesis by (auto simp: hex_base_def lit_def hex_digit_def of_char_def)
  qed
  have "concat (map (\<lambda>v. if v < 16 then [hex_base ! v] else []) (nibbles s)) = Bytes2Hex s"
  proof (induction s)
    case (Cons b s)
    have "unat b div 16 < 16" using unat_byte_less [of b] by simp
    with Cons show ?case by (simp add: hx Bytes2Hex_def)
  qed (simp add: Bytes2Hex_def)
  then show ?thesis
    by (simp add: DecodeCompact_def CompactHexDecode_nibbles Hex2Bytes_def hex_DecodeString_Bytes2Hex)
qed

section \<open>Properties\<close>

text \<open>C23: the compact encoding of a trie path, with or without a terminator, is decoded to that
  path, and a byte-string key survives the way to nibbles and back.\<close>

theorem compact_roundtrip:
  assumes "valid_key k"
  shows "do { s \<leftarrow> CompactEncode k; CompactDecode s } = Some k \<and>
    DecodeCompact (CompactHexDecode str) = str"
  using assms DecodeCompact_CompactHexDecode by (auto elim: CompactDecode_CompactEncode)

theorem compact_roundtrip_witness:
  "do { s \<leftarrow> CompactEncode [1, 15, 3, 16]; CompactDecode s } = Some [1, 15, 3, 16] \<and>
    DecodeCompact (CompactHexDecode [0x1f, 0x30]) = [0x1f, 0x30]"
  using compact_roundtrip [of "[1, 15, 3, 16]" "[0x1f, 0x30]"] by (simp add: valid_key_def)

end
