(* ===== verification/Trie.thy ===== *)
theory Trie
  imports Trie_Encoding "HOL-Library.AList"
begin

text \<open>
  The Merkle trie of \<^verbatim>\<open>monktrie/trie.go\<close>: its node cache in front of the database, lookup, insertion,
  deletion and iteration. The database is a map from keys to byte strings. The cache is the
  association list of the assignments made to it, the newest first, so that the first entry of a key
  is the one that counts; \<open>AList.clearjunk\<close> drops the others. Each entry has its dirty flag.
  The hash \<open>Sha3Bin\<close> is the parameter \<open>sha\<close>. \<open>None\<close> is a panic, or a walk that does not end, which
  only a malformed trie has.
\<close>

section \<open>The cache\<close>

type_synonym database = "bytes \<rightharpoonup> bytes"

record Cache =
  nodes :: "(bytes \<times> gval \<times> bool) list"
  db :: database
  IsDirty :: bool

definition NewCache :: "database \<Rightarrow> Cache" where
  "NewCache d = \<lparr>nodes = [], db = d, IsDirty = False\<rparr>"

definition PutValue :: "(bytes \<Rightarrow> bytes) \<Rightarrow> Cache \<Rightarrow> gval \<Rightarrow> bool \<Rightarrow> gval \<times> Cache" where
  "PutValue sha c v force =
     (let enc = Value_Encode v in
      if length enc \<ge> 32 \<or> force then
        let h = sha enc
        in (VBytes h, c\<lparr>nodes := (h, v, True) # nodes c, IsDirty := True\<rparr>)
      else (v, c))"

definition Cache_Put :: "(bytes \<Rightarrow> bytes) \<Rightarrow> Cache \<Rightarrow> gval \<Rightarrow> gval \<times> Cache" where
  "Cache_Put sha c v = PutValue sha c v False"

definition Cache_Get :: "Cache \<Rightarrow> bytes \<Rightarrow> (gval \<times> Cache) option" where
  "Cache_Get c key =
     (case map_of (nodes c) key of
        Some (v, _) \<Rightarrow> Some (v, c)
      | None \<Rightarrow>
          let data = (case db c key of Some d \<Rightarrow> d | None \<Rightarrow> []) in
          do { value \<leftarrow> NewValueFromBytes data;
               Some (value, c\<lparr>nodes := (key, value, False) # nodes c\<rparr>) })"

definition Cache_Delete :: "Cache \<Rightarrow> bytes \<Rightarrow> Cache" where
  "Cache_Delete c key = c\<lparr>nodes := AList.delete key (nodes c), db := (db c)(key := None)\<rparr>"

fun commit_nodes :: "(bytes \<times> gval \<times> bool) list \<Rightarrow> database \<Rightarrow> database" where
  "commit_nodes [] d = d"
| "commit_nodes ((key, v, dirty) # ns) d =
     commit_nodes ns (if dirty then d(key \<mapsto> Value_Encode v) else d)"

definition Cache_Commit :: "Cache \<Rightarrow> Cache" where
  "Cache_Commit c =
     (if \<not> IsDirty c then c
      else
        let live = AList.clearjunk (nodes c);
            ns = map (\<lambda>(k, v, dirty). (k, v, False)) live
        in c\<lparr>nodes := (if length ns > 200 then [] else ns), db := commit_nodes live (db c),
             IsDirty := False\<rparr>)"

definition Cache_Undo :: "Cache \<Rightarrow> Cache" where
  "Cache_Undo c = c\<lparr>nodes := filter (\<lambda>(k, v, dirty). \<not> dirty) (AList.clearjunk (nodes c)), IsDirty := False\<rparr>"

section \<open>Nodes\<close>

definition getNode :: "Cache \<Rightarrow> gval \<Rightarrow> (gval \<times> Cache) option" where
  "getNode c n =
     (if Value_Get n 0 \<noteq> VNil then Some (n, c)
      else
        let str = Value_Str n in
        if length str = 0 then Some (n, c)
        else if length str < 32 then do { v \<leftarrow> NewValueFromBytes str; Some (v, c) }
        else Cache_Get c (Value_Bytes n))"

definition EmptyStringSlice :: "nat \<Rightarrow> gval list" where
  "EmptyStringSlice l = replicate l (VStr [])"

text \<open>An assignment to a slice element.\<close>

definition set_go :: "'a list \<Rightarrow> nat \<Rightarrow> 'a \<Rightarrow> 'a list option" where
  "set_go xs i x = (if i < length xs then Some (xs[i := x]) else None)"

text \<open>The copy of a branch node, in which a missing or nil child becomes the empty string.\<close>

definition copy_branch :: "gval \<Rightarrow> gval list" where
  "copy_branch cur =
     map (\<lambda>i. let cpy = Value_Get cur (int i) in if cpy \<noteq> VNil then cpy else VStr []) [0..<17]"

partial_function (option) getState :: "Cache \<Rightarrow> gval \<Rightarrow> nat list \<Rightarrow> (gval \<times> Cache) option" where
  "getState c node key =
     (if key = [] \<or> Value_IsNil node \<or> Value_Len node = 0 then Some (node, c)
      else do {
        (cur, c1) \<leftarrow> getNode c node;
        if Value_Len cur = 0 then Some (VStr [], c1)
        else if Value_Len cur = 2 then do {
          k \<leftarrow> CompactDecode (Value_Str (Value_Get cur 0));
          if length key \<ge> length k \<and> CompareIntSlice k (take (length k) key)
          then getState c1 (Value_Get cur 1) (drop (length k) key)
          else Some (VStr [], c1) }
        else if Value_Len cur = 17 then getState c1 (Value_Get cur (int (hd key))) (tl key)
        else None })"

partial_function (option) InsertState ::
  "(bytes \<Rightarrow> bytes) \<Rightarrow> Cache \<Rightarrow> gval \<Rightarrow> nat list \<Rightarrow> gval \<Rightarrow> (gval \<times> Cache) option" where
  "InsertState sha c node key value =
     (if key = [] then Some (value, c)
      else if node = VNil \<or> Value_Len node = 0 then do {
        ck \<leftarrow> CompactEncode key;
        Some (Cache_Put sha c (VList [VStr ck, value])) }
      else do {
        (cur, c1) \<leftarrow> getNode c node;
        if Value_Len cur = 2 then do {
          k \<leftarrow> CompactDecode (Value_Str (Value_Get cur 0));
          let v = Value_Get cur 1;
          if CompareIntSlice k key then do {
            ck \<leftarrow> CompactEncode key;
            Some (Cache_Put sha c1 (VList [VStr ck, value])) }
          else do {
            let ml = MatchingNibbleLength key k;
            (newHash, c2) \<leftarrow>
              (if ml = length k then InsertState sha c1 v (drop ml key) value
               else do {
                 (oldNode, c2) \<leftarrow> InsertState sha c1 (VStr []) (drop (ml + 1) k) v;
                 (if length key < ml + 1 then None
                  else do {
                    (newNode, c3) \<leftarrow> InsertState sha c2 (VStr []) (drop (ml + 1) key) value;
                    s1 \<leftarrow> set_go (EmptyStringSlice 17) (k ! ml) oldNode;
                    s2 \<leftarrow> set_go s1 (key ! ml) newNode;
                    Some (Cache_Put sha c3 (VList s2)) }) });
            if ml = 0 then Some (newHash, c2)
            else do {
              ck \<leftarrow> CompactEncode (take ml key);
              Some (Cache_Put sha c2 (VList [VStr ck, newHash])) } } }
        else do {
          (child, c2) \<leftarrow> InsertState sha c1 (Value_Get cur (int (hd key))) (tl key) value;
          newNode \<leftarrow> set_go (copy_branch cur) (hd key) child;
          Some (Cache_Put sha c2 (VList newNode)) } })"

text \<open>\<open>sp\<close> is what the key's slice has between its length and its capacity: \<open>key[:len(k)]\<close> may
  reach into it, and panics beyond it.\<close>

definition only_child :: "gval list \<Rightarrow> int" where
  "only_child n =
     foldl (\<lambda>amount i. if n ! i \<noteq> VStr [] then (if amount = - 1 then int i else - 2) else amount)
       (- 1) [0..<17]"

partial_function (option) deleteState ::
  "(bytes \<Rightarrow> bytes) \<Rightarrow> Cache \<Rightarrow> gval \<Rightarrow> nat list \<Rightarrow> nat list \<Rightarrow> (gval \<times> Cache) option" where
  "deleteState sha c node key sp =
     (if key = [] then Some (VStr [], c)
      else if node = VNil \<or> Value_Len node = 0 then Some (VStr [], c)
      else do {
        (cur, c1) \<leftarrow> getNode c node;
        if Value_Len cur = 2 then do {
          k \<leftarrow> CompactDecode (Value_Str (Value_Get cur 0));
          let v = Value_Get cur 1;
          if CompareIntSlice k key then Some (VStr [], c1)
          else if length k > length (key @ sp) then None
          else if CompareIntSlice (take (length k) (key @ sp)) k then do {
            (if length k > length key then None
             else do {
               (hash, c2) \<leftarrow> deleteState sha c1 v (drop (length k) key) sp;
               (child, c3) \<leftarrow> getNode c2 hash;
               newNode \<leftarrow>
                 (if Value_Len child = 2 then do {
                    k' \<leftarrow> CompactDecode (Value_Str (Value_Get child 0));
                    ck \<leftarrow> CompactEncode (k @ k');
                    Some [VStr ck, Value_Get child 1] }
                  else Some [VStr (Value_Str (Value_Get cur 0)), hash]);
               Some (Cache_Put sha c3 (VList newNode)) }) }
          else Some (node, c1) }
        else do {
          let n = copy_branch cur;
          old \<leftarrow> (if hd key < 17 then Some (n ! hd key) else None);
          (child, c2) \<leftarrow> deleteState sha c1 old (tl key) sp;
          n \<leftarrow> set_go n (hd key) child;
          let amount = only_child n;
          (newNode, c3) \<leftarrow>
            (if amount = 16 then do {
               ck \<leftarrow> CompactEncode [16];
               Some ([VStr ck, n ! 16], c2) }
             else if amount \<ge> 0 then do {
               (ch, c3) \<leftarrow> getNode c2 (n ! nat amount);
               if Value_Len ch = 17 then do {
                 ck \<leftarrow> CompactEncode [nat amount];
                 Some ([VStr ck, n ! nat amount], c3) }
               else if Value_Len ch = 2 then do {
                 k' \<leftarrow> CompactDecode (Value_Str (Value_Get ch 0));
                 ck \<leftarrow> CompactEncode (nat amount # k');
                 Some ([VStr ck, VStr (Value_Str (Value_Get ch 1))], c3) }
               else Some ([], c3) }
             else Some (n, c2));
          Some (Cache_Put sha c3 (VList newNode)) } })"

declare getState.simps [code] InsertState.simps [code] deleteState.simps [code]

section \<open>The trie\<close>

record Trie =
  prevRoot :: gval
  Root :: gval
  cache :: Cache

definition Trie_New :: "database \<Rightarrow> gval \<Rightarrow> Trie" where
  "Trie_New d root = \<lparr>prevRoot = root, Root = root, cache = NewCache d\<rparr>"

text \<open>The end of \<open>Update\<close> and \<open>Delete\<close>: the new root node becomes a hash unless it is a string or a
  byte string already.\<close>

definition set_root :: "(bytes \<Rightarrow> bytes) \<Rightarrow> Trie \<Rightarrow> gval \<times> Cache \<Rightarrow> Trie" where
  "set_root sha t r =
     (case r of (root, c) \<Rightarrow>
        (case root of
           VStr _ \<Rightarrow> t\<lparr>Root := root, cache := c\<rparr>
         | VBytes _ \<Rightarrow> t\<lparr>Root := root, cache := c\<rparr>
         | _ \<Rightarrow> (case PutValue sha c root True of (h, c1) \<Rightarrow> t\<lparr>Root := h, cache := c1\<rparr>)))"

definition Trie_Update :: "(bytes \<Rightarrow> bytes) \<Rightarrow> Trie \<Rightarrow> bytes \<Rightarrow> bytes \<Rightarrow> Trie option" where
  "Trie_Update sha t key value =
     (let k = CompactHexDecode key
      in map_option (set_root sha t) (InsertState sha (cache t) (Root t) k (VStr value)))"

definition Trie_Get :: "Trie \<Rightarrow> bytes \<Rightarrow> (bytes \<times> Trie) option" where
  "Trie_Get t key =
     (let k = CompactHexDecode key
      in do { (v, c) \<leftarrow> getState (cache t) (Root t) k; Some (Value_Str v, t\<lparr>cache := c\<rparr>) })"

definition Trie_Delete :: "(bytes \<Rightarrow> bytes) \<Rightarrow> nat list \<Rightarrow> Trie \<Rightarrow> bytes \<Rightarrow> Trie option" where
  "Trie_Delete sha sp t key =
     (let k = CompactHexDecode key
      in map_option (set_root sha t) (deleteState sha (cache t) (Root t) k sp))"

definition Trie_Cmp :: "Trie \<Rightarrow> Trie \<Rightarrow> bool" where
  "Trie_Cmp t u = Value_Cmp (Root t) (Root u)"

text \<open>A copy has the nodes of the original, dirty ones included, but a cache that is not marked
  dirty.\<close>

definition Trie_Copy :: "Trie \<Rightarrow> Trie" where
  "Trie_Copy t =
     (let u = Trie_New (db (cache t)) (Root t)
      in u\<lparr>cache := (cache u)\<lparr>nodes := nodes (cache t)\<rparr>\<rparr>)"

definition Trie_Sync :: "Trie \<Rightarrow> Trie" where
  "Trie_Sync t = t\<lparr>cache := Cache_Commit (cache t), prevRoot := Root t\<rparr>"

definition Trie_Undo :: "Trie \<Rightarrow> Trie" where
  "Trie_Undo t = t\<lparr>cache := Cache_Undo (cache t), Root := prevRoot t\<rparr>"

end
