(* ===== verification/Trie_Abstract.thy ===== *)
theory Trie_Abstract
  imports Trie_Encoding
begin

text \<open>
  The specification of the trie: abstract tries, their lookup and insertion, and the lookup-after-
  insertion law. Theory \<^verbatim>\<open>Trie_Correct\<close> shows that the trie of \<^verbatim>\<open>monktrie/trie.go\<close>, with its hashed
  nodes, its cache and its database, implements this one.
\<close>

section \<open>Abstract tries\<close>

text \<open>A missing entry and an empty one are the same: lookup gives the empty string.\<close>

datatype atrie = ANil | AVal bytes | AShort "nat list" atrie | ABranch "atrie list"

fun alookup :: "atrie \<Rightarrow> nat list \<Rightarrow> bytes" where
  "alookup ANil k = []"
| "alookup (AVal v) k = (if k = [] then v else [])"
| "alookup (AShort p t) k = (if take (length p) k = p then alookup t (drop (length p) k) else [])"
| "alookup (ABranch ts) [] = []"
| "alookup (ABranch ts) (x # k) = (if x < length ts then alookup (ts ! x) k else [])"

text \<open>A complete key: nibbles and the terminator.\<close>

definition full_key :: "nat list \<Rightarrow> bool" where
  "full_key k = (\<exists>hs. k = hs @ [16] \<and> list_all (\<lambda>n. n < 16) hs)"

text \<open>\<open>aok t e\<close>: below \<open>t\<close> the terminator has been passed if \<open>e\<close> holds, and it has not otherwise.
  The one-byte value 0 is left out; re-encoding does not keep it.\<close>

primrec aok :: "atrie \<Rightarrow> bool \<Rightarrow> bool" where
  "aok ANil = (\<lambda>e. True)"
| "aok (AVal v) = (\<lambda>e. e \<and> v \<noteq> [0])"
| "aok (AShort p t) = (\<lambda>e. \<not> e \<and> valid_key p \<and> aok t (last p = 16))"
| "aok (ABranch ts) =
     (\<lambda>e. \<not> e \<and> length ts = 17 \<and> list_all (\<lambda>i. (map aok ts ! i) (i = 16)) [0..<17])"

definition rest_key :: "bool \<Rightarrow> nat list \<Rightarrow> bool" where
  "rest_key e k = (if e then k = [] else full_key k)"

definition ashort :: "nat list \<Rightarrow> atrie \<Rightarrow> atrie" where
  "ashort k t = (if k = [] then t else AShort k t)"

function ainsert :: "atrie \<Rightarrow> nat list \<Rightarrow> bytes \<Rightarrow> atrie" where
  "ainsert t [] v = AVal v"
| "ainsert ANil (x # key) v = AShort (x # key) (AVal v)"
| "ainsert (AVal w) (x # key) v = AShort (x # key) (AVal v)"
| "ainsert (AShort k t) (x # key) v =
     (if k = x # key then AShort k (AVal v)
      else
        let ml = MatchingNibbleLength (x # key) k;
            new = (if ml = length k then ainsert t (drop ml (x # key)) v
                   else ABranch ((replicate 17 ANil)
                     [k ! ml := ashort (drop (ml + 1) k) t,
                      (x # key) ! ml := ashort (drop (ml + 1) (x # key)) (AVal v)]))
        in ashort (take ml (x # key)) new)"
| "ainsert (ABranch ts) (x # key) v =
     (if x < length ts then ABranch (ts[x := ainsert (ts ! x) key v]) else ABranch ts)"
  by pat_completeness auto
termination ainsert
proof (relation "measure (\<lambda>(t, k, v). size t)", goal_cases)
  case (3 ts x key v)
  then have "ts ! x \<in> set ts" by simp
  then show ?case using size_list_estimation' [of "ts ! x" ts "size (ts ! x)" size] by simp
qed auto

section \<open>Keys\<close>

lemma full_key_not_Nil [simp]: "\<not> full_key []"
  by (simp add: full_key_def)

lemma full_key_Cons: "full_key (x # k) \<longleftrightarrow> (x = 16 \<and> k = []) \<or> (x < 16 \<and> full_key k)"
proof (cases "k = []")
  case True
  then show ?thesis by (auto simp: full_key_def)
next
  case False
  have "x # k = hs @ [16] \<longleftrightarrow> (\<exists>hs'. hs = x # hs' \<and> k = hs' @ [16])" for hs
    using False by (cases hs) auto
  then show ?thesis using False by (auto simp: full_key_def)
qed

lemma rest_key_Cons: "full_key (x # k) \<Longrightarrow> x \<le> 16 \<and> rest_key (x = 16) k"
  by (auto simp: full_key_Cons rest_key_def)

lemma full_key_valid: "full_key k \<Longrightarrow> valid_key k"
  by (auto simp: full_key_def valid_key_def)

lemma full_key_last: "full_key (x # k) \<Longrightarrow> last (x # k) = 16"
  unfolding full_key_def by (metis last_snoc)

lemma full_key_CompactHexDecode: "full_key (CompactHexDecode s)"
  unfolding full_key_def CompactHexDecode_nibbles using nibbles_less by (auto simp: list_all_iff)

lemma valid_key_Cons: "valid_key (x # k) \<longleftrightarrow> x \<le> 16 \<and> (k \<noteq> [] \<longrightarrow> x < 16 \<and> valid_key k)"
  by (cases k rule: rev_cases) (auto simp: valid_key_def)

text \<open>A complete key that starts with a path of the trie.\<close>

lemma full_key_append:
  "valid_key p \<Longrightarrow> full_key (p @ k) \<longleftrightarrow> rest_key (last p = 16) k"
proof (induction p)
  case (Cons x p)
  show ?case
  proof (cases "p = []")
    case True
    with Cons.prems show ?thesis by (auto simp: valid_key_Cons full_key_Cons rest_key_def)
  next
    case False
    with Cons show ?thesis by (auto simp: valid_key_Cons full_key_Cons)
  qed
qed (simp add: valid_key_def)

lemma nibbles_valid_key: "list_all (\<lambda>n. n < 16) q \<Longrightarrow> q \<noteq> [] \<Longrightarrow> valid_key q \<and> last q \<noteq> 16"
  by (cases q rule: rev_cases) (auto simp: valid_key_def)

lemma full_key_drop_prefix: "list_all (\<lambda>n. n < 16) q \<Longrightarrow> full_key (q @ k) \<Longrightarrow> full_key k"
  by (induction q) (auto simp: full_key_Cons)

lemma valid_key_suffix: "valid_key (p @ k) \<Longrightarrow> k \<noteq> [] \<Longrightarrow> valid_key k"
  by (auto simp: valid_key_def butlast_append split: if_splits)

lemma valid_key_prefix: "valid_key (p @ k) \<Longrightarrow> k \<noteq> [] \<Longrightarrow> list_all (\<lambda>n. n < 16) p"
  by (auto simp: valid_key_def butlast_append)

section \<open>Lookup after insertion\<close>

lemma alookup_ashort [simp]: "alookup (ashort p t) k = (if take (length p) k = p then alookup t (drop (length p) k) else [])"
  by (simp add: ashort_def)

lemma aok_ABranch:
  "aok (ABranch ts) e \<longleftrightarrow> \<not> e \<and> length ts = 17 \<and> (\<forall>i < 17. aok (ts ! i) (i = 16))"
  by (auto simp: list_all_iff)

declare aok.simps(4) [simp del]

lemma aok_ashort: "k = [] \<and> aok t False \<or> valid_key k \<and> aok t (last k = 16) \<Longrightarrow> aok (ashort k t) False"
  by (auto simp: ashort_def valid_key_def)

lemma take_length_eq_iff: "take (length p) k = p \<longleftrightarrow> (\<exists>r. k = p @ r)"
  by (metis append_eq_conv_conj append_take_drop_id)

text \<open>How a complete key and a path of the trie compare.\<close>

lemma matching_cases:
  assumes "full_key K" and "valid_key p" and "p \<noteq> K"
  obtains (path) r where "MatchingNibbleLength K p = length p" "K = p @ r" "last p \<noteq> 16" "full_key r"
    | (fork) q a p' b K' where "MatchingNibbleLength K p = length q" "length q < length p"
        "K = q @ b # K'" "p = q @ a # p'" "a \<noteq> b" "list_all (\<lambda>n. n < 16) q" "a \<le> 16" "b \<le> 16"
        "full_key (b # K')"
proof -
  let ?ml = "MatchingNibbleLength K p"
  note m = matching_nibbles [of K p]
  have eq: "take ?ml K = take ?ml p" by (rule m(1))
  consider "?ml = length p" | "?ml < length p" "?ml = length K" | "?ml < length p" "?ml < length K"
    using m(2,3) by linarith
  then show thesis
  proof cases
    case 1
    then have K: "K = p @ drop ?ml K" using eq by (metis append_take_drop_id take_all_iff order_refl)
    then have "rest_key (last p = 16) (drop ?ml K)" using assms full_key_append by metis
    moreover have "drop ?ml K \<noteq> []" using K assms(3) by auto
    ultimately have "last p \<noteq> 16" "full_key (drop ?ml K)" by (auto simp: rest_key_def split: if_splits)
    then show thesis using path 1 K by blast
  next
    case 2
    then have p: "p = K @ drop ?ml p" "drop ?ml p \<noteq> []"
      using eq by (metis append_take_drop_id take_all_iff order_refl, simp)
    then have "list_all (\<lambda>n. n < 16) K" using assms(2) valid_key_prefix by metis
    then have False using assms(1) by (auto simp: full_key_def)
    then show thesis ..
  next
    case 3
    let ?q = "take ?ml K"
    have K: "K = ?q @ K ! ?ml # drop (Suc ?ml) K" using 3 by (simp add: id_take_nth_drop [symmetric])
    have p: "p = ?q @ p ! ?ml # drop (Suc ?ml) p" using 3 eq by (simp add: id_take_nth_drop [symmetric])
    have q: "list_all (\<lambda>n. n < 16) ?q" using p assms(2) valid_key_prefix by (metis list.distinct(1))
    have "valid_key (K ! ?ml # drop (Suc ?ml) K)" "valid_key (p ! ?ml # drop (Suc ?ml) p)"
      using K p assms(2) full_key_valid [OF assms(1)] valid_key_suffix by (metis list.distinct(1))+
    then have "K ! ?ml \<le> 16" "p ! ?ml \<le> 16" by (simp_all add: valid_key_Cons)
    moreover have "full_key (K ! ?ml # drop (Suc ?ml) K)"
      using assms(1) K q by (metis full_key_drop_prefix)
    ultimately show thesis using fork [of ?q] 3 K p q m(4) by simp
  qed
qed

text \<open>Inserting at a complete key changes the lookup of that key and of no other complete key.\<close>

lemma alookup_fork:
  assumes "a \<noteq> b" "a \<le> 16" "b \<le> 16" "list_all (\<lambda>n. n < 16) q" "full_key k"
  shows "alookup (ashort q (ABranch ((replicate 17 ANil)[a := ashort p' t, b := ashort K' (AVal v)]))) k =
    (if k = q @ b # K' then v else alookup (AShort (q @ a # p') t) k)"
proof (cases "\<exists>c k'. k = q @ c # k'")
  case True
  then obtain c k' where k: "k = q @ c # k'" by blast
  have "c \<le> 16" using assms(5) full_key_drop_prefix [of q "c # k'"] assms(4) k rest_key_Cons by blast
  have "full_key (c # k')" using assms(4,5) full_key_drop_prefix k by blast
  then show ?thesis using assms(1-3) \<open>c \<le> 16\<close> unfolding k
    by (auto simp: nth_list_update take_length_eq_iff)
next
  case False
  have "\<not> (\<exists>r. k = q @ r)"
  proof
    assume "\<exists>r. k = q @ r"
    then obtain r where "k = q @ r" by blast
    with False have "k = q" by (cases r) auto
    then show False using assms(4,5) by (auto simp: full_key_def)
  qed
  then show ?thesis unfolding alookup_ashort alookup.simps take_length_eq_iff by auto
qed

lemma ainsert_path:
  assumes "MatchingNibbleLength K p = length p" "p \<noteq> K" "K = p @ r" "valid_key p"
  shows "ainsert (AShort p t) K v = AShort p (ainsert t r v)"
proof -
  have "K \<noteq> []" using assms(3,4) by (simp add: valid_key_def)
  then obtain x key where K: "K = x # key" by (cases K) auto
  have "ainsert (AShort p t) K v = ashort (take (length p) K) (ainsert t (drop (length p) K) v)"
    using assms(1,2) unfolding K by (simp add: Let_def)
  then show ?thesis using assms(4) unfolding assms(3) by (simp add: ashort_def valid_key_def)
qed

lemma ainsert_fork:
  assumes "MatchingNibbleLength K p = length q" "K = q @ b # K'" "p = q @ a # p'" "a \<noteq> b"
  shows "ainsert (AShort p t) K v =
    ashort q (ABranch ((replicate 17 ANil)[a := ashort p' t, b := ashort K' (AVal v)]))"
proof -
  have "K \<noteq> []" using assms(2) by simp
  then obtain x key where K: "K = x # key" by (cases K) auto
  have "p \<noteq> K" "length q \<noteq> length p" using assms(2-4) by auto
  then have "ainsert (AShort p t) K v = ashort (take (length q) K) (ABranch ((replicate 17 ANil)
      [p ! length q := ashort (drop (length q + 1) p) t,
       K ! length q := ashort (drop (length q + 1) K) (AVal v)]))"
    using assms(1) unfolding K by (simp add: Let_def)
  then show ?thesis unfolding assms(2,3) by simp
qed

lemma alookup_ainsert:
  "aok t e \<Longrightarrow> rest_key e key \<Longrightarrow> rest_key e k \<Longrightarrow>
     alookup (ainsert t key v) k = (if k = key then v else alookup t k)"
proof (induction t key v arbitrary: e k rule: ainsert.induct)
  case (1 t v)
  then show ?case by (cases e) (auto simp: rest_key_def)
next
  case (4 p t x key v)
  let ?K = "x # key"
  have f: "full_key ?K" "full_key k" "valid_key p" and t: "aok t (last p = 16)"
    using "4.prems" by (auto simp: rest_key_def)
  show ?case
  proof (cases "p = ?K")
    case True
    have "k = p @ r \<Longrightarrow> r = []" for r
      using f True full_key_append [OF f(3), of r] full_key_append [OF f(3), of "[]"]
      by (auto simp: rest_key_def split: if_splits)
    then have "alookup (AShort p u) k = (if k = p then alookup u [] else [])" for u
      unfolding alookup.simps take_length_eq_iff by auto
    with True show ?thesis by (simp del: alookup.simps(3))
  next
    case False
    from f(1,3) False show ?thesis
    proof (cases rule: matching_cases)
      case (path r)
      have IH: "alookup (ainsert t r v) k' = (if k' = r then v else alookup t k')" if "full_key k'" for k'
        using "4.IH" [OF False refl, of False k'] path t that by (simp add: rest_key_def)
      have "full_key r'" if "k = p @ r'" for r'
        using full_key_append [OF f(3), of r'] f(2) path(3) that by (simp add: rest_key_def)
      then show ?thesis using IH unfolding ainsert_path [OF path(1) False path(2) f(3)]
        unfolding path(2) by (auto simp: take_length_eq_iff split: if_splits)
    next
      case (fork q a p' b K')
      show ?thesis
        unfolding ainsert_fork [OF fork(1,3,4,5)] alookup_fork [OF fork(5,7,8,6) f(2)]
        using fork(3,4) by simp
    qed
  qed
next
  case (5 ts x key v)
  then have f: "full_key (x # key)" "full_key k" "length ts = 17" "\<not> e"
    by (auto simp: rest_key_def aok_ABranch)
  then obtain y k' where k: "k = y # k'" by (cases k) auto
  have x: "x \<le> 16" "rest_key (x = 16) key" and y: "y \<le> 16" "rest_key (y = 16) k'"
    using f k rest_key_Cons by blast+
  have "aok (ts ! x) (x = 16)" using "5.prems"(1) x(1) by (auto simp: aok_ABranch)
  then show ?case using "5.IH" [OF _ _ x(2), of k'] f x y k
    by (auto simp: nth_list_update)
qed (auto simp: rest_key_def take_length_eq_iff)

lemma aok_ainsert:
  "aok t e \<Longrightarrow> rest_key e key \<Longrightarrow> v \<noteq> [0] \<Longrightarrow> aok (ainsert t key v) e"
proof (induction t key v arbitrary: e rule: ainsert.induct)
  case (1 t v)
  then show ?case by (cases e) (auto simp: rest_key_def)
next
  case (4 p t x key v)
  let ?K = "x # key"
  have f: "full_key ?K" "valid_key p" and t: "aok t (last p = 16)" "\<not> e"
    using "4.prems" by (auto simp: rest_key_def)
  show ?case
  proof (cases "p = ?K")
    case True
    have "last ?K = 16" using f(1) by (rule full_key_last)
    with True show ?thesis using f t "4.prems" by simp
  next
    case False
    from f False show ?thesis
    proof (cases rule: matching_cases)
      case (path r)
      then show ?thesis using "4.IH" [OF False refl, of False] t "4.prems" f(2)
        unfolding ainsert_path [OF path(1) False path(2) f(2)] by (auto simp: rest_key_def)
    next
      case (fork q a p' b K')
      have K': "rest_key (b = 16) K'" using fork(9) rest_key_Cons by blast
      have p': "valid_key (a # p')" using f(2) fork(4) valid_key_suffix by (metis list.distinct(1))
      have 1: "aok (ashort p' t) (a = 16)"
        using p' t(1) fork(4) by (auto simp: ashort_def valid_key_Cons split: if_splits)
      have 2: "aok (ashort K' (AVal v)) (b = 16)"
        using K' "4.prems"(3) full_key_valid [of K']
        by (auto simp: ashort_def rest_key_def full_key_def split: if_splits)
      have "aok (ABranch ((replicate 17 ANil)[a := ashort p' t, b := ashort K' (AVal v)])) False"
        unfolding aok_ABranch using 1 2 fork(5,7,8) by (auto simp: nth_list_update)
      moreover have "q \<noteq> [] \<Longrightarrow> valid_key q \<and> last q \<noteq> 16"
        using fork(6) by (rule nibbles_valid_key)
      ultimately show ?thesis
        unfolding ainsert_fork [OF fork(1,3,4,5)] using t(2) by (auto simp: ashort_def [of q])
    qed
  qed
next
  case (5 ts x key v)
  then have f: "full_key (x # key)" "length ts = 17" "\<not> e" by (auto simp: rest_key_def aok_ABranch)
  have x: "x \<le> 16" "rest_key (x = 16) key" using f rest_key_Cons by blast+
  then show ?case using "5.IH" [of "x = 16"] "5.prems" f by (auto simp: aok_ABranch nth_list_update)
qed (auto simp: rest_key_def dest: full_key_valid full_key_last split: if_splits)

end
