(* ===== verification/Trie_Correct.thy ===== *)
theory Trie_Correct
  imports Trie Trie_Abstract
begin

text \<open>
  The trie of \<^verbatim>\<open>monktrie/trie.go\<close> implements the abstract trie: lookups and insertions, through the
  cache and the database, across \<open>Sync\<close>, reopening and \<open>Undo\<close>. What is assumed of the hash is that
  the byte strings stored do not collide.
\<close>

section \<open>The values a trie stores\<close>

text \<open>Strings and lists. The one-byte string 0 is left out: its encoding is the byte 0, which is
  decoded to the byte value 0 and encoded again as the empty string.\<close>

primrec tv :: "gval \<Rightarrow> bool" where
  "tv VNil = False"
| "tv (VByte b) = (b \<noteq> 0 \<and> b \<le> 0x7f)"
| "tv (VBytes s) = (s \<noteq> [0])"
| "tv (VStr s) = (s \<noteq> [0])"
| "tv (VInt i) = False"
| "tv (VUint n) = False"
| "tv (VBig i) = False"
| "tv (VList l) = list_all tv l"

abbreviation enc :: "gval \<Rightarrow> bytes" where
  "enc v \<equiv> Value_Encode v"

definition strlike :: "gval \<Rightarrow> bytes \<Rightarrow> bool" where
  "strlike n s = (tv n \<and> \<not> Value_IsList n \<and> Value_Str n = s)"

lemma enc_simps [simp]:
  "enc (VStr s) = encode_bytes s" "enc (VBytes s) = encode_bytes s"
  "enc (VByte b) = encode_bytes (big_bytes (uint b))"
  by (simp_all add: Value_Encode_def Encode_def COMPRESS_def)

lemma enc_VList: "enc (VList l) = (let b = concat (map enc l) in WriteSliceHeader (length b) @ b)"
  by (simp add: Value_Encode_def Encode_def COMPRESS_def cong: map_cong)

lemma big_bytes_byte: "b \<noteq> 0 \<Longrightarrow> big_bytes (uint (b :: byte)) = [b]"
  using be_bytes_be_val [of "[b]"] by (simp add: big_bytes_def be_val_def)

lemma strlike_cases:
  assumes "strlike n s"
  obtains "n = VStr s" "s \<noteq> [0]" | "n = VBytes s" "s \<noteq> [0]" | b where "n = VByte b" "s = [b]" "b \<noteq> 0" "b \<le> 0x7f"
  using assms by (cases n) (auto simp: strlike_def value_simps string_of_byte_def)

lemma strlike_VStr [simp]: "strlike (VStr s) s \<longleftrightarrow> s \<noteq> [0]"
  by (simp add: strlike_def value_simps)

lemma strlike_accessors:
  assumes "strlike n s"
  shows "Value_Len n = length s" "Value_Bytes n = s" "Value_Str n = s" "Value_Get n i = VNil"
    "n \<noteq> VNil" "tv n" "s \<noteq> [0]" "canon n = canon_bytes s" "enc n = encode_bytes s" "n \<noteq> VList l"
  using assms by (auto elim!: strlike_cases simp: value_simps string_of_byte_def canon_bytes_def big_bytes_byte)

lemma canon_bytes_inject [simp]: "canon_bytes s = canon_bytes t \<longleftrightarrow> s = t"
proof -
  have "length s = 1 \<Longrightarrow> length t = 1 \<Longrightarrow> s ! 0 = t ! 0 \<Longrightarrow> s = t"
    by (cases s; cases t) auto
  then show ?thesis by (auto simp: canon_bytes_def split: if_splits)
qed

lemma canon_bytes_not_list [simp]: "canon_bytes s \<noteq> VList l" "VList l \<noteq> canon_bytes s"
  by (simp_all add: canon_bytes_def)

lemma tv_cases:
  assumes "tv v"
  obtains (str) s where "strlike v s" | (list) l where "v = VList l" "list_all tv l"
  using assms by (cases v) (auto simp: strlike_def value_simps)

lemma strlike_canon: "strlike n s \<Longrightarrow> tv m \<Longrightarrow> canon m = canon n \<Longrightarrow> strlike m s"
  by (erule tv_cases [of m]) (auto simp: strlike_accessors)

lemma list_canon: "tv m \<Longrightarrow> canon m = canon (VList l) \<Longrightarrow> \<exists>l'. m = VList l' \<and> list_all tv l' \<and> map canon l' = map canon l"
  by (erule tv_cases [of m]) (auto simp: strlike_accessors)

lemma strlike_canon_bytes: "s \<noteq> [0] \<Longrightarrow> strlike (canon_bytes s) s"
proof (cases "length s = 1")
  case True
  moreover assume "s \<noteq> [0]"
  ultimately obtain b where "s = [b]" "b \<noteq> 0" by (cases s) auto
  then show ?thesis by (auto simp: canon_bytes_def strlike_def value_simps string_of_byte_def)
qed (simp add: canon_bytes_def strlike_def value_simps)

lemmas canon_bytes_laws = strlike_accessors(6,8,9) [OF strlike_canon_bytes]

lemma tv_canon:
  assumes "tv v"
  shows "tv (canon v)" "canon (canon v) = canon v" "enc (canon v) = enc v"
proof -
  have "tv v \<Longrightarrow> tv (canon v) \<and> canon (canon v) = canon v \<and> enc (canon v) = enc v"
  proof (induction v)
    case (VList l)
    then have "map enc (map canon l) = map enc l" "map canon (map canon l) = map canon l"
      by (auto simp: list_all_iff)
    with VList show ?case by (auto simp: list_all_iff enc_VList simp del: map_map)
  qed (auto simp: canon_bytes_laws big_bytes_byte)
  with assms show "tv (canon v)" "canon (canon v) = canon v" "enc (canon v) = enc v" by auto
qed

section \<open>The store behind a trie\<close>

definition db_get :: "Cache \<Rightarrow> bytes \<Rightarrow> bytes" where
  "db_get c key = (case db c key of Some d \<Rightarrow> d | None \<Rightarrow> [])"

lemma db_get_update [simp]:
  "db_get (c\<lparr>nodes := ns\<rparr>) = db_get c" "db_get (c\<lparr>IsDirty := b\<rparr>) = db_get c"
  by (simp_all add: db_get_def fun_eq_iff)

definition fetch :: "Cache \<Rightarrow> bytes \<Rightarrow> gval option" where
  "fetch c h = (case map_of (nodes c) h of Some (v, _) \<Rightarrow> Some v | None \<Rightarrow> NewValueFromBytes (db_get c h))"

lemma fetch_Cons [simp]:
  "fetch (c\<lparr>nodes := (k, v, d) # nodes c\<rparr>) h = (if h = k then Some v else fetch c h)"
  "fetch (c\<lparr>nodes := (k, v, d) # nodes c, IsDirty := b\<rparr>) h = (if h = k then Some v else fetch c h)"
  by (auto simp: fetch_def split: option.split)

definition dirty :: "Cache \<Rightarrow> bytes \<Rightarrow> bool" where
  "dirty c h = (\<exists>v. map_of (nodes c) h = Some (v, True))"

text \<open>All byte strings of the store, and that the hash has no collision among them. No byte string
  has a length that does not fit in 64 bits.\<close>

definition encodings :: "Cache \<Rightarrow> bytes set" where
  "encodings c = (\<lambda>(k, v, d). enc v) ` set (nodes c) \<union> ran (db c)"

definition sound :: "(bytes \<Rightarrow> bytes) \<Rightarrow> Cache \<Rightarrow> bool" where
  "sound sha c = (inj_on sha (encodings c) \<and> (\<forall>e \<in> encodings c. length e < 2 ^ 64))"

text \<open>\<open>hashed sha c h l\<close>: under the hash \<open>h\<close> the store has the node with the children \<open>l\<close>, in the
  cache and yet to be written, or in the database.\<close>

definition hashed :: "(bytes \<Rightarrow> bytes) \<Rightarrow> Cache \<Rightarrow> bytes \<Rightarrow> gval list \<Rightarrow> bool" where
  "hashed sha c h l =
     (fetch c h = Some (VList l) \<and> list_all tv l \<and> h = sha (enc (VList l)) \<and>
      (dirty c h \<or> db c h = Some (enc (VList l))))"

definition content :: "(bytes \<Rightarrow> bytes) \<Rightarrow> Cache \<Rightarrow> gval \<Rightarrow> gval list \<Rightarrow> bool" where
  "content sha c n l = (n = VList l \<or> (\<exists>h. strlike n h \<and> 32 \<le> length h \<and> hashed sha c h l))"

text \<open>\<open>repr sha c n t\<close>: in the store \<open>c\<close> the node \<open>n\<close> stands for the abstract trie \<open>t\<close>.\<close>

inductive repr :: "(bytes \<Rightarrow> bytes) \<Rightarrow> Cache \<Rightarrow> gval \<Rightarrow> atrie \<Rightarrow> bool" for sha c where
  nil: "strlike n [] \<Longrightarrow> repr sha c n ANil"
| val: "strlike n v \<Longrightarrow> repr sha c n (AVal v)"
| short: "content sha c n [kn, vn] \<Longrightarrow> strlike kn ck \<Longrightarrow> CompactDecode ck = Some p \<Longrightarrow>
    repr sha c vn t \<Longrightarrow> repr sha c n (AShort p t)"
| branch: "content sha c n ns \<Longrightarrow> length ns = 17 \<Longrightarrow> list_all2 (repr sha c) ns ts \<Longrightarrow>
    repr sha c n (ABranch ts)"

inductive_cases repr_ANilE: "repr sha c n ANil"
inductive_cases repr_AValE: "repr sha c n (AVal v)"
inductive_cases repr_AShortE: "repr sha c n (AShort p t)"
inductive_cases repr_ABranchE: "repr sha c n (ABranch ts)"

text \<open>A node of the trie is a value the trie stores.\<close>

lemma repr_tv: "repr sha c n t \<Longrightarrow> tv n"
proof (induction rule: repr.induct)
  case (branch n ns ts)
  then have "list_all tv ns" by (auto simp: list_all_length list_all2_conv_all_nth)
  with branch show ?case by (auto simp: content_def strlike_def)
qed (auto simp: content_def strlike_def)

lemma content_tv: "content sha c n l \<Longrightarrow> tv n \<Longrightarrow> list_all tv l"
  by (auto simp: content_def hashed_def)

lemma content_not_empty: "content sha c n l \<Longrightarrow> l \<noteq> [] \<Longrightarrow> n \<noteq> VNil \<and> Value_Len n \<noteq> 0"
  unfolding content_def
proof (elim disjE exE conjE)
  fix h assume "strlike n h" "32 \<le> length h"
  then show "n \<noteq> VNil \<and> Value_Len n \<noteq> 0"
    using strlike_accessors(1,5) [of n h] by auto
qed (simp add: Value_Len_def)

text \<open>What a node stands for survives every change of the store that keeps the nodes under their
  hashes, up to what encoding and decoding does to them, and the exchange of a node for one with
  the same encoding.\<close>

definition keeps :: "(bytes \<Rightarrow> bytes) \<Rightarrow> Cache \<Rightarrow> Cache \<Rightarrow> bool" where
  "keeps sha c c' = (\<forall>h l. hashed sha c h l \<longrightarrow> (\<exists>l'. hashed sha c' h l' \<and> map canon l' = map canon l))"

lemma content_keeps:
  assumes "keeps sha c c'" and "content sha c n l" and "tv n" and "tv m" and "canon m = canon n"
  obtains l' where "content sha c' m l'" "map canon l' = map canon l" "list_all tv l'"
  using assms(2) unfolding content_def
proof (elim disjE exE conjE)
  assume "n = VList l"
  then show ?thesis using list_canon [of m l] assms(4,5) that by (auto simp: content_def)
next
  fix h assume h: "strlike n h" "32 \<le> length h" "hashed sha c h l"
  then obtain l' where l': "hashed sha c' h l'" "map canon l' = map canon l"
    using assms(1) by (auto simp: keeps_def)
  have "strlike m h" using h(1) assms(4,5) by (rule strlike_canon)
  then show ?thesis using h(2) l' that by (auto simp: content_def hashed_def)
qed

lemma repr_keeps:
  assumes "keeps sha c c'"
  shows "repr sha c n t \<Longrightarrow> tv m \<Longrightarrow> canon m = canon n \<Longrightarrow> repr sha c' m t"
proof (induction arbitrary: m rule: repr.induct)
  case (nil n)
  then show ?case using strlike_canon repr.nil by blast
next
  case (val n v)
  then show ?case using strlike_canon repr.val by blast
next
  case (short n kn vn ck p t)
  have "tv n" using repr.short [OF short.hyps] by (rule repr_tv)
  with content_keeps [OF assms short.hyps(1)] short.prems obtain l' where
    l': "content sha c' m l'" "map canon l' = map canon [kn, vn]" "list_all tv l'" by blast
  then obtain kn' vn' where "l' = [kn', vn']" "canon kn' = canon kn" "canon vn' = canon vn"
    by (auto simp: map_eq_Cons_conv)
  with l' short show ?case using repr.short [of sha c' m kn' vn' ck p t] strlike_canon by auto
next
  case (branch n ns ts)
  have rs: "list_all2 (repr sha c) ns ts" using branch.IH by (rule list_all2_mono) simp
  have "tv n" using repr.branch [OF branch.hyps(1,2) rs] by (rule repr_tv)
  with content_keeps [OF assms branch.hyps(1)] branch.prems obtain l' where
    l': "content sha c' m l'" "map canon l' = map canon ns" "list_all tv l'" by blast
  have len: "length l' = length ns" using l'(2) by (metis length_map)
  have "canon (l' ! i) = canon (ns ! i)" if "i < length ns" for i
    using l'(2) len that by (metis nth_map)
  then have "list_all2 (repr sha c') l' ts"
    using branch.IH l'(3) len by (auto simp: list_all2_conv_all_nth list_all_length)
  with l'(1) len branch.hyps(2) show ?case using repr.branch by auto
qed

lemmas repr_keeps' = repr_keeps [OF _ _ repr_tv refl]

section \<open>How the operations extend the store\<close>

inductive ext :: "(bytes \<Rightarrow> bytes) \<Rightarrow> Cache \<Rightarrow> Cache \<Rightarrow> bool" for sha c where
  ext_refl: "ext sha c c"
| ext_put: "ext sha c c1 \<Longrightarrow> tv v \<Longrightarrow>
    ext sha c (c1\<lparr>nodes := (sha (enc v), v, True) # nodes c1, IsDirty := True\<rparr>)"
| ext_read: "ext sha c c1 \<Longrightarrow> map_of (nodes c1) k = None \<Longrightarrow> NewValueFromBytes (db_get c1 k) = Some v \<Longrightarrow>
    ext sha c (c1\<lparr>nodes := (k, v, False) # nodes c1\<rparr>)"

lemma ext_trans:
  assumes "ext sha c c1" and "ext sha c1 c2"
  shows "ext sha c c2"
  using assms(2,1) by (induction rule: ext.induct) (auto intro: ext.intros)

lemma ext_db: "ext sha c c' \<Longrightarrow> db c' = db c"
  by (induction rule: ext.induct) simp_all

lemma ext_encodings: "ext sha c c' \<Longrightarrow> encodings c \<subseteq> encodings c'"
  by (induction rule: ext.induct) (auto simp: encodings_def)

lemma sound_ext: "sound sha c' \<Longrightarrow> ext sha c c' \<Longrightarrow> sound sha c"
  using ext_encodings unfolding sound_def by (metis inj_on_subset subsetD)

lemma hashed_encodings: "hashed sha c h l \<Longrightarrow> enc (VList l) \<in> encodings c"
  unfolding hashed_def dirty_def fetch_def encodings_def
  by (force simp: ran_def dest!: map_of_SomeD split: option.splits)

text \<open>Writing a node keeps the others: a node written under the hash of another one has its
  encoding, since there are no collisions.\<close>

lemma hashed_put:
  assumes "hashed sha c h l" and "tv v" and c': "c' = c\<lparr>nodes := (sha (enc v), v, True) # nodes c, IsDirty := True\<rparr>"
    and "sound sha c'"
  shows "\<exists>l'. hashed sha c' h l' \<and> map canon l' = map canon l"
proof (cases "h = sha (enc v)")
  case True
  have e: "enc (VList l) \<in> encodings c'" "enc v \<in> encodings c'"
    using hashed_encodings [OF assms(1)] c' by (auto simp: encodings_def)
  have "sha (enc v) = sha (enc (VList l))" using True assms(1) by (simp add: hashed_def)
  then have eq: "enc v = enc (VList l)"
    using e assms(4) by (auto simp: sound_def dest: inj_onD)
  moreover have "length (enc v) < 2 ^ 64" using e(2) assms(4) by (simp add: sound_def)
  ultimately have "canon v = canon (VList l)" by (rule Value_Encode_inject)
  then obtain l' where "v = VList l'" "list_all tv l'" "map canon l' = map canon l"
    using list_canon [OF assms(2)] by blast
  then show ?thesis using True by (auto simp: hashed_def c' dirty_def)
next
  case False
  with assms(1) show ?thesis
    by (auto simp: hashed_def c' dirty_def)
qed

lemma hashed_read:
  assumes "map_of (nodes c) k = None" "NewValueFromBytes (db_get c k) = Some v"
  shows "hashed sha (c\<lparr>nodes := (k, v, False) # nodes c\<rparr>) h l = hashed sha c h l"
  using assms by (auto simp: hashed_def fetch_def [of c] dirty_def)

lemma keeps_refl: "keeps sha c c"
  by (auto simp: keeps_def)

lemma keeps_trans: "keeps sha c c1 \<Longrightarrow> keeps sha c1 c2 \<Longrightarrow> keeps sha c c2"
  unfolding keeps_def by metis

lemma keeps_ext: "ext sha c c' \<Longrightarrow> sound sha c' \<Longrightarrow> keeps sha c c'"
proof (induction rule: ext.induct)
  case (ext_put c1 v)
  let ?c = "c1\<lparr>nodes := (sha (enc v), v, True) # nodes c1, IsDirty := True\<rparr>"
  have e: "ext sha c1 ?c" using ext_put.hyps(2) by (intro ext.ext_put ext.ext_refl)
  have "keeps sha c1 ?c" unfolding keeps_def using hashed_put [OF _ ext_put.hyps(2) refl ext_put.prems] by blast
  with ext_put.IH sound_ext [OF ext_put.prems e] show ?case by (blast intro: keeps_trans)
next
  case (ext_read c1 k v)
  let ?c = "c1\<lparr>nodes := (k, v, False) # nodes c1\<rparr>"
  have e: "ext sha c1 ?c" using ext_read.hyps(2,3) by (intro ext.ext_read ext.ext_refl)
  have "keeps sha c1 ?c" using hashed_read [OF ext_read.hyps(2,3)] by (auto simp: keeps_def)
  with ext_read.IH sound_ext [OF ext_read.prems e] show ?case by (blast intro: keeps_trans)
qed (rule keeps_refl)

text \<open>Reading only: then no hash matters.\<close>

definition reads :: "(bytes \<Rightarrow> bytes) \<Rightarrow> Cache \<Rightarrow> Cache \<Rightarrow> bool" where
  "reads sha c c' = (ext sha c c' \<and> keeps sha c c')"

lemma reads_refl [simp]: "reads sha c c"
  by (simp add: reads_def ext_refl keeps_refl)

lemma reads_trans: "reads sha c c1 \<Longrightarrow> reads sha c1 c2 \<Longrightarrow> reads sha c c2"
  by (auto simp: reads_def intro: ext_trans keeps_trans)

lemma repr_reads: "reads sha c c' \<Longrightarrow> repr sha c n t \<Longrightarrow> repr sha c' n t"
  unfolding reads_def using repr_keeps' by blast

lemma getNode_content:
  assumes "content sha c n l" and "list_all tv l" and "l \<noteq> []"
  obtains c1 where "getNode c n = Some (VList l, c1)" "reads sha c c1"
  using assms(1) unfolding content_def
proof (elim disjE exE conjE)
  assume "n = VList l"
  moreover have "Value_Get n 0 \<noteq> VNil"
    using assms(2,3) calculation by (cases l) (auto simp: Value_Get_def)
  ultimately show ?thesis using that by (simp add: getNode_def)
next
  fix h assume h: "strlike n h" "32 \<le> length h" "hashed sha c h l"
  have n: "getNode c n = Cache_Get c h"
    using h(2) by (auto simp: getNode_def strlike_accessors [OF h(1)] Let_def)
  show ?thesis
  proof (cases "map_of (nodes c) h")
    case None
    then have d: "NewValueFromBytes (db_get c h) = Some (VList l)"
      using h(3) by (metis (no_types, lifting) fetch_def hashed_def option.simps(4))
    let ?c = "c\<lparr>nodes := (h, VList l, False) # nodes c\<rparr>"
    have "reads sha c ?c"
      using ext_read [OF ext_refl None d] hashed_read [OF None d] by (auto simp: reads_def keeps_def)
    moreover have "getNode c n = Some (VList l, ?c)"
      using None d by (simp add: n Cache_Get_def db_get_def Let_def)
    ultimately show ?thesis using that by blast
  next
    case (Some a)
    then have "getNode c n = Some (VList l, c)"
      using h(3) by (auto simp: n Cache_Get_def hashed_def fetch_def split: prod.splits)
    then show ?thesis using that by simp
  qed
qed

section \<open>Lookup\<close>

lemma getState_repr:
  "repr sha c n t \<Longrightarrow> aok t e \<Longrightarrow> rest_key e k \<Longrightarrow>
     \<exists>v c1. getState c n k = Some (v, c1) \<and> reads sha c c1 \<and> Value_Str v = alookup t k"
proof (induction t arbitrary: c n e k)
  case ANil
  then have "strlike n []" by (auto elim: repr_ANilE)
  then show ?case by (subst getState.simps) (simp add: strlike_accessors)
next
  case (AVal v)
  then have "strlike n v" "k = []" by (auto elim: repr_AValE simp: rest_key_def)
  then show ?case by (subst getState.simps) (simp add: strlike_accessors)
next
  case (AShort p t)
  then have k: "k \<noteq> []" and t: "aok t (last p = 16)" "valid_key p" and kk: "full_key k"
    by (auto simp: rest_key_def)
  from AShort.prems(1) obtain kn vn ck where n: "content sha c n [kn, vn]" "strlike kn ck"
    "CompactDecode ck = Some p" "repr sha c vn t" by (auto elim: repr_AShortE)
  have ne: "n \<noteq> VNil" "Value_Len n \<noteq> 0"
    using content_not_empty [OF n(1)] by simp_all
  obtain c1 where c1: "getNode c n = Some (VList [kn, vn], c1)" "reads sha c c1"
    using n(1) content_tv [OF n(1) repr_tv [OF AShort.prems(1)]] by (rule getNode_content) simp
  have acc: "Value_Len (VList [kn, vn]) = 2" "Value_Get (VList [kn, vn]) 0 = kn" "Value_Get (VList [kn, vn]) 1 = vn"
    by (simp_all add: value_simps)
  show ?case
  proof (cases "take (length p) k = p")
    case True
    then have "k = p @ drop (length p) k" by (metis append_take_drop_id)
    then have r: "rest_key (last p = 16) (drop (length p) k)"
      using kk full_key_append [OF t(2)] by metis
    obtain v c2 where IH: "getState c1 vn (drop (length p) k) = Some (v, c2)" "reads sha c1 c2"
      "Value_Str v = alookup t (drop (length p) k)"
      using AShort.IH [OF repr_reads [OF c1(2) n(4)] t(1) r] by blast
    have "length p \<le> length k" using True by (metis length_take min.cobounded1)
    then have "getState c n k = Some (v, c2)"
      using True IH(1) n(2,3) ne k acc c1(1)
      by (subst getState.simps) (simp add: Value_IsNil_def strlike_accessors)
    then show ?thesis using IH c1(2) True by (auto intro: reads_trans)
  next
    case False
    then have "getState c n k = Some (VStr [], c1)"
      using n(2,3) ne k acc c1(1) by (subst getState.simps) (auto simp: Value_IsNil_def strlike_accessors)
    then show ?thesis using c1(2) False by (auto simp: value_simps)
  qed
next
  case (ABranch ts)
  then obtain x k' where k: "k = x # k'" "x \<le> 16" "rest_key (x = 16) k'" and len: "length ts = 17"
    and tx: "aok (ts ! x) (x = 16)"
    by (cases k) (auto simp: aok_ABranch rest_key_def dest: rest_key_Cons)
  from ABranch.prems(1) obtain ns where n: "content sha c n ns" "length ns = 17" "list_all2 (repr sha c) ns ts"
    by (auto elim: repr_ABranchE)
  have ne: "n \<noteq> VNil" "Value_Len n \<noteq> 0"
    using content_not_empty [OF n(1)] n(2) by (metis list.size(3) zero_neq_numeral)+
  obtain c1 where c1: "getNode c n = Some (VList ns, c1)" "reads sha c c1"
    using n(1) content_tv [OF n(1) repr_tv [OF ABranch.prems(1)]] by (rule getNode_content) (use n(2) in auto)
  have nx: "repr sha c1 (ns ! x) (ts ! x)"
    using n len k(2) by (intro repr_reads [OF c1(2)]) (auto simp: list_all2_conv_all_nth)
  obtain v c2 where IH: "getState c1 (ns ! x) k' = Some (v, c2)" "reads sha c1 c2" "Value_Str v = alookup (ts ! x) k'"
    using ABranch.IH [OF _ nx tx k(3)] len k(2) by fastforce
  have "Value_Get (VList ns) (int x) = ns ! x" "Value_Len (VList ns) = 17"
    using k(2) n(2) by (simp_all add: value_simps)
  then have "getState c n k = Some (v, c2)"
    using IH(1) ne k c1(1) by (subst getState.simps) (simp add: Value_IsNil_def)
  then show ?case using IH c1(2) k len by (auto intro: reads_trans)
qed

section \<open>Insertion\<close>

text \<open>\<open>later sha c n t\<close>: the node \<open>n\<close> stands for \<open>t\<close> in every collision-free extension of the store.\<close>

definition later :: "(bytes \<Rightarrow> bytes) \<Rightarrow> Cache \<Rightarrow> gval \<Rightarrow> atrie \<Rightarrow> bool" where
  "later sha c n t = (tv n \<and> (\<forall>c'. ext sha c c' \<longrightarrow> sound sha c' \<longrightarrow> repr sha c' n t))"

lemma later_ext: "later sha c n t \<Longrightarrow> ext sha c c' \<Longrightarrow> later sha c' n t"
  unfolding later_def using ext_trans by blast

lemma later_repr: "repr sha c n t \<Longrightarrow> later sha c n t"
  unfolding later_def using keeps_ext repr_keeps' repr_tv by blast

lemma later_ANil: "later sha c (VStr []) ANil"
  by (intro later_repr repr.nil) simp

lemmas repr_canon = repr_keeps [OF keeps_refl]

lemma PutValue_content:
  assumes "list_all tv l" and "\<And>x. 32 \<le> length (sha x)" and put: "PutValue sha c (VList l) f = (n, c1)"
  shows "ext sha c c1" and "tv n"
    and "\<And>c'. ext sha c1 c' \<Longrightarrow> sound sha c' \<Longrightarrow>
      \<exists>l'. content sha c' n l' \<and> map canon l' = map canon l \<and> list_all tv l'"
proof -
  let ?h = "sha (enc (VList l))" and ?c = "c\<lparr>nodes := (sha (enc (VList l)), VList l, True) # nodes c, IsDirty := True\<rparr>"
  consider "n = VList l" "c1 = c" | "n = VBytes ?h" "c1 = ?c"
    using put by (auto simp: PutValue_def Let_def split: if_splits)
  then have "ext sha c c1 \<and> tv n \<and> (\<forall>c'. ext sha c1 c' \<longrightarrow> sound sha c' \<longrightarrow>
      (\<exists>l'. content sha c' n l' \<and> map canon l' = map canon l \<and> list_all tv l'))"
  proof cases
    case 1
    then show ?thesis using assms(1) by (auto simp: content_def intro: ext_refl)
  next
    case 2
    have n: "tv n" "strlike n ?h" using 2 assms(2) [of "enc (VList l)"] by (auto simp: strlike_def value_simps)
    have h: "hashed sha c1 ?h l" using 2 assms(1) by (auto simp: hashed_def dirty_def)
    have "\<exists>l'. content sha c' n l' \<and> map canon l' = map canon l \<and> list_all tv l'"
      if e: "ext sha c1 c'" "sound sha c'" for c'
    proof -
      obtain l' where l': "hashed sha c' ?h l'" "map canon l' = map canon l"
        using keeps_ext [OF e] h unfolding keeps_def by blast
      then have "content sha c' n l'" using n(2) assms(2) unfolding content_def by blast
      then show ?thesis using l' unfolding hashed_def by blast
    qed
    moreover have "ext sha c c1" using 2 ext_put [OF ext_refl, of "VList l"] assms(1) by simp
    ultimately show ?thesis using n(1) by blast
  qed
  then show "ext sha c c1" "tv n" "\<And>c'. ext sha c1 c' \<Longrightarrow> sound sha c' \<Longrightarrow>
      \<exists>l'. content sha c' n l' \<and> map canon l' = map canon l \<and> list_all tv l'" by blast+
qed

lemma put_short:
  assumes sha: "\<And>x. 32 \<le> length (sha x)" and p: "valid_key p" and ck: "CompactEncode p = Some ck"
    and w: "later sha c w t" and put: "PutValue sha c (VList [VStr ck, w]) f = (n, c1)"
  shows "ext sha c c1 \<and> later sha c1 n (AShort p t)"
proof -
  have ck': "strlike (VStr ck) ck" "CompactDecode ck = Some p"
    using CompactEncode_not_zero [OF p] ck CompactDecode_CompactEncode [OF p] by auto
  then have l: "list_all tv [VStr ck, w]" using w by (simp add: later_def)
  note P = PutValue_content [OF l sha put]
  have "repr sha c' n (AShort p t)" if e: "ext sha c1 c'" "sound sha c'" for c'
  proof -
    obtain l' where l': "content sha c' n l'" "map canon l' = map canon [VStr ck, w]" "list_all tv l'"
      using P(3) [OF e] by blast
    then obtain kn vn where kv: "l' = [kn, vn]" "canon kn = canon (VStr ck)" "canon vn = canon w"
      by (auto simp: map_eq_Cons_conv)
    have "repr sha c' w t" using w e ext_trans [OF P(1)] by (auto simp: later_def)
    then have "repr sha c' vn t" using l'(3) kv repr_canon by auto
    moreover have "strlike kn ck" using strlike_canon [OF ck'(1)] l'(3) kv by auto
    ultimately show ?thesis using repr.short l'(1) kv(1) ck'(2) by blast
  qed
  then show ?thesis using P(1,2) by (auto simp: later_def)
qed

lemma put_branch:
  assumes sha: "\<And>x. 32 \<le> length (sha x)" and len: "length ns = 17"
    and ns: "list_all2 (later sha c) ns ts" and put: "PutValue sha c (VList ns) f = (n, c1)"
  shows "ext sha c c1 \<and> later sha c1 n (ABranch ts)"
proof -
  have l: "list_all tv ns" using ns by (auto simp: later_def list_all_length list_all2_conv_all_nth)
  note P = PutValue_content [OF l sha put]
  have "repr sha c' n (ABranch ts)" if e: "ext sha c1 c'" "sound sha c'" for c'
  proof -
    obtain l' where l': "content sha c' n l'" "map canon l' = map canon ns" "list_all tv l'"
      using P(3) [OF e] by blast
    have len': "length l' = length ns" using l'(2) by (metis length_map)
    have "canon (l' ! i) = canon (ns ! i)" if "i < length ns" for i
      using l'(2) len' that by (metis nth_map)
    moreover have "repr sha c' (ns ! i) (ts ! i)" if "i < length ns" for i
      using ns e ext_trans [OF P(1)] that by (auto simp: later_def list_all2_conv_all_nth)
    ultimately have "repr sha c' (l' ! i) (ts ! i)" if "i < length ns" for i
      using l'(3) len' that repr_canon unfolding list_all_length by metis
    then have "list_all2 (repr sha c') l' ts"
      using len' ns by (auto simp: list_all2_conv_all_nth)
    then show ?thesis using repr.branch l'(1) len len' by simp
  qed
  then show ?thesis using P(1,2) by (auto simp: later_def)
qed

text \<open>Insertion into an empty node.\<close>

lemma insert_new:
  assumes sha: "\<And>x. 32 \<le> length (sha x)" and k: "k = [] \<or> valid_key k" and w: "later sha c w t"
    and n: "strlike n []"
  obtains n1 c1 where "InsertState sha c n k w = Some (n1, c1)" "ext sha c c1" "later sha c1 n1 (ashort k t)"
proof (cases "k = []")
  case True
  then have "InsertState sha c n k w = Some (w, c)" by (subst InsertState.simps) simp
  then show ?thesis using that w True by (simp add: ashort_def ext_refl)
next
  case False
  then obtain ck where ck: "CompactEncode k = Some ck" using k CompactDecode_CompactEncode by auto
  obtain n1 c1 where put: "PutValue sha c (VList [VStr ck, w]) False = (n1, c1)" by fastforce
  have "InsertState sha c n k w = Some (n1, c1)"
    using False ck put n by (subst InsertState.simps) (simp add: Cache_Put_def strlike_accessors)
  then show ?thesis using put_short [OF sha _ ck w put] False k that by (auto simp: ashort_def)
qed


lemma copy_branch_eq: "length ns = 17 \<Longrightarrow> list_all tv ns \<Longrightarrow> copy_branch (VList ns) = ns"
  by (rule nth_equalityI) (auto simp: copy_branch_def Value_Get_nth Let_def list_all_length)

text \<open>What insertion does at a path and at a branch.\<close>

lemma InsertState_short:
  assumes "n \<noteq> VNil" "Value_Len n \<noteq> 0" "getNode c n = Some (VList [kn, vn], c1)" "strlike kn ck"
    "CompactDecode ck = Some p" "key \<noteq> []"
  shows "InsertState sha c n key w =
    (if p = key then do { ck \<leftarrow> CompactEncode key; Some (Cache_Put sha c1 (VList [VStr ck, w])) }
     else do {
       let ml = MatchingNibbleLength key p;
       (newHash, c2) \<leftarrow>
         (if ml = length p then InsertState sha c1 vn (drop ml key) w
          else do {
            (oldNode, c2) \<leftarrow> InsertState sha c1 (VStr []) (drop (ml + 1) p) vn;
            (if length key < ml + 1 then None
             else do {
               (newNode, c3) \<leftarrow> InsertState sha c2 (VStr []) (drop (ml + 1) key) w;
               s1 \<leftarrow> set_go (EmptyStringSlice 17) (p ! ml) oldNode;
               s2 \<leftarrow> set_go s1 (key ! ml) newNode;
               Some (Cache_Put sha c3 (VList s2)) }) });
       if ml = 0 then Some (newHash, c2)
       else do {
         ck \<leftarrow> CompactEncode (take ml key);
         Some (Cache_Put sha c2 (VList [VStr ck, newHash])) } })"
proof -
  have acc: "Value_Len (VList [kn, vn]) = 2" "Value_Get (VList [kn, vn]) 0 = kn"
    "Value_Get (VList [kn, vn]) 1 = vn" "Value_Str kn = ck"
    using assms(4) by (simp_all add: Value_Len_def Value_Get_def strlike_def)
  show ?thesis
    by (subst InsertState.simps)
      (simp only: assms acc if_False if_True bind.bind_lunit prod.case CompareIntSlice_iff simp_thms Let_def)
qed

lemma InsertState_branch:
  assumes "n \<noteq> VNil" "Value_Len n \<noteq> 0" "getNode c n = Some (VList ns, c1)" "length ns = 17" "list_all tv ns" "x \<le> 16"
  shows "InsertState sha c n (x # key) w = do {
    (child, c2) \<leftarrow> InsertState sha c1 (ns ! x) key w;
    Some (Cache_Put sha c2 (VList (ns[x := child]))) }"
  using assms by (subst InsertState.simps)
    (simp add: Value_Len_def [of "VList ns"] Value_Get_nth copy_branch_eq set_go_def)

lemma put_path:
  assumes sha: "\<And>x. 32 \<le> length (sha x)" and q: "list_all (\<lambda>n. n < 16) q"
    and n: "later sha c n t"
  obtains n1 c1 where "(if q = [] then Some (n, c) else do { ck \<leftarrow> CompactEncode q; Some (Cache_Put sha c (VList [VStr ck, n])) }) = Some (n1, c1)"
    "ext sha c c1" "later sha c1 n1 (ashort q t)"
proof (cases "q = []")
  case True
  then show ?thesis using that n by (simp add: ashort_def ext_refl)
next
  case False
  then have p: "valid_key q" using q nibbles_valid_key by blast
  then obtain ck where ck: "CompactEncode q = Some ck" using CompactDecode_CompactEncode by blast
  obtain n1 c1 where put: "PutValue sha c (VList [VStr ck, n]) False = (n1, c1)" by fastforce
  then show ?thesis using put_short [OF sha p ck n put] that False ck by (auto simp: ashort_def Cache_Put_def)
qed

lemma put_fork:
  assumes sha: "\<And>x. 32 \<le> length (sha x)" and ab: "a \<noteq> b" "a \<le> 16" "b \<le> 16"
    and old: "later sha c old t" and new: "later sha c new u"
  obtains n1 c1 where "do { s1 \<leftarrow> set_go (EmptyStringSlice 17) a old; s2 \<leftarrow> set_go s1 b new; Some (Cache_Put sha c (VList s2)) } = Some (n1, c1)"
    "ext sha c c1" "later sha c1 n1 (ABranch ((replicate 17 ANil)[a := t, b := u]))"
proof -
  let ?s = "(EmptyStringSlice 17)[a := old, b := new]"
  have len: "length ?s = 17" by (simp add: EmptyStringSlice_def)
  have "list_all2 (later sha c) ?s ((replicate 17 ANil)[a := t, b := u])"
    using ab old new later_ANil by (auto simp: list_all2_conv_all_nth EmptyStringSlice_def nth_list_update)
  moreover obtain n1 c1 where put: "PutValue sha c (VList ?s) False = (n1, c1)" by fastforce
  ultimately show ?thesis using put_branch [OF sha len _ put] that ab
    by (simp add: set_go_def EmptyStringSlice_def Cache_Put_def)
qed

lemma InsertState_repr:
  assumes sha: "\<And>x. 32 \<le> length (sha x)"
  shows "strlike w v \<Longrightarrow> repr sha c n t \<Longrightarrow> aok t e \<Longrightarrow> rest_key e key \<Longrightarrow>
     \<exists>n1 c1. InsertState sha c n key w = Some (n1, c1) \<and> ext sha c c1 \<and> later sha c1 n1 (ainsert t key v)"
proof (induction t key v arbitrary: c n e rule: ainsert.induct)
  case (1 t v)
  have "InsertState sha c n [] w = Some (w, c)" by (subst InsertState.simps) simp
  with 1 show ?case by (auto intro: ext_refl later_repr repr.val)
next
  case (2 x key v)
  then have k: "valid_key (x # key)" by (auto simp: rest_key_def full_key_valid split: if_splits)
  have n: "strlike n []" using "2.prems"(2) by (auto elim: repr_ANilE)
  have wl: "later sha c w (AVal v)" using "2.prems"(1) by (intro later_repr repr.val)
  obtain n1 c1 where "InsertState sha c n (x # key) w = Some (n1, c1)" "ext sha c c1"
    "later sha c1 n1 (ashort (x # key) (AVal v))"
    using insert_new [OF sha disjI2 [OF k] wl n] .
  then show ?case by (simp add: ashort_def)
next
  case (3 u x key v)
  then show ?case by (simp add: rest_key_def)
next
  case (4 p t x key v)
  let ?K = "x # key"
  have f: "full_key ?K" "valid_key p" and t: "aok t (last p = 16)"
    using "4.prems" by (auto simp: rest_key_def)
  from "4.prems"(2) obtain kn vn ck where n: "content sha c n [kn, vn]" "strlike kn ck"
    "CompactDecode ck = Some p" "repr sha c vn t" by (auto elim: repr_AShortE)
  obtain c1 where c1: "getNode c n = Some (VList [kn, vn], c1)" "reads sha c c1"
    using n(1) content_tv [OF n(1) repr_tv [OF "4.prems"(2)]] by (rule getNode_content) simp
  have ne: "n \<noteq> VNil" "Value_Len n \<noteq> 0" using content_not_empty [OF n(1)] by simp_all
  note ins = InsertState_short [OF ne c1(1) n(2,3), of ?K sha w]
  have vn: "repr sha c1 vn t" using repr_reads [OF c1(2) n(4)] .
  have e1: "ext sha c c1" using c1(2) by (simp add: reads_def)
  have wl: "later sha c1 w (AVal v)" using "4.prems"(1) by (intro later_repr repr.val)
  show ?case
  proof (cases "p = ?K")
    case True
    obtain ck' where ck': "CompactEncode ?K = Some ck'"
      using full_key_valid [OF f(1)] CompactDecode_CompactEncode by blast
    obtain n1 c2 where put: "PutValue sha c1 (VList [VStr ck', w]) False = (n1, c2)" by fastforce
    have "InsertState sha c n ?K w = Some (n1, c2)" using ins ne True ck' put by (simp add: Cache_Put_def)
    moreover have "ext sha c1 c2 \<and> later sha c2 n1 (AShort ?K (AVal v))"
      using put_short [OF sha full_key_valid [OF f(1)] ck' wl put] .
    ultimately show ?thesis using e1 True by (auto intro: ext_trans)
  next
    case False
    from f False show ?thesis
    proof (cases rule: matching_cases)
      case (path r)
      have "\<exists>n1 c2. InsertState sha c1 vn r w = Some (n1, c2) \<and> ext sha c1 c2 \<and> later sha c2 n1 (ainsert t r v)"
        using "4.IH" [OF False refl _ "4.prems"(1) vn t] path by (simp add: rest_key_def)
      then obtain n1 c2 where IH: "InsertState sha c1 vn r w = Some (n1, c2)" "ext sha c1 c2" "later sha c2 n1 (ainsert t r v)"
        by blast
      obtain ck' where ck': "CompactEncode p = Some ck'" using f(2) CompactDecode_CompactEncode by blast
      obtain n2 c3 where put: "PutValue sha c2 (VList [VStr ck', n1]) False = (n2, c3)" by fastforce
      have "p \<noteq> []" using f(2) by (simp add: valid_key_def)
      then have "InsertState sha c n ?K w = Some (n2, c3)"
        using ins ne False path(1) IH(1) ck' put unfolding path(2) by (simp add: Cache_Put_def)
      then show ?thesis
        using put_short [OF sha f(2) ck' IH(3) put] e1 IH(2) ainsert_path [OF path(1) False path(2) f(2)]
        by (auto intro: ext_trans)
    next
      case (fork q a p' b K')
      have p': "p' = [] \<or> valid_key p'"
        using f(2) fork(4) valid_key_suffix [of "q @ [a]" p'] by auto
      have K': "K' = [] \<or> valid_key K'"
        using fork(9) full_key_valid by (auto simp: full_key_Cons)
      have nil: "strlike (VStr []) []" by simp
      obtain old c2 where old: "InsertState sha c1 (VStr []) p' vn = Some (old, c2)" "ext sha c1 c2"
        "later sha c2 old (ashort p' t)" using insert_new [OF sha p' later_repr [OF vn] nil] .
      obtain new c3 where new: "InsertState sha c2 (VStr []) K' w = Some (new, c3)" "ext sha c2 c3"
        "later sha c3 new (ashort K' (AVal v))" using insert_new [OF sha K' later_ext [OF wl old(2)] nil] .
      obtain br c4 where br: "do { s1 \<leftarrow> set_go (EmptyStringSlice 17) a old; s2 \<leftarrow> set_go s1 b new;
          Some (Cache_Put sha c3 (VList s2)) } = Some (br, c4)" "ext sha c3 c4"
        "later sha c4 br (ABranch ((replicate 17 ANil)[a := ashort p' t, b := ashort K' (AVal v)]))"
        using put_fork [OF sha fork(5,7,8) later_ext [OF old(3) new(2)] new(3)] .
      obtain n1 c5 where n1: "(if q = [] then Some (br, c4) else do { ck \<leftarrow> CompactEncode q;
          Some (Cache_Put sha c4 (VList [VStr ck, br])) }) = Some (n1, c5)" "ext sha c4 c5"
        "later sha c5 n1 (ainsert (AShort p t) ?K v)"
        using put_path [OF sha fork(6) br(3)] unfolding ainsert_fork [OF fork(1,3,4,5)] .
      have "InsertState sha c n ?K w = Some (n1, c5)"
        using ins ne fork(1,2,5) old(1) new(1) br(1) n1(1) unfolding fork(3,4)
        by (simp split: if_splits)
      then show ?thesis using e1 old(2) new(2) br(2) n1(2,3) by (meson ext_trans)
    qed
  qed
next
  case (5 ts x key v)
  then have x: "x \<le> 16" "rest_key (x = 16) key" and len: "length ts = 17" and tx: "aok (ts ! x) (x = 16)"
    by (auto simp: aok_ABranch rest_key_def dest: rest_key_Cons)
  from "5.prems"(2) obtain ns where n: "content sha c n ns" "length ns = 17" "list_all2 (repr sha c) ns ts"
    by (auto elim: repr_ABranchE)
  then have "ns \<noteq> []" by auto
  note ne = content_not_empty [OF n(1) this] and ns = content_tv [OF n(1) repr_tv [OF "5.prems"(2)]]
  obtain c1 where c1: "getNode c n = Some (VList ns, c1)" "reads sha c c1"
    using n(1) ns \<open>ns \<noteq> []\<close> by (rule getNode_content)
  have nx: "list_all2 (repr sha c1) ns ts"
    using n(3) repr_reads [OF c1(2)] by (rule list_all2_mono)
  then have "repr sha c1 (ns ! x) (ts ! x)" using n(2) x(1) by (simp add: list_all2_conv_all_nth)
  then obtain ch c2 where IH: "InsertState sha c1 (ns ! x) key w = Some (ch, c2)" "ext sha c1 c2"
    "later sha c2 ch (ainsert (ts ! x) key v)"
    using "5.IH" [OF _ "5.prems"(1) _ tx x(2)] x(1) len by fastforce
  have "list_all2 (later sha c2) (ns[x := ch]) (ts[x := ainsert (ts ! x) key v])"
    using list_all2_mono [OF nx later_ext [OF later_repr IH(2)]] IH(3) by (rule list_all2_update_cong)
  moreover obtain n1 c3 where put: "PutValue sha c2 (VList (ns[x := ch])) False = (n1, c3)" by fastforce
  ultimately have "ext sha c2 c3 \<and> later sha c3 n1 (ainsert (ABranch ts) (x # key) v)"
    using put_branch [OF sha _ _ put] n(2) len x(1) by simp
  moreover have "InsertState sha c n (x # key) w = Some (n1, c3)"
    using InsertState_branch [OF _ _ c1(1) n(2) ns x(1)] ne IH(1) put by (simp add: Cache_Put_def)
  ultimately show ?case using c1(2) IH(2) by (auto simp: reads_def intro: ext_trans)
qed

end
