(* ===== verification/Trie_Map.thy ===== *)
theory Trie_Map
  imports Trie_Correct
begin

text \<open>
  The trie as a map from keys to values: \<open>Get\<close>, \<open>Update\<close>, \<open>Sync\<close> and \<open>Undo\<close> of \<^verbatim>\<open>monktrie/trie.go\<close> on
  whole tries, for sequences of updates, and what is wrong with \<open>Delete\<close> and \<open>Copy\<close>.
\<close>

section \<open>The trie as a map\<close>

text \<open>The clean entries of the cache agree with the database, and the dirty ones are nodes under
  their hashes, which the dirty flag of the cache announces.\<close>

definition entry_ok :: "(bytes \<Rightarrow> bytes) \<Rightarrow> Cache \<Rightarrow> bytes \<Rightarrow> gval \<Rightarrow> bool \<Rightarrow> bool" where
  "entry_ok sha c k v d =
     (if d then IsDirty c \<and> tv v \<and> k = sha (enc v)
      else \<exists>w. NewValueFromBytes (db_get c k) = Some w \<and> (v = w \<or> tv v \<and> canon v = w))"

definition cache_inv :: "(bytes \<Rightarrow> bytes) \<Rightarrow> Cache \<Rightarrow> bool" where
  "cache_inv sha c = (\<forall>k v d. map_of (nodes c) k = Some (v, d) \<longrightarrow> entry_ok sha c k v d)"

text \<open>\<open>trie_models sha t m\<close>: the trie \<open>t\<close> holds the entries of \<open>m\<close>, where the empty string stands for no
  entry.\<close>

definition node_models :: "(bytes \<Rightarrow> bytes) \<Rightarrow> Cache \<Rightarrow> gval \<Rightarrow> (bytes \<Rightarrow> bytes) \<Rightarrow> bool" where
  "node_models sha c n m =
     (\<exists>t. repr sha c n t \<and> aok t False \<and> (\<forall>key. m key = alookup t (CompactHexDecode key)))"

definition trie_models :: "(bytes \<Rightarrow> bytes) \<Rightarrow> Trie \<Rightarrow> (bytes \<Rightarrow> bytes) \<Rightarrow> bool" where
  "trie_models sha t m = (node_models sha (cache t) (Root t) m \<and> cache_inv sha (cache t))"

lemma cache_inv_ext: "ext sha c c' \<Longrightarrow> cache_inv sha c \<Longrightarrow> cache_inv sha c'"
proof (induction rule: ext.induct)
  case (ext_put c1 v)
  let ?c = "c1\<lparr>nodes := (sha (enc v), v, True) # nodes c1, IsDirty := True\<rparr>"
  have "entry_ok sha c1 k w d \<Longrightarrow> entry_ok sha ?c k w d" for k w d
    by (simp add: entry_ok_def split: if_splits)
  moreover have "entry_ok sha ?c (sha (enc v)) v True" using ext_put by (simp add: entry_ok_def)
  ultimately show ?case using ext_put by (simp add: cache_inv_def)
next
  case (ext_read c1 k v)
  let ?c = "c1\<lparr>nodes := (k, v, False) # nodes c1\<rparr>"
  have "entry_ok sha c1 k w d \<Longrightarrow> entry_ok sha ?c k w d" for k w d
    by (simp add: entry_ok_def)
  moreover have "entry_ok sha ?c k v False" using ext_read by (simp add: entry_ok_def)
  ultimately show ?case using ext_read by (simp add: cache_inv_def)
qed simp

lemma node_models_keeps: "keeps sha c c' \<Longrightarrow> node_models sha c n m \<Longrightarrow> node_models sha c' n m"
  unfolding node_models_def using repr_keeps' by blast

lemma CompactHexDecode_inject [simp]: "CompactHexDecode a = CompactHexDecode b \<longleftrightarrow> a = b"
  by (simp add: CompactHexDecode_nibbles)

lemma trie_models_New: "trie_models sha (Trie_New d (VStr [])) (\<lambda>key. [])"
proof -
  have "repr sha c (VStr []) ANil" for c by (rule repr.nil) simp
  then have "node_models sha (NewCache d) (VStr []) (\<lambda>key. [])"
    unfolding node_models_def by (intro exI [of _ ANil]) simp
  then show ?thesis by (simp add: trie_models_def Trie_New_def cache_inv_def NewCache_def)
qed

lemma Trie_Get_models:
  assumes "trie_models sha t m"
  obtains t' where "Trie_Get t key = Some (m key, t')" "trie_models sha t' m" "Root t' = Root t"
    "prevRoot t' = prevRoot t" "ext sha (cache t) (cache t')"
proof -
  obtain at where at: "repr sha (cache t) (Root t) at" "aok at False" "\<And>key. m key = alookup at (CompactHexDecode key)"
    using assms unfolding trie_models_def node_models_def by blast
  have "rest_key False (CompactHexDecode key)" using full_key_CompactHexDecode by (simp add: rest_key_def)
  from getState_repr [OF at(1,2) this] obtain v c1 where
    g: "getState (cache t) (Root t) (CompactHexDecode key) = Some (v, c1)"
      "reads sha (cache t) c1" "Value_Str v = m key"
    using at(3) by auto
  have "trie_models sha (t\<lparr>cache := c1\<rparr>) m"
    using assms node_models_keeps [of sha "cache t" c1] cache_inv_ext [of sha "cache t" c1] g(2)
    by (simp add: trie_models_def reads_def)
  moreover have "Trie_Get t key = Some (m key, t\<lparr>cache := c1\<rparr>)" using g by (simp add: Trie_Get_def Let_def)
  ultimately show ?thesis using g(2) by (intro that [of "t\<lparr>cache := c1\<rparr>"]) (simp_all add: reads_def)
qed

text \<open>A node of the trie that is not a leaf.\<close>

lemma content_VList: "content sha c (VList l) l' \<longleftrightarrow> l' = l"
  by (auto simp: content_def strlike_def Value_IsList_def)

lemma repr_content:
  assumes "repr sha c (VList l) t" and "content sha c h l"
  shows "repr sha c h t"
  using assms(1)
proof (cases rule: repr.cases)
  case (short kn vn ck p t')
  then have "content sha c h [kn, vn]" using assms(2) by (simp add: content_VList)
  with short show ?thesis using repr.short by blast
next
  case (branch ns ts)
  then have "content sha c h ns" using assms(2) by (simp add: content_VList)
  with branch show ?thesis using repr.branch by blast
qed (simp_all add: strlike_def Value_IsList_def)

lemma repr_VByte: "repr sha c (VByte b) t \<Longrightarrow> t = ANil \<or> (\<exists>v. t = AVal v)"
  by (erule repr.cases) (auto simp: content_def strlike_def value_simps string_of_byte_def split: if_splits)

lemma set_root_models:
  assumes sha: "\<And>x. 32 \<le> length (sha x)" and l: "later sha c n t" and t: "\<not> (t = ANil \<or> (\<exists>v. t = AVal v))"
  shows "ext sha c (cache (set_root sha tr (n, c))) \<and>
    (sound sha (cache (set_root sha tr (n, c))) \<longrightarrow>
      repr sha (cache (set_root sha tr (n, c))) (Root (set_root sha tr (n, c))) t)"
proof (cases n)
  case (VList l)
  obtain h c1 where put: "PutValue sha c n True = (h, c1)" by fastforce
  have r: "cache (set_root sha tr (n, c)) = c1" "Root (set_root sha tr (n, c)) = h"
    using put VList by (simp_all add: set_root_def)
  have tl: "list_all tv l" using assms(2) VList by (simp add: later_def)
  note P = PutValue_content [OF tl sha put [unfolded VList]]
  have "repr sha c1 h t" if s: "sound sha c1"
  proof -
    have n: "repr sha c1 (VList l) t" using assms(2) VList P(1) s by (simp add: later_def)
    obtain l' where l': "content sha c1 h l'" "map canon l' = map canon l" "list_all tv l'"
      using P(3) [OF ext_refl s] by blast
    then have "repr sha c1 (VList l') t" by (intro repr_canon [OF n]) simp_all
    then show ?thesis using l'(1) by (rule repr_content)
  qed
  then show ?thesis using P(1) r by simp
next
  case (VByte b)
  let ?c = "c\<lparr>nodes := (sha (enc n), n, True) # nodes c, IsDirty := True\<rparr>"
  have c: "cache (set_root sha tr (n, c)) = ?c"
    using VByte by (simp add: set_root_def PutValue_def Let_def)
  have "ext sha c ?c" using l by (intro ext_put ext_refl) (simp add: later_def)
  moreover from this have "\<not> sound sha ?c" using l t repr_VByte unfolding later_def VByte by blast
  ultimately show ?thesis using c by simp
qed (use assms(2) in \<open>auto simp: set_root_def later_def ext_refl\<close>)

lemma ainsert_not_leaf: "key \<noteq> [] \<Longrightarrow> \<not> (ainsert t key v = ANil \<or> (\<exists>w. ainsert t key v = AVal w))"
proof (induction t key v rule: ainsert.induct)
  case (4 k t x key v)
  show ?case
  proof (cases "MatchingNibbleLength (x # key) k = 0")
    case True
    then show ?thesis using "4.IH" by (auto simp: Let_def ashort_def)
  next
    case False
    then show ?thesis by (auto simp: Let_def ashort_def)
  qed
qed auto

lemma Trie_Update_models:
  assumes sha: "\<And>x. 32 \<le> length (sha x)" and m: "trie_models sha t m" and v: "value \<noteq> [0]"
  obtains t' where "Trie_Update sha t key value = Some t'" "ext sha (cache t) (cache t')" "prevRoot t' = prevRoot t"
    "sound sha (cache t') \<Longrightarrow> trie_models sha t' (m(key := value))"
proof -
  let ?k = "CompactHexDecode key"
  obtain at where at: "repr sha (cache t) (Root t) at" "aok at False" "\<And>key. m key = alookup at (CompactHexDecode key)"
    using m unfolding trie_models_def node_models_def by blast
  have k: "rest_key False (CompactHexDecode x)" for x using full_key_CompactHexDecode by (simp add: rest_key_def)
  have w: "strlike (VStr value) value" using v by simp
  from InsertState_repr [OF sha w at(1,2) k] obtain n c1 where
    ins: "InsertState sha (cache t) (Root t) ?k (VStr value) = Some (n, c1)" "ext sha (cache t) c1"
      "later sha c1 n (ainsert at ?k value)" by blast
  let ?t = "set_root sha t (n, c1)"
  have nl: "\<not> (ainsert at ?k value = ANil \<or> (\<exists>w. ainsert at ?k value = AVal w))"
    by (rule ainsert_not_leaf) (simp add: CompactHexDecode_nibbles)
  note r = set_root_models [OF sha ins(3) nl, of t]
  have e: "ext sha (cache t) (cache ?t)" using ins(2) r ext_trans by blast
  have "trie_models sha ?t (m(key := value))" if "sound sha (cache ?t)"
  proof -
    have "alookup (ainsert at ?k value) (CompactHexDecode x) = (m(key := value)) x" for x
      using alookup_ainsert [OF at(2) k k] at(3) by simp
    moreover have "aok (ainsert at ?k value) False" using aok_ainsert [OF at(2) k v] .
    ultimately have "node_models sha (cache ?t) (Root ?t) (m(key := value))"
      using r that unfolding node_models_def by (intro exI [of _ "ainsert at ?k value"]) simp
    then show ?thesis using cache_inv_ext [OF e] m by (simp add: trie_models_def)
  qed
  moreover have "prevRoot ?t = prevRoot t" by (auto simp: set_root_def split: gval.split prod.split)
  moreover have "Trie_Update sha t key value = Some ?t" using ins(1) by (simp add: Trie_Update_def Let_def)
  ultimately show ?thesis using that e by blast
qed

section \<open>Synchronisation\<close>

lemma commit_nodes_lookup:
  "distinct (map fst ns) \<Longrightarrow> commit_nodes ns d k =
     (case map_of ns k of Some (v, True) \<Rightarrow> Some (enc v) | _ \<Rightarrow> d k)"
proof (induction ns d rule: commit_nodes.induct)
  case (2 key v dirty ns d)
  have "k = key \<Longrightarrow> map_of ns k = None" using "2.prems" by (simp add: map_of_eq_None_iff)
  with 2 show ?case by (auto split: option.split)
qed simp

lemma map_of_clean: "map_of (map (\<lambda>(k, v, d). (k, v, False)) ns) k = map_option (\<lambda>(v, d). (v, False)) (map_of ns k)"
  by (induction ns) auto

lemma map_of_filter_distinct:
  "distinct (map fst ns) \<Longrightarrow> map_of (filter (\<lambda>(k, v, d). \<not> d) ns) k =
     (case map_of ns k of Some (v, False) \<Rightarrow> Some (v, False) | _ \<Rightarrow> None)"
proof (induction ns)
  case (Cons a ns)
  obtain key v d where a: "a = (key, v, d)" by (cases a) auto
  have "k = key \<Longrightarrow> map_of ns k = None" using Cons.prems a by (simp add: map_of_eq_None_iff)
  with Cons a show ?case by (auto split: option.split)
qed simp

text \<open>The database after a commit.\<close>

lemma Cache_Commit_db:
  "IsDirty c \<Longrightarrow> db (Cache_Commit c) k =
     (case map_of (nodes c) k of Some (v, True) \<Rightarrow> Some (enc v) | _ \<Rightarrow> db c k)"
  by (simp add: Cache_Commit_def Let_def commit_nodes_lookup distinct_clearjunk map_of_clearjunk)

lemma hashedD:
  assumes "hashed sha c h l"
  shows "fetch c h = Some (VList l)" "list_all tv l" "h = sha (enc (VList l))"
    "\<not> dirty c h \<Longrightarrow> db c h = Some (enc (VList l))"
  using assms unfolding hashed_def by blast+

lemma hashed_in_db:
  assumes "cache_inv sha c" and "hashed sha c h l"
  shows "db (Cache_Commit c) h = Some (enc (VList l))"
proof (cases "dirty c h")
  case True
  then obtain v where v: "map_of (nodes c) h = Some (v, True)" by (auto simp: dirty_def)
  have "entry_ok sha c h v True" using assms(1) v by (simp add: cache_inv_def)
  then have "IsDirty c" by (simp add: entry_ok_def)
  moreover have "v = VList l" using hashedD(1) [OF assms(2)] v by (simp add: fetch_def)
  ultimately show ?thesis using v by (simp add: Cache_Commit_db)
next
  case False
  then have d: "db c h = Some (enc (VList l))" using hashedD(4) [OF assms(2)] by simp
  show ?thesis
  proof (cases "IsDirty c")
    case True
    have "map_of (nodes c) h \<noteq> Some (v, True)" for v using False by (simp add: dirty_def)
    then show ?thesis using d by (simp add: Cache_Commit_db [OF True] split: option.split bool.split)
  qed (simp add: Cache_Commit_def d)
qed

lemma hashed_from_db:
  assumes "db c h = Some (enc (VList l))" and "list_all tv l" and "h = sha (enc (VList l))"
    and "length (enc (VList l)) < 2 ^ 64"
    and n: "map_of (nodes c) h = None \<or> (\<exists>v d. map_of (nodes c) h = Some (v, d) \<and> tv v \<and> canon v = canon (VList l))"
  shows "\<exists>l'. hashed sha c h l' \<and> map canon l' = map canon l"
proof -
  have tvl: "tv (VList l)" using assms(2) by simp
  have dec: "NewValueFromBytes (db_get c h) = Some (VList (map canon l))"
    using NewValueFromBytes_Encode [OF assms(4)] assms(1) by (simp add: db_get_def)
  have "tv (VList (map canon l)) \<and> map canon (map canon l) = map canon l \<and>
      enc (VList (map canon l)) = enc (VList l)"
    using tv_canon [OF tvl] by simp
  then have *: "fetch c h = Some (VList (map canon l)) \<Longrightarrow> ?thesis"
    using assms(1,3) by (intro exI [of _ "map canon l"]) (simp add: hashed_def)
  from n show ?thesis
  proof (elim disjE exE conjE)
    assume "map_of (nodes c) h = None"
    with dec show ?thesis by (intro *) (simp add: fetch_def)
  next
    fix v d assume v: "map_of (nodes c) h = Some (v, d)" "tv v" "canon v = canon (VList l)"
    then obtain l' where l': "v = VList l'" "list_all tv l'" "map canon l' = map canon l"
      using list_canon by blast
    have "enc v = enc (VList l)" using tv_canon(3) v(2,3) tvl by metis
    then show ?thesis using l' v(1) assms(1,3) by (intro exI [of _ l']) (simp add: hashed_def fetch_def)
  qed
qed

lemma hashed_small: "sound sha c \<Longrightarrow> hashed sha c h l \<Longrightarrow> length (enc (VList l)) < 2 ^ 64"
  using hashed_encodings by (auto simp: sound_def)

text \<open>A commit keeps every node, in the cache and, for whoever opens the trie again, in the
  database.\<close>

lemma keeps_reopen:
  assumes "cache_inv sha c" and "sound sha c"
  shows "keeps sha c (NewCache (db (Cache_Commit c)))"
  unfolding keeps_def
proof (intro allI impI)
  fix h l assume h: "hashed sha c h l"
  show "\<exists>l'. hashed sha (NewCache (db (Cache_Commit c))) h l' \<and> map canon l' = map canon l"
    using hashed_in_db [OF assms(1) h] hashed_small [OF assms(2) h] h
    by (intro hashed_from_db) (simp_all add: NewCache_def hashed_def)
qed

lemma keeps_Commit:
  assumes "cache_inv sha c" and "sound sha c"
  shows "keeps sha c (Cache_Commit c)"
  unfolding keeps_def
proof (intro allI impI)
  fix h l assume h: "hashed sha c h l"
  have "map_of (nodes (Cache_Commit c)) h = None \<or>
      (\<exists>v d. map_of (nodes (Cache_Commit c)) h = Some (v, d) \<and> tv v \<and> canon v = canon (VList l))"
  proof (cases "map_of (nodes c) h")
    case (Some vd)
    obtain v d where vd: "map_of (nodes c) h = Some (v, d)" using Some by (cases vd) auto
    moreover have "v = VList l" "list_all tv l" using h vd by (simp_all add: hashed_def fetch_def)
    ultimately show ?thesis by (auto simp: Cache_Commit_def Let_def map_of_clean map_of_clearjunk)
  qed (simp add: Cache_Commit_def Let_def map_of_clean map_of_clearjunk)
  then show "\<exists>l'. hashed sha (Cache_Commit c) h l' \<and> map canon l' = map canon l"
    using hashed_in_db [OF assms(1) h] hashed_small [OF assms(2) h] h
    by (intro hashed_from_db) (simp_all add: hashed_def)
qed

lemma cache_inv_Commit:
  assumes "cache_inv sha c" and "sound sha c"
  shows "cache_inv sha (Cache_Commit c)"
proof (cases "IsDirty c")
  case True
  have "entry_ok sha (Cache_Commit c) k v d" if kv: "map_of (nodes (Cache_Commit c)) k = Some (v, d)" for k v d
  proof -
    obtain d0 where v: "map_of (nodes c) k = Some (v, d0)" "\<not> d"
      using kv True by (auto simp: Cache_Commit_def Let_def map_of_clean map_of_clearjunk split: if_splits)
    have ok: "entry_ok sha c k v d0" using assms(1) v(1) by (simp add: cache_inv_def)
    show ?thesis
    proof (cases d0)
      case True
      have "length (enc v) < 2 ^ 64" using assms(2) map_of_SomeD [OF v(1)] by (force simp: sound_def encodings_def)
      then have "NewValueFromBytes (db_get (Cache_Commit c) k) = Some (canon v)"
        using Cache_Commit_db [OF \<open>IsDirty c\<close>, of k] v(1) True NewValueFromBytes_Encode by (simp add: db_get_def)
      then show ?thesis using ok True v(2) by (simp add: entry_ok_def)
    next
      case False
      have "db_get (Cache_Commit c) k = db_get c k"
        using Cache_Commit_db [OF \<open>IsDirty c\<close>, of k] v(1) False by (simp add: db_get_def)
      then show ?thesis using ok False v(2) by (simp add: entry_ok_def)
    qed
  qed
  then show ?thesis by (simp add: cache_inv_def)
qed (simp add: Cache_Commit_def assms(1))

lemma cache_inv_NewCache: "cache_inv sha (NewCache d)"
  by (simp add: cache_inv_def NewCache_def)

lemma keeps_Undo:
  assumes inv: "cache_inv sha c"
  shows "keeps sha (NewCache (db c)) (Cache_Undo c)"
  unfolding keeps_def
proof (intro allI impI)
  fix h l assume h: "hashed sha (NewCache (db c)) h l"
  have hl: "db c h = Some (enc (VList l))" "list_all tv l" "h = sha (enc (VList l))"
    "NewValueFromBytes (db_get c h) = Some (VList l)"
    using hashedD [OF h] by (simp_all add: dirty_def NewCache_def fetch_def db_get_def)
  have nd: "map_of (nodes (Cache_Undo c)) h = (case map_of (nodes c) h of Some (v, False) \<Rightarrow> Some (v, False) | _ \<Rightarrow> None)"
    by (simp add: Cache_Undo_def map_of_filter_distinct distinct_clearjunk map_of_clearjunk)
  have db': "db (Cache_Undo c) = db c" "db_get (Cache_Undo c) = db_get c"
    by (simp_all add: Cache_Undo_def db_get_def fun_eq_iff)
  show "\<exists>l'. hashed sha (Cache_Undo c) h l' \<and> map canon l' = map canon l"
  proof (cases "\<exists>v. map_of (nodes c) h = Some (v, False)")
    case True
    then obtain v where v: "map_of (nodes c) h = Some (v, False)" by blast
    then have "entry_ok sha c h v False" using inv by (simp add: cache_inv_def)
    then have "v = VList l \<or> tv v \<and> canon v = VList l" using hl(4) by (simp add: entry_ok_def)
    then obtain l' where l': "v = VList l'" "list_all tv l'" "map canon l' = map canon l" "enc (VList l') = enc (VList l)"
    proof (elim disjE conjE)
      assume c: "tv v" "canon v = VList l"
      then have "canon (canon v) = canon (VList l)" by simp
      then have "canon v = canon (VList l)" using tv_canon(2) [OF c(1)] by simp
      then show thesis using list_canon [OF c(1)] tv_canon(3) [OF c(1)] c(2) that by metis
    qed (use hl(2) that in blast)
    then show ?thesis using nd v hl db' by (intro exI [of _ l']) (simp add: hashed_def fetch_def)
  next
    case False
    then have "map_of (nodes (Cache_Undo c)) h = None" using nd by (auto split: option.split bool.split)
    then have "hashed sha (Cache_Undo c) h l" using hl db' by (simp add: hashed_def fetch_def)
    then show ?thesis by blast
  qed
qed

lemma cache_inv_Undo:
  assumes "cache_inv sha c"
  shows "cache_inv sha (Cache_Undo c)"
  unfolding cache_inv_def
proof (intro allI impI)
  fix k v d assume "map_of (nodes (Cache_Undo c)) k = Some (v, d)"
  then have v: "map_of (nodes c) k = Some (v, False)" "\<not> d"
    by (auto simp: Cache_Undo_def map_of_filter_distinct distinct_clearjunk map_of_clearjunk
        split: option.splits bool.splits)
  have "db_get (Cache_Undo c) = db_get c" by (simp add: Cache_Undo_def db_get_def fun_eq_iff)
  moreover have "entry_ok sha c k v False" using assms v(1) by (simp add: cache_inv_def)
  ultimately show "entry_ok sha (Cache_Undo c) k v d" using v(2) by (simp add: entry_ok_def)
qed

text \<open>\<open>saved sha t m\<close>: the database alone has the entries of \<open>m\<close> under the root to which \<open>Undo\<close>
  returns.\<close>

definition saved :: "(bytes \<Rightarrow> bytes) \<Rightarrow> Trie \<Rightarrow> (bytes \<Rightarrow> bytes) \<Rightarrow> bool" where
  "saved sha t m = node_models sha (NewCache (db (cache t))) (prevRoot t) m"

lemma Trie_Sync_models:
  assumes "trie_models sha t m" and "sound sha (cache t)"
  shows "trie_models sha (Trie_Sync t) m" and "saved sha (Trie_Sync t) m"
    and "trie_models sha (Trie_New (db (cache (Trie_Sync t))) (Root t)) m"
  using assms keeps_Commit [of sha "cache t"] keeps_reopen [of sha "cache t"] node_models_keeps
    cache_inv_Commit [of sha "cache t"] cache_inv_NewCache
  by (auto simp: trie_models_def saved_def Trie_Sync_def Trie_New_def)

lemma Trie_Undo_models:
  assumes "saved sha t m" and "cache_inv sha (cache t)"
  shows "trie_models sha (Trie_Undo t) m" and "saved sha (Trie_Undo t) m"
  using assms node_models_keeps [OF keeps_Undo] cache_inv_Undo
  by (auto simp: trie_models_def saved_def Trie_Undo_def) (simp_all add: Cache_Undo_def)

section \<open>Sequences of operations\<close>

text \<open>The updates a client makes, one after the other; a panic ends them.\<close>

fun Trie_Updates :: "(bytes \<Rightarrow> bytes) \<Rightarrow> Trie \<Rightarrow> (bytes \<times> bytes) list \<Rightarrow> Trie option" where
  "Trie_Updates sha t [] = Some t"
| "Trie_Updates sha t ((k, v) # kvs) = do { t' \<leftarrow> Trie_Update sha t k v; Trie_Updates sha t' kvs }"

text \<open>The hash has no collision in any of the stores the updates go through.\<close>

fun sound_run :: "(bytes \<Rightarrow> bytes) \<Rightarrow> Trie \<Rightarrow> (bytes \<times> bytes) list \<Rightarrow> bool" where
  "sound_run sha t [] = sound sha (cache t)"
| "sound_run sha t ((k, v) # kvs) =
     (sound sha (cache t) \<and> (case Trie_Update sha t k v of None \<Rightarrow> True | Some t' \<Rightarrow> sound_run sha t' kvs))"

lemma sound_run_sound: "sound_run sha t kvs \<Longrightarrow> sound sha (cache t)"
  by (cases "(sha, t, kvs)" rule: sound_run.cases) simp_all

lemma Trie_Updates_models:
  assumes sha: "\<And>x. 32 \<le> length (sha x)"
  shows "trie_models sha t m \<Longrightarrow> list_all (\<lambda>(k, v). v \<noteq> [0]) kvs \<Longrightarrow> sound_run sha t kvs \<Longrightarrow>
    \<exists>t'. Trie_Updates sha t kvs = Some t' \<and> ext sha (cache t) (cache t') \<and> prevRoot t' = prevRoot t \<and>
      trie_models sha t' (foldl (\<lambda>m (k, v). m(k := v)) m kvs) \<and> sound sha (cache t')"
proof (induction kvs arbitrary: t m)
  case (Cons kv kvs)
  obtain k v where kv: "kv = (k, v)" by (cases kv)
  obtain t1 where t1: "Trie_Update sha t k v = Some t1" "ext sha (cache t) (cache t1)" "prevRoot t1 = prevRoot t"
    "sound sha (cache t1) \<Longrightarrow> trie_models sha t1 (m(k := v))"
    using Trie_Update_models [OF sha Cons.prems(1)] Cons.prems(2) kv by auto
  have s: "sound_run sha t1 kvs" using Cons.prems(3) t1(1) kv by simp
  have m1: "trie_models sha t1 (m(k := v))" using t1(4) s by (simp add: sound_run_sound)
  have "list_all (\<lambda>(k, v). v \<noteq> [0]) kvs" using Cons.prems(2) by simp
  from Cons.IH [OF m1 this s] obtain t' where "Trie_Updates sha t1 kvs = Some t'"
    "ext sha (cache t1) (cache t')" "prevRoot t' = prevRoot t1"
    "trie_models sha t' (foldl (\<lambda>m (k, v). m(k := v)) (m(k := v)) kvs)" "sound sha (cache t')" by blast
  moreover from this have "ext sha (cache t) (cache t')" using t1(2) ext_trans by blast
  ultimately show ?case using t1(1,3) kv by (intro exI [of _ t']) (simp del: fun_upd_apply)
qed (simp add: ext_refl)

text \<open>What a client reads after the updates \<open>kvs\<close>: the value written last.\<close>

definition last_write :: "(bytes \<times> bytes) list \<Rightarrow> bytes \<Rightarrow> bytes" where
  "last_write kvs key = (case map_of (rev kvs) key of Some v \<Rightarrow> v | None \<Rightarrow> [])"

lemma foldl_upd: "foldl (\<lambda>m (k, v). m(k := v)) (\<lambda>key. []) kvs = last_write kvs"
proof (induction kvs rule: rev_induct)
  case (snoc kv kvs)
  then show ?case by (cases kv) (auto simp: last_write_def)
qed (simp add: last_write_def fun_eq_iff)

lemma Trie_Updates_New:
  assumes "\<And>x. length (sha x) = 32" and "list_all (\<lambda>(k, v). v \<noteq> [0]) kvs"
    and "sound_run sha (Trie_New d (VStr [])) kvs"
  obtains t where "Trie_Updates sha (Trie_New d (VStr [])) kvs = Some t" "trie_models sha t (last_write kvs)"
    "sound sha (cache t)"
proof -
  have "\<And>x. 32 \<le> length (sha x)" using assms(1) by simp
  from Trie_Updates_models [OF this trie_models_New assms(2,3)] that show thesis
    by (auto simp: foldl_upd)
qed

lemma Trie_Get_value: "trie_models sha t m \<Longrightarrow> map_option fst (Trie_Get t key) = Some (m key)"
  by (erule Trie_Get_models [where key = key]) simp

text \<open>Evaluating the collision condition; \<open>ds\<close> lists what the database holds.\<close>

definition node_encodings :: "Cache \<Rightarrow> bytes list" where
  "node_encodings c = map (\<lambda>(k, v, d). enc v) (nodes c)"

definition sound_list :: "(bytes \<Rightarrow> bytes) \<Rightarrow> bytes list \<Rightarrow> Cache \<Rightarrow> bool" where
  "sound_list sha ds c =
     (let es = remdups (ds @ node_encodings c)
      in distinct (map sha es) \<and> list_all (\<lambda>e. length e < 100) es)"

fun sound_run_list :: "(bytes \<Rightarrow> bytes) \<Rightarrow> bytes list \<Rightarrow> Trie \<Rightarrow> (bytes \<times> bytes) list \<Rightarrow> bool" where
  "sound_run_list sha ds t [] = sound_list sha ds (cache t)"
| "sound_run_list sha ds t ((k, v) # kvs) =
     (sound_list sha ds (cache t) \<and>
      (case Trie_Update sha t k v of None \<Rightarrow> True | Some t' \<Rightarrow> sound_run_list sha ds t' kvs))"

lemma sound_by_list:
  assumes "sound_list sha ds c" and "ran (db c) \<subseteq> set ds"
  shows "sound sha c"
proof -
  have "encodings c \<subseteq> set (ds @ node_encodings c)"
    using assms(2) by (auto simp: encodings_def node_encodings_def)
  moreover have "inj_on sha (set (ds @ node_encodings c))" "\<forall>e \<in> set (ds @ node_encodings c). length e < 100"
    using assms(1) by (auto simp: sound_list_def Let_def distinct_map list_all_iff)
  ultimately show ?thesis unfolding sound_def by (force intro: inj_on_subset)
qed

lemma sound_run_by_list:
  assumes sha: "\<And>x. length (sha x) = 32"
  shows "trie_models sha t m \<Longrightarrow> list_all (\<lambda>(k, v). v \<noteq> [0]) kvs \<Longrightarrow> ran (db (cache t)) \<subseteq> set ds \<Longrightarrow>
    sound_run_list sha ds t kvs \<Longrightarrow> sound_run sha t kvs"
proof (induction kvs arbitrary: t m)
  case (Cons kv kvs)
  obtain k v where kv: "kv = (k, v)" by (cases kv)
  have sha': "\<And>x. 32 \<le> length (sha x)" using sha by simp
  obtain t1 where t1: "Trie_Update sha t k v = Some t1" "ext sha (cache t) (cache t1)" "prevRoot t1 = prevRoot t"
    "sound sha (cache t1) \<Longrightarrow> trie_models sha t1 (m(k := v))"
    using Trie_Update_models [OF sha' Cons.prems(1)] Cons.prems(2) kv by auto
  have d: "ran (db (cache t1)) \<subseteq> set ds" using ext_db [OF t1(2)] Cons.prems(3) by simp
  have l: "sound_run_list sha ds t1 kvs" using Cons.prems(4) t1(1) kv by simp
  then have "sound sha (cache t1)"
    using d by (cases "(sha, ds, t1, kvs)" rule: sound_run_list.cases) (auto intro: sound_by_list)
  then have "sound_run sha t1 kvs" using Cons.IH [OF t1(4) _ d l] Cons.prems(2) by simp
  then show ?case using t1(1) kv Cons.prems(3,4) by (auto intro: sound_by_list)
qed (auto intro: sound_by_list)

lemma ran_Sync: "ran (db (cache (Trie_Sync t))) \<subseteq> ran (db (cache t)) \<union> set (node_encodings (cache t))"
proof -
  have "ran (commit_nodes ns d) \<subseteq> ran d \<union> (\<lambda>(k, v, d). enc v) ` set ns" for ns d
    by (induction ns d rule: commit_nodes.induct) (auto simp: ran_def split: if_splits)
  moreover have "set (AList.clearjunk ns) \<subseteq> set ns" for ns :: "(bytes \<times> gval \<times> bool) list"
    by (induction ns rule: clearjunk.induct) (auto simp: AList.delete_eq)
  ultimately have "ran (commit_nodes (AList.clearjunk ns) d) \<subseteq> ran d \<union> (\<lambda>(k, v, d). enc v) ` set ns" for ns d
    by (meson image_mono order_trans sup.mono order_refl)
  then show ?thesis by (simp add: Trie_Sync_def Cache_Commit_def Let_def node_encodings_def)
qed

section \<open>Properties\<close>

text \<open>C4: after any sequence of updates of a new trie every lookup succeeds and returns the value
  written last under its key, or the empty string if there is none. No value written is the single byte 0.
  The hash returns 32 bytes and has no collision among the byte strings stored on the way.\<close>

theorem trie_updates_get:
  assumes "\<And>x. length (sha x) = 32" and "list_all (\<lambda>(k, v). v \<noteq> [0]) kvs"
    and "sound_run sha (Trie_New d (VStr [])) kvs"
  shows "\<exists>t. Trie_Updates sha (Trie_New d (VStr [])) kvs = Some t \<and>
    (\<forall>key. map_option fst (Trie_Get t key) = Some (last_write kvs key))"
  using Trie_Updates_New [OF assms] Trie_Get_value by metis

text \<open>A hash for the examples: the first 32 bytes.\<close>

definition first32 :: "bytes \<Rightarrow> bytes" where
  "first32 e = take 32 (e @ replicate 32 1)"

lemma length_first32 [simp]: "length (first32 x) = 32"
  by (simp add: first32_def)

lemma example_run: "sound_run first32 (Trie_New Map.empty (VStr [])) [([1], [5]), ([2], [6])]"
proof (rule sound_run_by_list [OF length_first32 trie_models_New])
  show "sound_run_list first32 [] (Trie_New Map.empty (VStr [])) [([1], [5]), ([2], [6])]" by code_simp
qed (simp_all add: Trie_New_def NewCache_def)

theorem trie_updates_get_witness:
  "\<exists>t. Trie_Updates first32 (Trie_New Map.empty (VStr [])) [([1], [5]), ([2], [6])] = Some t \<and>
    (\<forall>key. map_option fst (Trie_Get t key) = Some (last_write [([1], [5]), ([2], [6])] key))"
  by (rule trie_updates_get [OF length_first32 _ example_run]) simp

text \<open>C21: what was synchronised is safe. When a client updates a trie, synchronises it and goes on
  updating it, \<open>Undo\<close> brings back all entries as they were when it was synchronised, and so does
  opening the trie afresh from the database. The conditions are those for a sequence of updates.\<close>

theorem trie_sync_undo:
  assumes "\<And>x. length (sha x) = 32" and "list_all (\<lambda>(k, v). v \<noteq> [0]) (kvs @ kvs')"
    and "sound_run sha (Trie_New d (VStr [])) kvs"
    and "\<And>t. Trie_Updates sha (Trie_New d (VStr [])) kvs = Some t \<Longrightarrow> sound_run sha (Trie_Sync t) kvs'"
  shows "\<exists>t t'. Trie_Updates sha (Trie_New d (VStr [])) kvs = Some t \<and>
    Trie_Updates sha (Trie_Sync t) kvs' = Some t' \<and>
    (\<forall>key. map_option fst (Trie_Get (Trie_Undo t') key) = Some (last_write kvs key) \<and>
      map_option fst (Trie_Get (Trie_New (db (cache t')) (Root t)) key) = Some (last_write kvs key))"
proof -
  have sha: "\<And>x. 32 \<le> length (sha x)" using assms(1) by simp
  obtain t where t: "Trie_Updates sha (Trie_New d (VStr [])) kvs = Some t"
    "trie_models sha t (last_write kvs)" "sound sha (cache t)"
    using Trie_Updates_New [OF assms(1) _ assms(3)] assms(2) by auto
  note S = Trie_Sync_models [OF t(2,3)]
  obtain t' where t': "Trie_Updates sha (Trie_Sync t) kvs' = Some t'" "ext sha (cache (Trie_Sync t)) (cache t')"
    "prevRoot t' = prevRoot (Trie_Sync t)" "cache_inv sha (cache t')"
    using Trie_Updates_models [OF sha S(1) _ assms(4) [OF t(1)]] assms(2) by (auto simp: trie_models_def)
  have "saved sha t' (last_write kvs)"
    using S(2) t'(3) ext_db [OF t'(2)] by (simp add: saved_def)
  note U = Trie_Undo_models(1) [OF this t'(4)]
  have "trie_models sha (Trie_New (db (cache t')) (Root t)) (last_write kvs)"
    using S(3) ext_db [OF t'(2)] by simp
  then show ?thesis using t(1) t'(1) Trie_Get_value U by blast
qed


theorem trie_sync_undo_witness:
  "\<exists>t t'. Trie_Updates first32 (Trie_New Map.empty (VStr [])) [([1], [5]), ([2], [6])] = Some t \<and>
    Trie_Updates first32 (Trie_Sync t) [([1], [7])] = Some t' \<and>
    (\<forall>key. map_option fst (Trie_Get (Trie_Undo t') key) = Some (last_write [([1], [5]), ([2], [6])] key) \<and>
      map_option fst (Trie_Get (Trie_New (db (cache t')) (Root t)) key) =
        Some (last_write [([1], [5]), ([2], [6])] key))"
proof (rule trie_sync_undo [OF length_first32 _ example_run])
  let ?u = "Trie_Updates first32 (Trie_New Map.empty (VStr [])) [([1], [5]), ([2], [6])]"
  fix t assume t: "?u = Some t"
  obtain t0 where t0: "?u = Some t0" "trie_models first32 t0 (last_write [([1], [5]), ([2], [6])])"
    "sound first32 (cache t0)"
    by (rule Trie_Updates_New [OF length_first32 _ example_run]) simp_all
  have "map_option (\<lambda>t. sound_run_list first32 (node_encodings (cache t)) (Trie_Sync t) [([1], [7])]) ?u = Some True"
    by code_simp
  then have l: "sound_run_list first32 (node_encodings (cache t)) (Trie_Sync t) [([1], [7])]"
    by (simp only: t option.map option.inject simp_thms)
  have "ext first32 (cache (Trie_New Map.empty (VStr []))) (cache t)"
    using Trie_Updates_models [OF _ trie_models_New _ example_run] t by auto
  then have "ran (db (cache t)) = {}" using ext_db by (fastforce simp: Trie_New_def NewCache_def)
  then show "sound_run first32 (Trie_Sync t) [([1], [7])]"
    using t t0 ran_Sync [of t]
    by (intro sound_run_by_list [OF length_first32 Trie_Sync_models(1) _ _ l]) auto
qed simp

text \<open>Deleting a key can lose others. Here the deletion of \<open>0x11\<close> leaves a branch with one child,
  whose value is a list, and the code that joins the two nodes reads that list as a string.\<close>

theorem trie_delete_loses_key:
  "do { t \<leftarrow> Trie_Updates first32 (Trie_New Map.empty (VStr [])) [([0x11], [5]), ([0x21, 0x44], [6]), ([0x21, 0x45], [7])];
        (v, t) \<leftarrow> Trie_Get t [0x21, 0x44];
        t \<leftarrow> Trie_Delete first32 [] t [0x11];
        (v', t) \<leftarrow> Trie_Get t [0x21, 0x44];
        Some (v, v') } = Some ([6], [])"
  by code_simp

text \<open>The one-byte value 0 does not survive. It is read back from the database as a byte, and the
  next time the node that contains it is written it becomes the empty string.\<close>

theorem trie_zero_value_lost:
  "do { t \<leftarrow> Trie_Updates first32 (Trie_New Map.empty (VStr [])) [([0x11], [0]), ([0x21], [6])];
        let t = Trie_Sync t;
        t \<leftarrow> Trie_Update first32 (Trie_New (db (cache t)) (Root t)) [0x31] [7];
        let t = Trie_Sync t;
        (v, t) \<leftarrow> Trie_Get (Trie_New (db (cache t)) (Root t)) [0x11];
        Some v } = Some []"
  by code_simp

text \<open>C28: synchronising a copy writes nothing, even where the original has unsaved nodes: the copy
  takes over the nodes but not the dirty flag of the cache.\<close>

theorem trie_copy_sync_writes_nothing: "db (cache (Trie_Sync (Trie_Copy t))) = db (cache t)"
  by (simp add: Trie_Sync_def Trie_Copy_def Trie_New_def NewCache_def Cache_Commit_def)

end
