(* ===== verification/Trie_Iterator.thy ===== *)
theory Trie_Iterator
  imports Trie
begin

text \<open>
  The iterator of \<^verbatim>\<open>monktrie/trie.go\<close>: \<open>Collect\<close> and \<open>Purge\<close>, which walk the trie for the hashes of its
  nodes, and \<open>Each\<close>, which calls back for every entry. The walks recurse through the stored nodes,
  so they take fuel; \<open>None\<close> is a panic or too little fuel. The callbacks of \<open>Each\<close> are the list of the
  arguments it passes, in order.
\<close>

record TrieIterator =
  it_cache :: Cache
  it_shas :: "bytes list"
  it_values :: "bytes list"

function (sequential) workNode :: "nat \<Rightarrow> TrieIterator \<Rightarrow> gval \<Rightarrow> TrieIterator option"
  and workNode_loop :: "nat \<Rightarrow> TrieIterator \<Rightarrow> gval \<Rightarrow> nat list \<Rightarrow> TrieIterator option"
  and it_getNode :: "nat \<Rightarrow> TrieIterator \<Rightarrow> bytes \<Rightarrow> TrieIterator option"
where
  "workNode 0 it cur = None"
| "workNode (Suc f) it cur =
     (if Value_Len cur = 2 then do {
        k \<leftarrow> CompactDecode (Value_Str (Value_Get cur 0));
        let child = Value_Get cur 1;
        if Value_Str child = [] then workNode f it child
        else if k = [] then None
        else if last k = 16 then Some (it\<lparr>it_values := it_values it @ [Value_Str child]\<rparr>)
        else it_getNode f (it\<lparr>it_shas := it_shas it @ [Value_Bytes child]\<rparr>) (Value_Bytes child) }
      else workNode_loop f it cur [0..<Value_Len cur])"
| "workNode_loop f it cur [] = Some it"
| "workNode_loop f it cur (i # is) = do {
     let child = Value_Get cur (int i);
     it' \<leftarrow>
       (if i = 16 \<and> Value_Len child \<noteq> 0 then Some (it\<lparr>it_values := it_values it @ [Value_Str child]\<rparr>)
        else if Value_Str child = [] then workNode f it child
        else it_getNode f (it\<lparr>it_shas := it_shas it @ [Value_Bytes (Value_Get cur 1)]\<rparr>) (Value_Str child));
     workNode_loop f it' cur is }"
| "it_getNode 0 it node = None"
| "it_getNode (Suc f) it node = do {
     (cur, c) \<leftarrow> Cache_Get (it_cache it) node;
     workNode f (it\<lparr>it_cache := c\<rparr>) cur }"
  by pat_completeness auto
termination workNode
  by (relation "measures [\<lambda>x. case x of Inl (f, _) \<Rightarrow> f | Inr (Inl (f, _)) \<Rightarrow> f | Inr (Inr (f, _)) \<Rightarrow> f,
      \<lambda>x. case x of Inl _ \<Rightarrow> 0 | Inr (Inl (_, _, _, is)) \<Rightarrow> Suc (length is) | Inr (Inr _) \<Rightarrow> 0]") auto

definition it_Collect :: "nat \<Rightarrow> Trie \<Rightarrow> (bytes list \<times> TrieIterator) option" where
  "it_Collect f t =
     (let it = \<lparr>it_cache = cache t, it_shas = [], it_values = []\<rparr> in
      if Root t = VStr [] then Some ([], it)
      else do { it' \<leftarrow> it_getNode f it (Value_Bytes (Root t)); Some (it_shas it', it') })"

definition it_Purge :: "nat \<Rightarrow> Trie \<Rightarrow> (nat \<times> Trie) option" where
  "it_Purge f t = do {
     (shas, it) \<leftarrow> it_Collect f t;
     Some (length (it_values it), t\<lparr>cache := foldl Cache_Delete (it_cache it) shas\<rparr>) }"

function (sequential) iterateNode :: "nat \<Rightarrow> Cache \<Rightarrow> nat list \<Rightarrow> gval \<Rightarrow> ((bytes \<times> gval) list \<times> Cache) option"
  and iterateNode_loop :: "nat \<Rightarrow> Cache \<Rightarrow> nat list \<Rightarrow> gval \<Rightarrow> nat list \<Rightarrow> ((bytes \<times> gval) list \<times> Cache) option"
  and fetchNode :: "nat \<Rightarrow> Cache \<Rightarrow> nat list \<Rightarrow> bytes \<Rightarrow> ((bytes \<times> gval) list \<times> Cache) option"
where
  "iterateNode 0 c key cur = None"
| "iterateNode (Suc f) c key cur =
     (if Value_Len cur = 2 then do {
        k \<leftarrow> CompactDecode (Value_Str (Value_Get cur 0));
        let pk = key @ k;
        let child = Value_Get cur 1;
        if Value_Len child \<noteq> 0 \<and> Value_Str child = [] then iterateNode f c pk child
        else if k = [] then None
        else if last k = 16 then Some ([(DecodeCompact pk, child)], c)
        else fetchNode f c pk (Value_Bytes child) }
      else iterateNode_loop f c key cur [0..<Value_Len cur])"
| "iterateNode_loop f c key cur [] = Some ([], c)"
| "iterateNode_loop f c key cur (i # is) = do {
     let pk = key @ [i];
     let child = Value_Get cur (int i);
     (calls, c1) \<leftarrow>
       (if i = 16 \<and> Value_Len child \<noteq> 0 then Some ([(DecodeCompact pk, child)], c)
        else if Value_Len child \<noteq> 0 \<and> Value_Str child = [] then iterateNode f c pk child
        else if Value_Str child \<noteq> [] then fetchNode f c pk (Value_Str child)
        else Some ([], c));
     (rest, c2) \<leftarrow> iterateNode_loop f c1 key cur is;
     Some (calls @ rest, c2) }"
| "fetchNode 0 c key node = None"
| "fetchNode (Suc f) c key node = do {
     (cur, c1) \<leftarrow> Cache_Get c node;
     iterateNode f c1 key cur }"
  by pat_completeness auto
termination iterateNode
  by (relation "measures [\<lambda>x. case x of Inl (f, _) \<Rightarrow> f | Inr (Inl (f, _)) \<Rightarrow> f | Inr (Inr (f, _)) \<Rightarrow> f,
      \<lambda>x. case x of Inl _ \<Rightarrow> 0 | Inr (Inl (_, _, _, _, is)) \<Rightarrow> Suc (length is) | Inr (Inr _) \<Rightarrow> 0]") auto

definition it_Each :: "nat \<Rightarrow> Trie \<Rightarrow> ((bytes \<times> gval) list \<times> Trie) option" where
  "it_Each f t = do {
     (calls, c) \<leftarrow> fetchNode f (cache t) [] (Value_Bytes (Root t));
     Some (calls, t\<lparr>cache := c\<rparr>) }"

text \<open>\<open>ParanoiaCheck\<close> rebuilds the trie from its entries and compares the roots. The result is
  the verdict, the given trie with the nodes its walk has read, and the rebuilt trie.\<close>

definition ParanoiaCheck :: "(bytes \<Rightarrow> bytes) \<Rightarrow> database \<Rightarrow> nat \<Rightarrow> Trie \<Rightarrow> (bool \<times> Trie \<times> Trie) option" where
  "ParanoiaCheck sha d f t1 = do {
     (calls, t1') \<leftarrow> it_Each f t1;
     t2 \<leftarrow> foldl (\<lambda>t (key, v). Option.bind t (\<lambda>t. Trie_Update sha t key (Value_Str v)))
            (Some (Trie_New d (VStr []))) calls;
     Some (Value_Bytes (Root t2) = Value_Bytes (Root t1'), t1', t2) }"

end
