(* ===== verification/State_Object.thy ===== *)
theory State_Object
  imports Trie_Map Trie_Iterator
begin

text \<open>
  Accounts, \<^verbatim>\<open>monkstate/state_object.go\<close>: balance, nonce, code and the storage trie with the cache of
  storage values in front of it. The nested \<open>State\<close> of an account is used for its trie only, so the
  field \<open>so_State\<close> is that trie.

  All tries share one database. The functions here take it as an argument and return it where they
  write to it; \<open>with_db\<close> lends it to a trie for one operation.
\<close>

section \<open>The platform\<close>

text \<open>\<open>sha3\<close> is \<open>Sha3Bin\<close>. \<open>spare\<close> is what Go leaves between the length and the capacity of a key slice,
  which only \<open>Delete\<close> can see. \<open>depth\<close> bounds the walks of the trie iterator.\<close>

record Platform =
  sha3 :: "bytes \<Rightarrow> bytes"
  spare :: "nat list"
  depth :: nat

definition with_db :: "database \<Rightarrow> Trie \<Rightarrow> Trie" where
  "with_db d t = t\<lparr>cache := (cache t)\<lparr>db := d\<rparr>\<rparr>"

section \<open>Accounts\<close>

record StateObject =
  so_address :: bytes
  Balance :: int
  codeHash :: bytes
  Nonce :: nat
  so_State :: Trie
  Code :: bytes
  InitCode :: bytes
  storage :: "(bytes \<times> gval) list"
  gasPool :: int
  remove :: bool

definition NewStateObject :: "database \<Rightarrow> bytes \<Rightarrow> StateObject" where
  "NewStateObject d addr =
     \<lparr>so_address = Address addr, Balance = 0, codeHash = [], Nonce = 0, so_State = Trie_New d (VStr []),
      Code = [], InitCode = [], storage = [], gasPool = 0, remove = False\<rparr>"

definition NewContract :: "database \<Rightarrow> bytes \<Rightarrow> int \<Rightarrow> bytes \<Rightarrow> StateObject" where
  "NewContract d addr balance root =
     (NewStateObject d addr)\<lparr>Balance := balance, so_State := Trie_New d (VStr root)\<rparr>"

definition CodeHash :: "Platform \<Rightarrow> StateObject \<Rightarrow> bytes" where
  "CodeHash P c = (if length (Code c) > 0 then sha3 P (Code c) else [])"

definition StateObject_RlpEncode :: "Platform \<Rightarrow> StateObject \<Rightarrow> bytes" where
  "StateObject_RlpEncode P c =
     Value_Encode (VList [VUint (Nonce c), VBig (Balance c), Root (so_State c), VBytes (CodeHash P c)])"

definition StateObject_RlpDecode :: "database \<Rightarrow> bytes \<Rightarrow> bytes \<Rightarrow> StateObject option" where
  "StateObject_RlpDecode d addr data = do {
     decoder \<leftarrow> NewValueFromBytes data;
     let ch = Value_Bytes (Value_Get decoder 3);
     Some \<lparr>so_address = addr, Balance = Value_BigInt (Value_Get decoder 1), codeHash = ch,
           Nonce = Value_Uint (Value_Get decoder 0), so_State = Trie_New d (Value_Get decoder 2),
           Code = (case d ch of Some code \<Rightarrow> code | None \<Rightarrow> []), InitCode = [], storage = [],
           gasPool = 0, remove = False\<rparr> }"

definition NewStateObjectFromBytes :: "database \<Rightarrow> bytes \<Rightarrow> bytes \<Rightarrow> StateObject option" where
  "NewStateObjectFromBytes d addr data = StateObject_RlpDecode d addr data"

definition MarkForDeletion :: "StateObject \<Rightarrow> StateObject" where
  "MarkForDeletion c = c\<lparr>remove := True\<rparr>"

section \<open>Storage\<close>

definition GetAddr :: "database \<Rightarrow> StateObject \<Rightarrow> bytes \<Rightarrow> (gval \<times> StateObject) option" where
  "GetAddr d c addr = do {
     (data, t) \<leftarrow> Trie_Get (with_db d (so_State c)) addr;
     v \<leftarrow> NewValueFromBytes data;
     Some (v, c\<lparr>so_State := t\<rparr>) }"

definition SetAddr :: "Platform \<Rightarrow> database \<Rightarrow> StateObject \<Rightarrow> bytes \<Rightarrow> gval \<Rightarrow> StateObject option" where
  "SetAddr P d c addr value = do {
     t \<leftarrow> Trie_Update (sha3 P) (with_db d (so_State c)) addr (Value_Encode value);
     Some (c\<lparr>so_State := t\<rparr>) }"

definition getStorage :: "database \<Rightarrow> StateObject \<Rightarrow> bytes \<Rightarrow> (gval \<times> StateObject) option" where
  "getStorage d c k =
     (let key = LeftPadBytes k 32 in
      case map_of (storage c) key of
        Some value \<Rightarrow> Some (value, c)
      | None \<Rightarrow> do {
          (value, c1) \<leftarrow> GetAddr d c key;
          Some (value, if \<not> Value_IsNil value then c1\<lparr>storage := AList.update key value (storage c1)\<rparr> else c1) })"

definition setStorage :: "StateObject \<Rightarrow> bytes \<Rightarrow> gval \<Rightarrow> StateObject" where
  "setStorage c k value = c\<lparr>storage := AList.update (LeftPadBytes k 32) value (storage c)\<rparr>"

definition GetStorage :: "database \<Rightarrow> StateObject \<Rightarrow> int \<Rightarrow> (gval \<times> StateObject) option" where
  "GetStorage d c key = getStorage d c (big_bytes key)"

definition SetStorage :: "StateObject \<Rightarrow> int \<Rightarrow> gval \<Rightarrow> StateObject" where
  "SetStorage c key value = setStorage c (big_bytes key) value"

text \<open>The callbacks of \<open>EachStorage\<close>, in order: the cached values, then the entries of the trie that
  are not cached. Go's order of the first part is unspecified.\<close>

definition EachStorage :: "Platform \<Rightarrow> database \<Rightarrow> StateObject \<Rightarrow> ((bytes \<times> gval) list \<times> StateObject) option" where
  "EachStorage P d c = do {
     let cached = map (\<lambda>(key, value). (key, VBytes (Value_Encode value))) (storage c);
     (calls, t) \<leftarrow> it_Each (depth P) (with_db d (so_State c));
     Some (cached @ filter (\<lambda>(key, value). map_of (storage c) key = None) calls, c\<lparr>so_State := t\<rparr>) }"

text \<open>\<open>Sync\<close> writes the cached values to the trie, in the order of the map, and rebuilds the trie where
  the check finds a different root.\<close>

fun sync_storage :: "Platform \<Rightarrow> database \<Rightarrow> StateObject \<Rightarrow> (bytes \<times> gval) list \<Rightarrow> StateObject option" where
  "sync_storage P d c [] = Some c"
| "sync_storage P d c ((key, value) # kvs) = do {
     c1 \<leftarrow>
       (if Value_Len value = 0 then do {
          t \<leftarrow> Trie_Delete (sha3 P) (spare P) (with_db d (so_State c)) key;
          Some (c\<lparr>so_State := t\<rparr>) }
        else SetAddr P d c key value);
     sync_storage P d c1 kvs }"

definition StateObject_Sync :: "Platform \<Rightarrow> database \<Rightarrow> StateObject \<Rightarrow> StateObject option" where
  "StateObject_Sync P d c = do {
     c1 \<leftarrow> sync_storage P d c (storage c);
     (valid, t1, t2) \<leftarrow> ParanoiaCheck (sha3 P) d (depth P) (with_db d (so_State c1));
     Some (c1\<lparr>so_State := if valid then t1 else t2\<rparr>) }"

definition StateObject_Reset :: "database \<Rightarrow> StateObject \<Rightarrow> StateObject" where
  "StateObject_Reset d c = c\<lparr>storage := [], so_State := Trie_Undo (with_db d (so_State c))\<rparr>"

definition GetInstr :: "StateObject \<Rightarrow> int \<Rightarrow> gval option" where
  "GetInstr c pc =
     (if int (length (Code c)) - 1 < big_Int64 pc then Some (VInt 0)
      else if big_Int64 pc < 0 then None
      else NewValueFromBytes [Code c ! nat (big_Int64 pc)])"

text \<open>\<open>Nonce++\<close>.\<close>

definition IncNonce :: "StateObject \<Rightarrow> StateObject" where
  "IncNonce c = c\<lparr>Nonce := (Nonce c + 1) mod 2 ^ 64\<rparr>"

section \<open>Amounts and gas\<close>

definition AddAmount :: "int \<Rightarrow> StateObject \<Rightarrow> StateObject" where
  "AddAmount amount c = c\<lparr>Balance := Balance c + amount\<rparr>"

definition SubAmount :: "int \<Rightarrow> StateObject \<Rightarrow> StateObject" where
  "SubAmount amount c = c\<lparr>Balance := Balance c - amount\<rparr>"

definition ConvertGas :: "int \<Rightarrow> int \<Rightarrow> StateObject \<Rightarrow> StateObject option" where
  "ConvertGas gas price c =
     (let total = gas * price in if total > Balance c then None else Some (SubAmount total c))"

definition SetGasPool :: "int \<Rightarrow> StateObject \<Rightarrow> StateObject" where
  "SetGasPool gasLimit c = c\<lparr>gasPool := gasLimit\<rparr>"

text \<open>\<open>None\<close> is the gas limit error.\<close>

definition StateObject_BuyGas :: "int \<Rightarrow> int \<Rightarrow> StateObject \<Rightarrow> StateObject option" where
  "StateObject_BuyGas gas price c =
     (if gasPool c < gas then None else Some (AddAmount (gas * price) c))"

definition StateObject_RefundGas :: "int \<Rightarrow> int \<Rightarrow> StateObject \<Rightarrow> StateObject" where
  "StateObject_RefundGas gas price c =
     c\<lparr>gasPool := gasPool c + gas, Balance := Balance c - gas * price\<rparr>"

definition StateObject_Copy :: "database \<Rightarrow> StateObject \<Rightarrow> StateObject" where
  "StateObject_Copy d c =
     (NewStateObject d (so_address c))\<lparr>Balance := Balance c, codeHash := codeHash c, Nonce := Nonce c,
        so_State := Trie_Copy (with_db d (so_State c)), Code := Code c, InitCode := InitCode c,
        storage := storage c, gasPool := gasPool c, remove := remove c\<rparr>"

section \<open>Laws\<close>

lemma LeftPadBytes_big_bytes_inject:
  assumes "0 \<le> k" and "0 \<le> k'"
  shows "LeftPadBytes (big_bytes k) 32 = LeftPadBytes (big_bytes k') 32 \<longleftrightarrow> k = k'"
proof
  assume "LeftPadBytes (big_bytes k) 32 = LeftPadBytes (big_bytes k') 32"
  then have "BigD (LeftPadBytes (big_bytes k) 32) = BigD (LeftPadBytes (big_bytes k') 32)" by simp
  then show "k = k'" using assms by (simp add: BigD_LeftPadBytes BigD_big_bytes)
qed simp

text \<open>What an account's encoding gives back.\<close>

lemma Value_canon_bytes:
  "Value_Bytes (canon_bytes s) = s" "Value_BigInt (canon_bytes s) = BigD s"
  "length s \<le> 8 \<Longrightarrow> Value_Uint (canon_bytes s) = be_val s"
proof -
  have single: "canon_bytes s = VByte b \<Longrightarrow> s = [b] \<and> unat b \<le> 127" for b
    by (cases s) (auto simp: canon_bytes_def word_le_nat_alt split: if_splits)
  have u: "length s \<le> 8 \<Longrightarrow> big_Uint64 (BigD s) = be_val s"
    using be_val_bound [of s] power_increasing [of "length s" 8 "256 :: nat"]
    by (subst big_Uint64_id) (simp_all add: BigD_def)
  consider b where "canon_bytes s = VByte b" | "canon_bytes s = VBytes s"
    by (cases "length s = 1 \<and> s ! 0 \<le> 0x7f") (simp_all add: canon_bytes_def)
  then have "Value_Bytes (canon_bytes s) = s \<and> Value_BigInt (canon_bytes s) = BigD s \<and>
      (length s \<le> 8 \<longrightarrow> Value_Uint (canon_bytes s) = be_val s)"
  proof cases
    case (1 b)
    have "int64 (uint b) = uint b" using uint_lt2p [of b] by (intro int64_id order.trans [OF _ uint_ge_0]) simp_all
    with 1 single [OF 1] show ?thesis
      by (simp add: Value_Bytes_def Value_BigInt_def Value_Uint_def BigD_def be_val_def)
  next
    case 2
    with u show ?thesis by (simp add: Value_Bytes_def Value_BigInt_def Value_Uint_def)
  qed
  then show "Value_Bytes (canon_bytes s) = s" "Value_BigInt (canon_bytes s) = BigD s"
    "length s \<le> 8 \<Longrightarrow> Value_Uint (canon_bytes s) = be_val s" by simp_all
qed

lemma canon_VUint: "n < 2 ^ 63 \<Longrightarrow> canon (VUint n) = canon_bytes (be_bytes n)"
  by (simp add: int64_id)

lemma account_reads_back:
  assumes "Nonce c < 2 ^ 63" and "0 \<le> Balance c"
    and "length (StateObject_RlpEncode P c) < 2 ^ 64"
    and "d (CodeHash P c) = (if Code c = [] then None else Some (Code c))"
  shows "\<exists>c'. NewStateObjectFromBytes d (so_address c) (StateObject_RlpEncode P c) = Some c' \<and>
    so_address c' = so_address c \<and> Nonce c' = Nonce c \<and> Balance c' = Balance c \<and> Code c' = Code c \<and>
    codeHash c' = CodeHash P c \<and> Root (so_State c') = canon (Root (so_State c))"
proof -
  let ?v = "VList [VUint (Nonce c), VBig (Balance c), Root (so_State c), VBytes (CodeHash P c)]"
  let ?w = "VList [canon_bytes (be_bytes (Nonce c)), canon_bytes (big_bytes (Balance c)),
      canon (Root (so_State c)), canon_bytes (CodeHash P c)]"
  have "NewValueFromBytes (StateObject_RlpEncode P c) = Some (canon ?v)"
    using assms(3) unfolding StateObject_RlpEncode_def by (rule NewValueFromBytes_Encode)
  also have "canon ?v = ?w" using canon_VUint [OF assms(1)] by simp
  finally have dec: "NewValueFromBytes (StateObject_RlpEncode P c) = Some ?w" .
  have get: "Value_Get ?w 0 = canon_bytes (be_bytes (Nonce c))" "Value_Get ?w 1 = canon_bytes (big_bytes (Balance c))"
    "Value_Get ?w 2 = canon (Root (so_State c))" "Value_Get ?w 3 = canon_bytes (CodeHash P c)"
    by (simp_all add: Value_Get_def)
  have "length (be_bytes (Nonce c)) \<le> 8" using assms(1) by (intro length_be_bytes_64) simp
  then show ?thesis
    using assms(2,4) unfolding NewStateObjectFromBytes_def StateObject_RlpDecode_def dec
    by (simp add: get Value_canon_bytes Let_def Trie_New_def split: if_splits)
qed

lemma StateObject_RlpEncode_length: "2 \<le> length (StateObject_RlpEncode P c)"
proof -
  have *: "2 \<le> length (Value_Encode (VList (x # xs)))" for x xs
  proof -
    let ?b = "concat (map enc (x # xs))"
    have "0 < length (enc x)" unfolding length_greater_0_conv by (simp add: Value_Encode_def Encode_def)
    moreover have "0 < length (WriteSliceHeader (length ?b))" unfolding length_greater_0_conv by simp
    moreover have "length (enc (VList (x # xs))) =
        length (WriteSliceHeader (length ?b)) + (length (enc x) + length (concat (map enc xs)))"
      by (simp add: enc_VList Let_def)
    ultimately show ?thesis by linarith
  qed
  show ?thesis unfolding StateObject_RlpEncode_def by (rule *)
qed

section \<open>Properties\<close>

text \<open>C24: a value stored under a storage key is read back, and no other key is touched, whatever the
  trie behind the storage cache holds.\<close>

theorem storage_get_set:
  assumes "0 \<le> k" and "0 \<le> k'"
  shows "map_option fst (GetStorage d (SetStorage c k v) k') =
    (if k' = k then Some v else map_option fst (GetStorage d c k'))"
  using LeftPadBytes_big_bytes_inject [OF assms]
  by (auto simp: GetStorage_def SetStorage_def getStorage_def setStorage_def Let_def update_conv' GetAddr_def
      split: option.split Option.bind_split)

theorem storage_get_set_witness:
  "map_option fst (GetStorage Map.empty (SetStorage (NewStateObject Map.empty [7]) 3 (VBig 9)) 3) = Some (VBig 9)"
  using storage_get_set [of 3 3 Map.empty "NewStateObject Map.empty [7]" "VBig 9"] by simp

text \<open>An account that is written to the state trie and read back has the nonce, balance, code and
  storage root it had, provided its code is in the database and its nonce is below \<open>2 ^ 63\<close>.\<close>

theorem account_roundtrip:
  assumes "Nonce c < 2 ^ 63" and "0 \<le> Balance c"
    and "length (StateObject_RlpEncode P c) < 2 ^ 64"
    and "d (CodeHash P c) = (if Code c = [] then None else Some (Code c))"
  shows "\<exists>c'. NewStateObjectFromBytes d (so_address c) (StateObject_RlpEncode P c) = Some c' \<and>
    so_address c' = so_address c \<and> Nonce c' = Nonce c \<and> Balance c' = Balance c \<and> Code c' = Code c \<and>
    codeHash c' = CodeHash P c \<and> Root (so_State c') = canon (Root (so_State c))"
  using account_reads_back [of c P d, OF assms] .

theorem account_roundtrip_witness:
  "\<exists>c'. NewStateObjectFromBytes Map.empty (Address [7])
      (StateObject_RlpEncode \<lparr>sha3 = first32, spare = [], depth = 9\<rparr> (NewStateObject Map.empty [7])) = Some c' \<and>
    Nonce c' = 0 \<and> Balance c' = 0 \<and> Code c' = []"
proof -
  let ?P = "\<lparr>sha3 = first32, spare = [], depth = 9\<rparr>" and ?c = "NewStateObject Map.empty [7]"
  have f: "Nonce ?c = 0" "Balance ?c = 0" "Code ?c = []" "so_address ?c = Address [7]"
    by (simp_all add: NewStateObject_def)
  have h: "CodeHash ?P ?c = []" by (simp add: CodeHash_def f)
  have "StateObject_RlpEncode ?P ?c = [196, 128, 128, 128, 128]" by code_simp
  then have "length (StateObject_RlpEncode ?P ?c) < 2 ^ 64" by simp
  then show ?thesis using account_roundtrip [of ?c ?P Map.empty] f h by auto
qed

end
