(* ===== verification/State.thy ===== *)
theory State
  imports State_Object
begin

text \<open>
  The world state, \<^verbatim>\<open>monkstate/state.go\<close> and \<^verbatim>\<open>monkstate/manifest.go\<close>: the state trie and the cache of
  accounts in front of it. The program passes accounts around as pointers, and \<open>Set\<close> replaces the
  accounts of a state while pointers to the old ones live on. So accounts live in a heap here, the
  list \<open>objects\<close>, a pointer is an index into it, and the cache maps addresses to pointers.
\<close>

section \<open>State and heap\<close>

record State =
  st_Trie :: Trie
  stateObjects :: "(bytes \<times> nat) list"

record Message =
  msg_To :: bytes
  msg_From :: bytes
  msg_Input :: bytes
  msg_Output :: bytes
  msg_Origin :: bytes
  msg_Timestamp :: int
  msg_Coinbase :: bytes
  msg_Block :: bytes
  msg_Number :: int
  msg_Value :: int
  ChangedAddresses :: "bytes list"

record World =
  w_state :: State
  objects :: "StateObject list"
  w_db :: database
  Messages :: "Message list"

definition object_at :: "World \<Rightarrow> nat \<Rightarrow> StateObject" where
  "object_at W r = objects W ! r"

definition change_object :: "nat \<Rightarrow> (StateObject \<Rightarrow> StateObject) \<Rightarrow> World \<Rightarrow> World" where
  "change_object r f W = W\<lparr>objects := (objects W)[r := f (objects W ! r)]\<rparr>"

definition new_object :: "StateObject \<Rightarrow> World \<Rightarrow> nat \<times> World" where
  "new_object obj W = (length (objects W), W\<lparr>objects := objects W @ [obj]\<rparr>)"

definition set_state :: "State \<Rightarrow> World \<Rightarrow> World" where
  "set_state s W = W\<lparr>w_state := s\<rparr>"

text \<open>Entering a pointer into the cache of accounts.\<close>

definition cache_object :: "bytes \<Rightarrow> nat \<Rightarrow> World \<Rightarrow> World" where
  "cache_object addr r W =
     W\<lparr>w_state := (w_state W)\<lparr>stateObjects := AList.update addr r (stateObjects (w_state W))\<rparr>\<rparr>"

section \<open>The manifest\<close>

definition AddMessage :: "Message \<Rightarrow> World \<Rightarrow> nat \<times> World" where
  "AddMessage m W = (length (Messages W), W\<lparr>Messages := Messages W @ [m]\<rparr>)"

definition AddStorageChange :: "nat \<Rightarrow> bytes \<Rightarrow> World \<Rightarrow> World" where
  "AddStorageChange i addr W =
     W\<lparr>Messages := (Messages W)[i := (Messages W ! i)\<lparr>ChangedAddresses := ChangedAddresses (Messages W ! i) @ [addr]\<rparr>]\<rparr>"

definition set_output :: "nat \<Rightarrow> bytes \<Rightarrow> World \<Rightarrow> World" where
  "set_output i out W = W\<lparr>Messages := (Messages W)[i := (Messages W ! i)\<lparr>msg_Output := out\<rparr>]\<rparr>"

definition Manifest_Reset :: "World \<Rightarrow> World" where
  "Manifest_Reset W = W\<lparr>Messages := []\<rparr>"

section \<open>Accounts of the state\<close>

definition GetStateObject :: "bytes \<Rightarrow> World \<Rightarrow> (nat option \<times> World) option" where
  "GetStateObject addr W =
     (let addr = Address addr; s = w_state W in
      case map_of (stateObjects s) addr of
        Some r \<Rightarrow> Some (Some r, W)
      | None \<Rightarrow> do {
          (data, t) \<leftarrow> Trie_Get (with_db (w_db W) (st_Trie s)) addr;
          let W = set_state (s\<lparr>st_Trie := t\<rparr>) W;
          if length data = 0 then Some (None, W)
          else do {
            obj \<leftarrow> NewStateObjectFromBytes (w_db W) addr data;
            let (r, W) = new_object obj W;
            Some (Some r, cache_object addr r W) } })"

definition State_NewStateObject :: "bytes \<Rightarrow> World \<Rightarrow> nat \<times> World" where
  "State_NewStateObject addr W =
     (let addr = Address addr; (r, W) = new_object (NewStateObject (w_db W) addr) W
      in (r, cache_object addr r W))"

definition GetOrNewStateObject :: "bytes \<Rightarrow> World \<Rightarrow> (nat \<times> World) option" where
  "GetOrNewStateObject addr W = do {
     (obj, W) \<leftarrow> GetStateObject addr W;
     case obj of Some r \<Rightarrow> Some (r, W) | None \<Rightarrow> Some (State_NewStateObject addr W) }"

definition GetBalance :: "bytes \<Rightarrow> World \<Rightarrow> (int \<times> World) option" where
  "GetBalance addr W = do {
     (obj, W) \<leftarrow> GetStateObject addr W;
     Some (case obj of Some r \<Rightarrow> Balance (object_at W r) | None \<Rightarrow> 0, W) }"

definition GetNonce :: "bytes \<Rightarrow> World \<Rightarrow> (nat \<times> World) option" where
  "GetNonce addr W = do {
     (obj, W) \<leftarrow> GetStateObject addr W;
     Some (case obj of Some r \<Rightarrow> Nonce (object_at W r) | None \<Rightarrow> 0, W) }"

definition GetCode :: "bytes \<Rightarrow> World \<Rightarrow> (bytes \<times> World) option" where
  "GetCode addr W = do {
     (obj, W) \<leftarrow> GetStateObject addr W;
     Some (case obj of Some r \<Rightarrow> Code (object_at W r) | None \<Rightarrow> [], W) }"

text \<open>Writing an account to the trie, its code to the database.\<close>

definition put_code :: "Platform \<Rightarrow> StateObject \<Rightarrow> database \<Rightarrow> database" where
  "put_code P obj d = (if length (CodeHash P obj) > 0 then d(CodeHash P obj \<mapsto> Code obj) else d)"

definition UpdateStateObject :: "Platform \<Rightarrow> nat \<Rightarrow> World \<Rightarrow> World option" where
  "UpdateStateObject P r W =
     (let obj = object_at W r; d = put_code P obj (w_db W)
      in do {
        t \<leftarrow> Trie_Update (sha3 P) (with_db d (st_Trie (w_state W))) (so_address obj) (StateObject_RlpEncode P obj);
        Some (set_state ((w_state W)\<lparr>st_Trie := t\<rparr>) (W\<lparr>w_db := d\<rparr>)) })"

definition DeleteStateObject :: "Platform \<Rightarrow> nat \<Rightarrow> World \<Rightarrow> World option" where
  "DeleteStateObject P r W =
     (let addr = so_address (object_at W r); s = w_state W in do {
        t \<leftarrow> Trie_Delete (sha3 P) (spare P) (with_db (w_db W) (st_Trie s)) addr;
        Some (set_state (s\<lparr>st_Trie := t, stateObjects := AList.delete addr (stateObjects s)\<rparr>) W) })"

section \<open>Operations on the whole state\<close>

fun copy_objects :: "(bytes \<times> nat) list \<Rightarrow> World \<Rightarrow> (bytes \<times> nat) list \<times> World" where
  "copy_objects [] W = ([], W)"
| "copy_objects ((k, r) # kr) W =
     (let (r', W1) = new_object (StateObject_Copy (w_db W) (object_at W r)) W;
          (kr', W2) = copy_objects kr W1
      in ((k, r') # kr', W2))"

definition State_Copy :: "World \<Rightarrow> State \<times> World" where
  "State_Copy W =
     (let t = Trie_Copy (with_db (w_db W) (st_Trie (w_state W)));
          (kr, W1) = copy_objects (stateObjects (w_state W)) W
      in (\<lparr>st_Trie = t, stateObjects = kr\<rparr>, W1))"

definition State_Set :: "State \<Rightarrow> World \<Rightarrow> World" where
  "State_Set s W = set_state s W"

definition State_Empty :: "World \<Rightarrow> World" where
  "State_Empty W = set_state ((w_state W)\<lparr>stateObjects := []\<rparr>) W"

fun reset_objects :: "(bytes \<times> nat) list \<Rightarrow> World \<Rightarrow> World" where
  "reset_objects [] W = W"
| "reset_objects ((k, r) # kr) W = reset_objects kr (change_object r (StateObject_Reset (w_db W)) W)"

definition State_Reset :: "World \<Rightarrow> World" where
  "State_Reset W =
     (let s = w_state W; W = set_state (s\<lparr>st_Trie := Trie_Undo (with_db (w_db W) (st_Trie s))\<rparr>) W
      in State_Empty (reset_objects (stateObjects s) W))"

fun sync_objects :: "(bytes \<times> nat) list \<Rightarrow> World \<Rightarrow> World" where
  "sync_objects [] W = W"
| "sync_objects ((k, r) # kr) W =
     (let t = Trie_Sync (with_db (w_db W) (so_State (object_at W r)))
      in sync_objects kr ((change_object r (\<lambda>obj. obj\<lparr>so_State := t\<rparr>) W)\<lparr>w_db := db (cache t)\<rparr>))"

definition State_Sync :: "World \<Rightarrow> World" where
  "State_Sync W =
     (let W = sync_objects (stateObjects (w_state W)) W;
          t = Trie_Sync (with_db (w_db W) (st_Trie (w_state W)))
      in State_Empty (set_state ((w_state W)\<lparr>st_Trie := t\<rparr>) (W\<lparr>w_db := db (cache t)\<rparr>)))"

fun update_objects :: "Platform \<Rightarrow> (bytes \<times> nat) list \<Rightarrow> World \<Rightarrow> World option" where
  "update_objects P [] W = Some W"
| "update_objects P ((k, r) # kr) W = do {
     W \<leftarrow>
       (if remove (object_at W r) then DeleteStateObject P r W
        else do {
          obj \<leftarrow> StateObject_Sync P (w_db W) (object_at W r);
          UpdateStateObject P r (change_object r (\<lambda>_. obj) W) });
     update_objects P kr W }"

definition State_Update :: "Platform \<Rightarrow> World \<Rightarrow> World option" where
  "State_Update P W = do {
     W \<leftarrow> update_objects P (stateObjects (w_state W)) W;
     (valid, t1, t2) \<leftarrow> ParanoiaCheck (sha3 P) (w_db W) (depth P) (with_db (w_db W) (st_Trie (w_state W)));
     Some (set_state ((w_state W)\<lparr>st_Trie := if valid then t1 else t2\<rparr>) W) }"

definition State_Cmp :: "State \<Rightarrow> State \<Rightarrow> bool" where
  "State_Cmp s s' = Trie_Cmp (st_Trie s) (st_Trie s')"

section \<open>Pointers\<close>

text \<open>What a client of the heap relies on.\<close>

locale pointer_heap =
  fixes get :: "'w \<Rightarrow> 'r \<Rightarrow> StateObject"
    and change :: "'r \<Rightarrow> (StateObject \<Rightarrow> StateObject) \<Rightarrow> 'w \<Rightarrow> 'w"
    and valid :: "'w \<Rightarrow> 'r \<Rightarrow> bool"
  assumes get_change: "valid w r \<Longrightarrow> get (change r f w) q = (if q = r then f (get w r) else get w q)"
    and valid_change: "valid (change r f w) q = valid w q"
begin

text \<open>A transfer between two accounts, which may be the same one.\<close>

lemma transfer_balance:
  assumes "valid w a" and "valid w b"
  shows "Balance (get (change b (AddAmount v) (change a (SubAmount v) w)) q) =
    Balance (get w q) - (if q = a then v else 0) + (if q = b then v else 0)"
  using assms by (simp add: get_change valid_change AddAmount_def SubAmount_def)

lemma transfer_conserves:
  assumes "valid w a" and "valid w b" and "finite A" and "a \<in> A" and "b \<in> A"
  shows "(\<Sum>q\<in>A. Balance (get (change b (AddAmount v) (change a (SubAmount v) w)) q)) = (\<Sum>q\<in>A. Balance (get w q))"
proof -
  have "(\<Sum>q\<in>A. Balance (get (change b (AddAmount v) (change a (SubAmount v) w)) q)) =
      (\<Sum>q\<in>A. Balance (get w q)) - (\<Sum>q\<in>A. if q = a then v else 0) + (\<Sum>q\<in>A. if q = b then v else 0)"
    using assms(1,2) by (simp add: transfer_balance sum.distrib sum_subtractf)
  also have "\<dots> = (\<Sum>q\<in>A. Balance (get w q))" using assms(3-5) by simp
  finally show ?thesis .
qed

end

definition pointer :: "World \<Rightarrow> nat \<Rightarrow> bool" where
  "pointer W r = (r < length (objects W))"

interpretation heap: pointer_heap object_at change_object pointer
  by unfold_locales (simp_all add: object_at_def change_object_def pointer_def nth_list_update)

lemma change_object_simps [simp]:
  "w_state (change_object r f W) = w_state W" "w_db (change_object r f W) = w_db W"
  "Messages (change_object r f W) = Messages W" "length (objects (change_object r f W)) = length (objects W)"
  by (simp_all add: change_object_def)

lemma set_state_simps [simp]:
  "w_state (set_state s W) = s" "w_db (set_state s W) = w_db W" "objects (set_state s W) = objects W"
  "Messages (set_state s W) = Messages W" "object_at (set_state s W) = object_at W"
  "pointer (set_state s W) = pointer W"
  by (simp_all add: set_state_def object_at_def pointer_def fun_eq_iff)

text \<open>A state whose cache holds pointers into the heap, under the addresses of their accounts.\<close>

definition state_ok :: "World \<Rightarrow> bool" where
  "state_ok W = (\<forall>k r. map_of (stateObjects (w_state W)) k = Some r \<longrightarrow> pointer W r \<and> so_address (object_at W r) = k)"

section \<open>Snapshots\<close>

text \<open>What a client sees of a cached account.\<close>

definition account_view :: "World \<Rightarrow> bytes \<Rightarrow> (int \<times> nat \<times> bytes \<times> bytes \<times> (bytes \<times> gval) list \<times> gval \<times> int \<times> bool) option" where
  "account_view W k =
     map_option (\<lambda>r. let c = object_at W r
         in (Balance c, Nonce c, Code c, InitCode c, storage c, Root (so_State c), gasPool c, remove c))
       (map_of (stateObjects (w_state W)) k)"

lemma copy_objects_frame:
  "copy_objects kr W = (kr', W1) \<Longrightarrow> w_state W1 = w_state W \<and> w_db W1 = w_db W \<and> Messages W1 = Messages W \<and>
     length (objects W) \<le> length (objects W1) \<and> (\<forall>r. pointer W r \<longrightarrow> object_at W1 r = object_at W r)"
proof (induction kr W arbitrary: kr' W1 rule: copy_objects.induct)
  case (2 k1 r1 kr W)
  obtain r' W' where new: "new_object (StateObject_Copy (w_db W) (object_at W r1)) W = (r', W')" by fastforce
  obtain kr1 where rest: "copy_objects kr W' = (kr1, W1)"
    using "2.prems" new by (auto split: prod.splits)
  have W': "w_state W' = w_state W" "w_db W' = w_db W" "Messages W' = Messages W"
    "length (objects W) \<le> length (objects W')"
    "\<And>r. pointer W r \<Longrightarrow> object_at W' r = object_at W r" "\<And>r. pointer W r \<Longrightarrow> pointer W' r"
    using new by (auto simp: new_object_def object_at_def pointer_def nth_append)
  have "length (objects W') \<le> length (objects W1)" "\<And>r. pointer W' r \<Longrightarrow> object_at W1 r = object_at W' r"
    "w_state W1 = w_state W'" "w_db W1 = w_db W'" "Messages W1 = Messages W'"
    using "2.IH" [OF new [symmetric] refl rest] by simp_all
  with W' show ?case by simp
qed simp

lemma copy_objects_map:
  "copy_objects kr W = (kr', W1) \<Longrightarrow> (\<forall>(k, r) \<in> set kr. pointer W r) \<Longrightarrow>
     (case map_of kr k of
        None \<Rightarrow> map_of kr' k = None
      | Some r \<Rightarrow> \<exists>r'. map_of kr' k = Some r' \<and> \<not> pointer W r' \<and> pointer W1 r' \<and>
          object_at W1 r' = StateObject_Copy (w_db W) (object_at W r))"
proof (induction kr W arbitrary: kr' W1 rule: copy_objects.induct)
  case (2 k1 r1 kr W)
  let ?c = "StateObject_Copy (w_db W) (object_at W r1)"
  obtain r' W' where new: "new_object ?c W = (r', W')" by fastforce
  obtain kr1 where rest: "copy_objects kr W' = (kr1, W1)" and kr': "kr' = (k1, r') # kr1"
    using "2.prems"(1) new by (auto split: prod.splits)
  have W': "r' = length (objects W)" "w_db W' = w_db W" "length (objects W') = Suc r'" "object_at W' r' = ?c"
    "\<And>r. pointer W r \<Longrightarrow> object_at W' r = object_at W r" "\<And>r. pointer W r \<Longrightarrow> pointer W' r"
    using new by (auto simp: new_object_def object_at_def pointer_def nth_append)
  have fr: "pointer W' r \<Longrightarrow> object_at W1 r = object_at W' r" "length (objects W') \<le> length (objects W1)" for r
    using copy_objects_frame [OF rest] by simp_all
  have p: "\<forall>(k, r) \<in> set kr. pointer W' r" using "2.prems"(2) W'(6) by auto
  note IH = "2.IH" [OF new [symmetric] refl rest p]
  show ?case
  proof (cases "k = k1")
    case True
    have "pointer W' r'" "\<not> pointer W r'" "pointer W1 r'" using W'(1,3) fr(2) by (simp_all add: pointer_def)
    then show ?thesis using True kr' W'(4) fr(1) [of r'] by simp
  next
    case False
    show ?thesis
    proof (cases "map_of kr k")
      case None
      then show ?thesis using IH False kr' by simp
    next
      case (Some r)
      then have "pointer W r" using "2.prems"(2) map_of_SomeD [OF Some] by auto
      moreover have "\<not> pointer W' q \<Longrightarrow> \<not> pointer W q" for q using W'(6) by blast
      ultimately show ?thesis using IH False kr' Some W'(2,5) by auto
    qed
  qed
qed simp

lemma State_Copy_eq:
  assumes "State_Copy W = (s, W1)"
  shows "copy_objects (stateObjects (w_state W)) W = (stateObjects s, W1)"
    "st_Trie s = Trie_Copy (with_db (w_db W) (st_Trie (w_state W)))"
  using assms by (auto simp: State_Copy_def Let_def split: prod.splits)

lemma State_Set_restores:
  assumes "\<forall>(k, r) \<in> set (stateObjects (w_state W)). pointer W r" and "State_Copy W = (s, W1)"
    and "\<forall>r. \<not> pointer W r \<longrightarrow> pointer W1 r \<longrightarrow> object_at W2 r = object_at W1 r"
  shows "account_view (State_Set s W2) k = account_view W k \<and>
    Root (st_Trie (w_state (State_Set s W2))) = Root (st_Trie (w_state W)) \<and>
    (\<forall>r. map_of (stateObjects (w_state (State_Set s W2))) k = Some r \<longrightarrow> \<not> pointer W r)"
proof -
  note c = State_Copy_eq [OF assms(2)]
  note m = copy_objects_map [OF c(1) assms(1), of k]
  have "account_view (State_Set s W2) k = account_view W k"
  proof (cases "map_of (stateObjects (w_state W)) k")
    case None
    then show ?thesis using m by (simp add: account_view_def State_Set_def)
  next
    case (Some r)
    then obtain r' where r': "map_of (stateObjects s) k = Some r'" "\<not> pointer W r'" "pointer W1 r'"
      "object_at W1 r' = StateObject_Copy (w_db W) (object_at W r)" using m by auto
    then have "object_at W2 r' = StateObject_Copy (w_db W) (object_at W r)" using assms(3) by simp
    with Some r'(1) show ?thesis
      by (simp add: account_view_def State_Set_def Let_def StateObject_Copy_def Trie_Copy_def Trie_New_def with_db_def)
  qed
  moreover have "map_of (stateObjects s) k = Some r \<Longrightarrow> \<not> pointer W r" for r
    using m by (auto split: option.splits)
  ultimately show ?thesis using c(2) by (simp add: State_Set_def Trie_Copy_def Trie_New_def with_db_def)
qed

section \<open>Properties\<close>

text \<open>C8: a snapshot brings back every account. Take a copy of the state, then let anything happen to
  the world that does not touch the copied accounts; after \<open>Set\<close> every cached account has the
  balance, nonce, code, storage and flags it had, and the trie its root. The pointers it hands out are new:
  none of them is a pointer of the world before the copy.\<close>

theorem snapshot_restores:
  assumes "\<forall>(k, r) \<in> set (stateObjects (w_state W)). pointer W r" and "State_Copy W = (s, W1)"
    and "\<forall>r. \<not> pointer W r \<longrightarrow> pointer W1 r \<longrightarrow> object_at W2 r = object_at W1 r"
  shows "account_view (State_Set s W2) k = account_view W k \<and>
    Root (st_Trie (w_state (State_Set s W2))) = Root (st_Trie (w_state W)) \<and>
    (\<forall>r. map_of (stateObjects (w_state (State_Set s W2))) k = Some r \<longrightarrow> \<not> pointer W r)"
  using State_Set_restores [OF assms] .

text \<open>A world for the examples: one account, with the balance 5, in the cache.\<close>

definition example_world :: World where
  "example_world =
     \<lparr>w_state = \<lparr>st_Trie = Trie_New Map.empty (VStr []), stateObjects = [(Address [7], 0)]\<rparr>,
      objects = [AddAmount 5 (NewStateObject Map.empty [7])], w_db = Map.empty, Messages = []\<rparr>"

theorem snapshot_restores_witness:
  "\<exists>s W1. State_Copy example_world = (s, W1) \<and>
     Balance (object_at (change_object 0 (SubAmount 5) W1) 0) = 0 \<and>
     account_view (State_Set s (change_object 0 (SubAmount 5) W1)) (Address [7]) = account_view example_world (Address [7])"
proof -
  obtain s W1 where c: "State_Copy example_world = (s, W1)" by fastforce
  let ?W2 = "change_object 0 (SubAmount 5) W1"
  have p: "pointer example_world r \<longleftrightarrow> r = 0" for r by (simp add: pointer_def example_world_def)
  have cached: "\<forall>(k, r) \<in> set (stateObjects (w_state example_world)). pointer example_world r"
    by (simp add: p) (simp add: example_world_def)
  note fr = copy_objects_frame [OF State_Copy_eq(1) [OF c]]
  have "length (objects example_world) \<le> length (objects W1)" using fr by simp
  then have len: "0 < length (objects W1)" by (cases "objects W1") (simp_all add: example_world_def)
  have o: "object_at W1 0 = object_at example_world 0" using fr by (simp add: p)
  have g: "object_at ?W2 q = (if q = 0 then SubAmount 5 (object_at W1 0) else object_at W1 q)" for q
    using heap.get_change [of W1 0 "SubAmount 5" q] len by (simp add: pointer_def)
  have "\<forall>r. \<not> pointer example_world r \<longrightarrow> pointer W1 r \<longrightarrow> object_at ?W2 r = object_at W1 r"
    by (simp add: p g)
  moreover have "Balance (object_at ?W2 0) = 0"
    by (simp add: g o) (simp add: SubAmount_def AddAmount_def example_world_def object_at_def NewStateObject_def)
  ultimately show ?thesis using snapshot_restores [OF cached c, of ?W2 "Address [7]"] c by blast
qed

text \<open>C9: an account written to the state trie is found there again once the cache is empty: same
  address, nonce, balance, code and storage root; and the entries of all other accounts are what they were.
  The hash has 32 bytes and no collision in the store after the write.\<close>

theorem account_reload:
  assumes sha: "\<And>x. length (sha3 P x) = 32"
    and m: "trie_models (sha3 P) (with_db (put_code P (object_at W r) (w_db W)) (st_Trie (w_state W))) m"
    and sound: "\<And>W1. UpdateStateObject P r W = Some W1 \<Longrightarrow> sound (sha3 P) (cache (st_Trie (w_state W1)))"
    and a: "so_address (object_at W r) = Address a" and d: "w_db W [] = None"
    and n: "Nonce (object_at W r) < 2 ^ 63" and b: "0 \<le> Balance (object_at W r)"
    and l: "length (StateObject_RlpEncode P (object_at W r)) < 2 ^ 64"
  shows "\<exists>W1 W2 r'. UpdateStateObject P r W = Some W1 \<and>
    GetStateObject a (State_Empty W1) = Some (Some r', W2) \<and>
    (let c = object_at W r; c' = object_at W2 r' in so_address c' = so_address c \<and> Nonce c' = Nonce c \<and>
       Balance c' = Balance c \<and> Code c' = Code c \<and> Root (so_State c') = canon (Root (so_State c))) \<and>
    (\<forall>k. k \<noteq> Address a \<longrightarrow> map_option fst (Trie_Get (st_Trie (w_state W1)) k) = Some (m k))"
proof -
  let ?c = "object_at W r" and ?d = "put_code P (object_at W r) (w_db W)"
  let ?e = "StateObject_RlpEncode P ?c"
  have sha': "\<And>x. 32 \<le> length (sha3 P x)" using sha by simp
  have e: "?e \<noteq> [0]" "?e \<noteq> []" using StateObject_RlpEncode_length [of P ?c] by auto
  obtain t where t: "Trie_Update (sha3 P) (with_db ?d (st_Trie (w_state W))) (Address a) ?e = Some t"
    "ext (sha3 P) (cache (with_db ?d (st_Trie (w_state W)))) (cache t)"
    "sound (sha3 P) (cache t) \<Longrightarrow> trie_models (sha3 P) t (m(Address a := ?e))"
    using Trie_Update_models [OF sha' m e(1)] by metis
  let ?W1 = "set_state ((w_state W)\<lparr>st_Trie := t\<rparr>) (W\<lparr>w_db := ?d\<rparr>)"
  have W1: "UpdateStateObject P r W = Some ?W1" using t(1) a by (simp add: UpdateStateObject_def Let_def)
  have mt: "trie_models (sha3 P) t (m(Address a := ?e))" using t(3) sound [OF W1] by simp
  have "db (cache t) = ?d" using ext_db [OF t(2)] by (simp add: with_db_def)
  then have wd: "with_db ?d t = t" by (auto simp: with_db_def)
  obtain t2 where t2: "Trie_Get t (Address a) = Some (?e, t2)" using Trie_Get_models [OF mt, of "Address a"] by auto
  have "?d (CodeHash P ?c) = (if Code ?c = [] then None else Some (Code ?c))"
    using d sha [of "Code ?c"] by (auto simp: put_code_def CodeHash_def)
  from account_reads_back [of ?c P ?d, OF n b l this] obtain c' where
    c': "NewStateObjectFromBytes ?d (Address a) ?e = Some c'" "so_address c' = Address a" "Nonce c' = Nonce ?c"
      "Balance c' = Balance ?c" "Code c' = Code ?c" "Root (so_State c') = canon (Root (so_State ?c))"
    using a by auto
  have "Trie_Get (with_db (w_db (State_Empty ?W1)) (st_Trie (w_state (State_Empty ?W1)))) (Address a) = Some (?e, t2)"
    using wd t2 by (simp add: State_Empty_def set_state_def)
  then have "\<exists>W2 r'. GetStateObject a (State_Empty ?W1) = Some (Some r', W2) \<and> object_at W2 r' = c'"
    using c'(1) e(2) by (simp add: GetStateObject_def Let_def State_Empty_def set_state_def new_object_def
        cache_object_def object_at_def)
  then obtain W2 r' where g: "GetStateObject a (State_Empty ?W1) = Some (Some r', W2)" "object_at W2 r' = c'" by blast
  have "map_option fst (Trie_Get t k) = Some (m k)" if "k \<noteq> Address a" for k
    using Trie_Get_value [OF mt, of k] that by simp
  with W1 g c' a show ?thesis by (intro exI [of _ ?W1] exI [of _ W2] exI [of _ r']) simp
qed

lemmas length_first32_ge = eq_refl [OF length_first32 [symmetric]]

definition example_platform :: Platform where
  "example_platform = \<lparr>sha3 = first32, spare = [], depth = 9\<rparr>"

theorem account_reload_witness:
  "\<exists>W1 W2 r'. UpdateStateObject example_platform 0 example_world = Some W1 \<and>
    GetStateObject [7] (State_Empty W1) = Some (Some r', W2) \<and> Balance (object_at W2 r') = 5"
proof -
  let ?P = example_platform and ?W = example_world
  let ?c = "object_at ?W 0"
  have P: "sha3 ?P = first32" by (simp add: example_platform_def)
  have f: "Nonce ?c = 0" "Balance ?c = 5" "Code ?c = []" "so_address ?c = Address [7]"
    "st_Trie (w_state ?W) = Trie_New Map.empty (VStr [])" "w_db ?W = Map.empty"
    by (simp_all add: example_world_def object_at_def AddAmount_def NewStateObject_def)
  have t: "with_db (put_code ?P ?c (w_db ?W)) (st_Trie (w_state ?W)) = Trie_New Map.empty (VStr [])"
    by (simp add: f put_code_def CodeHash_def) (simp add: with_db_def Trie_New_def NewCache_def)
  have e: "StateObject_RlpEncode ?P ?c = [196, 128, 5, 128, 128]" by code_simp
  have sl: "case Trie_Update first32 (Trie_New Map.empty (VStr [])) (Address [7]) [196, 128, 5, 128, 128] of
      None \<Rightarrow> False | Some t \<Rightarrow> sound_list first32 [] (cache t)" by code_simp
  have "sound first32 (cache (st_Trie (w_state W1)))" if "UpdateStateObject ?P 0 ?W = Some W1" for W1
  proof -
    note upd = that
    obtain t1 where t1: "Trie_Update first32 (Trie_New Map.empty (VStr [])) (Address [7]) [196, 128, 5, 128, 128] = Some t1"
      "st_Trie (w_state W1) = t1"
    proof -
      have "Option.bind (Trie_Update first32 (Trie_New Map.empty (VStr [])) (Address [7]) [196, 128, 5, 128, 128])
          (\<lambda>t. Some (set_state ((w_state ?W)\<lparr>st_Trie := t\<rparr>) (?W\<lparr>w_db := put_code ?P ?c (w_db ?W)\<rparr>))) = Some W1"
        using upd unfolding UpdateStateObject_def Let_def t e f(4) P .
      then show thesis using that by (cases "Trie_Update first32 (Trie_New Map.empty (VStr [])) (Address [7]) [196, 128, 5, 128, 128]") auto
    qed
    have v: "[196, 128, 5, 128, 128] \<noteq> [0 :: byte]" by simp
    have "ext first32 (cache (Trie_New Map.empty (VStr []))) (cache t1)"
      using Trie_Update_models [OF length_first32_ge trie_models_New [of first32 Map.empty] v, of "Address [7]"] t1(1) by auto
    then have "db (cache t1) = Map.empty" using ext_db by (simp add: Trie_New_def NewCache_def)
    then show ?thesis using sl t1 by (intro sound_by_list [of _ "[]"]) simp_all
  qed
  then show ?thesis
    using account_reload [of ?P ?W 0 "\<lambda>_. []" "[7]"] trie_models_New [of first32 Map.empty] t e f P
      length_first32 by (simp add: Let_def) blast
qed

end
