(* ===== verification/Vm_Memory.thy ===== *)
theory Vm_Memory
  imports Byte_Util
begin

text \<open>
  The stack and the memory of the virtual machine, \<^verbatim>\<open>monkvm/stack.go\<close>. A stack is the list of its
  elements from the top down, so \<open>data[len(data) - k]\<close> is element \<open>k - 1\<close>. A memory is the slice
  \<open>store\<close> together with its capacity, which decides when an \<open>append\<close> moves it to a new array;
  \<open>growslice\<close> is the capacity the Go runtime chooses then, from the old capacity and the new length.
\<close>

section \<open>Stack\<close>

type_synonym Stack = "int list"

definition require :: "nat \<Rightarrow> Stack \<Rightarrow> unit option" where
  "require m st = (if length st < m then None else Some ())"

fun Stack_Pop :: "Stack \<Rightarrow> (int \<times> Stack) option" where
  "Stack_Pop [] = None"
| "Stack_Pop (x # st) = Some (x, st)"

text \<open>The second element comes first in the result.\<close>

fun Stack_Popn :: "Stack \<Rightarrow> (int \<times> int \<times> Stack) option" where
  "Stack_Popn (y # x # st) = Some (x, y, st)"
| "Stack_Popn _ = None"

definition Stack_Peek :: "Stack \<Rightarrow> int option" where
  "Stack_Peek st = index_go st 0"

fun Stack_Peekn :: "Stack \<Rightarrow> (int \<times> int) option" where
  "Stack_Peekn (y # x # st) = Some (x, y)"
| "Stack_Peekn _ = None"

text \<open>\<open>data[len(data) - k]\<close>.\<close>

definition from_top :: "nat \<Rightarrow> Stack \<Rightarrow> int option" where
  "from_top k st = (if k = 0 then None else index_go st (k - 1))"

definition Stack_Push :: "int \<Rightarrow> Stack \<Rightarrow> Stack" where
  "Stack_Push d st = d # st"

definition Stack_Swapn :: "nat \<Rightarrow> Stack \<Rightarrow> Stack option" where
  "Stack_Swapn n st = do {
     x \<leftarrow> from_top n st;
     y \<leftarrow> from_top 1 st;
     Some (st[n - 1 := y, 0 := x]) }"

definition Stack_Dupn :: "nat \<Rightarrow> Stack \<Rightarrow> Stack option" where
  "Stack_Dupn n st = do { x \<leftarrow> from_top n st; Some (Stack_Push x st) }"

definition Stack_Get :: "int \<Rightarrow> Stack \<Rightarrow> int list option" where
  "Stack_Get amount st =
     (let l = int (length st) in
      if amount \<le> l then
        let start = big_Int64 (l - amount) in
        if 0 \<le> start \<and> start \<le> l then Some (drop (nat start) (rev st)) else None
      else Some [])"

section \<open>Memory\<close>

record Memory =
  store :: bytes
  mem_cap :: nat

definition NewMemory :: Memory where
  "NewMemory = \<lparr>store = [], mem_cap = 0\<rparr>"

type_synonym growslice = "nat \<Rightarrow> nat \<Rightarrow> nat"

text \<open>\<open>append\<close> of \<open>n\<close> zero bytes.\<close>

definition append_zeros :: "growslice \<Rightarrow> nat \<Rightarrow> Memory \<Rightarrow> Memory" where
  "append_zeros growslice n m =
     (let len = length (store m) + n
      in \<lparr>store = store m @ replicate n 0,
          mem_cap = (if len \<le> mem_cap m then mem_cap m else growslice (mem_cap m) len)\<rparr>)"

definition moved :: "Memory \<Rightarrow> Memory \<Rightarrow> bool" where
  "moved m m' = (mem_cap m < length (store m'))"

text \<open>\<open>copy(s[a:b], value)\<close>.\<close>

definition copy_into :: "bytes \<Rightarrow> nat \<Rightarrow> nat \<Rightarrow> bytes \<Rightarrow> bytes" where
  "copy_into s a b value =
     (let v = take (b - a) value in take a s @ v @ drop (a + length v) s)"

definition Memory_Set :: "growslice \<Rightarrow> Memory \<Rightarrow> int \<Rightarrow> int \<Rightarrow> bytes \<Rightarrow> Memory option" where
  "Memory_Set growslice m offset sz value =
     (let totSize = int64 (offset + sz);
          lenSize = int (length (store m)) - 1;
          diff = int64 (totSize - lenSize);
          m = (if totSize > lenSize \<and> diff > 0 then append_zeros growslice (nat (diff - 1)) m else m)
      in if 0 \<le> offset \<and> offset \<le> totSize \<and> totSize \<le> int (length (store m))
         then Some (m\<lparr>store := copy_into (store m) (nat offset) (nat totSize) value\<rparr>)
         else None)"

definition Memory_Resize :: "growslice \<Rightarrow> Memory \<Rightarrow> nat \<Rightarrow> Memory" where
  "Memory_Resize growslice m sz =
     (if length (store m) < sz then append_zeros growslice (sz - length (store m)) m else m)"

text \<open>\<open>math.Min\<close> of the two floats is exact as long as the memory is shorter than \<open>2 ^ 53\<close> bytes.\<close>

definition Memory_Get :: "Memory \<Rightarrow> int \<Rightarrow> int \<Rightarrow> bytes option" where
  "Memory_Get m offset sz =
     (let len = int (length (store m)) in
      if len > offset then
        let e = min len (int64 (offset + sz)) in
        if 0 \<le> offset \<and> offset \<le> e then Some (take (nat (e - offset)) (drop (nat offset) (store m))) else None
      else Some [])"

definition Memory_Len :: "Memory \<Rightarrow> nat" where
  "Memory_Len m = length (store m)"

section \<open>Laws\<close>

lemma length_append_zeros [simp]: "length (store (append_zeros g n m)) = length (store m) + n"
  by (simp add: append_zeros_def Let_def)

lemma length_copy_into: "a \<le> b \<Longrightarrow> b \<le> length s \<Longrightarrow> length (copy_into s a b value) = length s"
  by (simp add: copy_into_def Let_def)

lemma copy_into_read:
  assumes "a + length value \<le> b" and "b \<le> length s"
  shows "take (length value) (drop a (copy_into s a b value)) = value"
  using assms by (simp add: copy_into_def Let_def)

lemma copy_into_frame:
  assumes "i < length s" and "b \<le> length s" and "a \<le> b" and "i < a \<or> b \<le> i"
  shows "copy_into s a b value ! i = s ! i"
proof (cases "i < a")
  case False
  let ?v = "take (b - a) value"
  have "b \<le> i" "length ?v \<le> b - a" using assms(4) False by simp_all
  then have v: "a + length ?v \<le> i" "\<not> i - a < length ?v" using assms(3) by linarith+
  moreover have "length (take a s) = a" using assms(2,3) by simp
  ultimately show ?thesis using assms(1,2,3) False by (simp add: copy_into_def Let_def nth_append del: length_take)
qed (use assms in \<open>simp add: copy_into_def Let_def nth_append\<close>)

text \<open>What a write within the range of \<open>int64\<close> does: the memory grows to the end of the area
  written, and nothing else changes.\<close>

lemma Memory_Set_in_range:
  assumes "0 \<le> offset" and "0 \<le> sz" and "offset + sz < 2 ^ 63 - 1" and "int (length (store m)) < 2 ^ 63"
  obtains m' where "Memory_Set g m offset sz value = Some m'"
    "store m' = copy_into (store m @ replicate (nat (offset + sz) - length (store m)) 0)
      (nat offset) (nat (offset + sz)) value"
proof -
  have tot: "int64 (offset + sz) = offset + sz" using assms by (intro int64_id) simp_all
  have diff: "int64 (offset + sz - (int (length (store m)) - 1)) = offset + sz - (int (length (store m)) - 1)"
    using assms by (intro int64_id) simp_all
  show thesis
  proof (cases "int (length (store m)) - 1 < offset + sz")
    case True
    let ?n = "nat (offset + sz - (int (length (store m)) - 1) - 1)"
    have n: "?n = nat (offset + sz) - length (store m)" "0 < offset + sz - (int (length (store m)) - 1)"
      "nat (offset + sz) \<le> length (store m) + ?n" using True by linarith+
    then have "offset + sz \<le> int (length (store m) + ?n)" by linarith
    then show thesis using that True assms(1,2) n
      by (simp add: Memory_Set_def Let_def tot diff) (simp add: append_zeros_def Let_def)
  next
    case False
    then have "nat (offset + sz) - length (store m) = 0" "offset + sz \<le> int (length (store m))" by linarith+
    then show thesis using that False assms(1,2) by (simp add: Memory_Set_def Let_def tot)
  qed
qed

lemma Memory_Get_in_range:
  assumes "0 \<le> offset" and "0 \<le> sz" and "offset + sz \<le> int (length (store m))" and "int (length (store m)) < 2 ^ 63"
  shows "Memory_Get m offset sz = Some (take (nat sz) (drop (nat offset) (store m)))"
proof -
  have "int64 (offset + sz) = offset + sz" using assms by (intro int64_id) simp_all
  then show ?thesis using assms by (cases "offset < int (length (store m))") (simp_all add: Memory_Get_def Let_def)
qed

text \<open>A read of as many bytes as asked for is a read within the memory.\<close>

lemma Memory_Get_full:
  assumes "Memory_Get m b 32 = Some w" and "length w = 32" and "int (length (store m)) < 2 ^ 63"
  shows "0 \<le> b \<and> b + 32 \<le> int (length (store m)) \<and> w = take 32 (drop (nat b) (store m))"
proof -
  let ?e = "min (int (length (store m))) (int64 (b + 32))"
  have g: "b < int (length (store m))" "0 \<le> b" "b \<le> ?e" "w = take (nat (?e - b)) (drop (nat b) (store m))"
    using assms(1,2) by (auto simp: Memory_Get_def Let_def split: if_splits)
  have "32 \<le> nat (?e - b)" "32 \<le> length (store m) - nat b" using g(4) assms(2) by auto
  then have "b + 32 \<le> int (length (store m))" "b + 32 \<le> ?e" using g(2,3) by linarith+
  moreover from this have "int64 (b + 32) = b + 32" using g(2) assms(3) by (intro int64_id) simp_all
  ultimately have "?e = b + 32" "b + 32 \<le> int (length (store m))" by linarith+
  then show ?thesis using g by simp
qed

text \<open>What the instructions that store and load words rely on.\<close>

locale word_store =
  fixes put :: "'m \<Rightarrow> int \<Rightarrow> bytes \<Rightarrow> 'm option" and get :: "'m \<Rightarrow> int \<Rightarrow> bytes option" and ok :: "'m \<Rightarrow> int \<Rightarrow> bool"
  assumes put_ok: "ok m a \<Longrightarrow> length v = 32 \<Longrightarrow> \<exists>m'. put m a v = Some m'"
    and get_put: "ok m a \<Longrightarrow> length v = 32 \<Longrightarrow> put m a v = Some m' \<Longrightarrow> get m' a = Some v"
    and get_put_apart: "ok m a \<Longrightarrow> length v = 32 \<Longrightarrow> put m a v = Some m' \<Longrightarrow> get m b = Some w \<Longrightarrow>
      length w = 32 \<Longrightarrow> \<bar>a - b\<bar> \<ge> 32 \<Longrightarrow> get m' b = Some w"
begin

text \<open>Numbers stored as words are read back.\<close>

lemma number_read_back:
  assumes "ok m a" and "0 \<le> x" and "x < 2 ^ 256"
  shows "\<exists>m'. put m a (BigToBytes x 256) = Some m' \<and> map_option BigD (get m' a) = Some x"
  using put_ok [OF assms(1)] get_put [OF assms(1)] assms(2,3) length_BigToBytes_256 [of x] by fastforce

lemma number_kept:
  assumes "ok m a" and "\<bar>x\<bar> < 2 ^ 256" and "put m a (BigToBytes x 256) = Some m'" and "get m b = Some w"
    and "length w = 32" and "\<bar>a - b\<bar> \<ge> 32"
  shows "map_option BigD (get m' b) = Some (BigD w)"
  using get_put_apart [OF assms(1) length_BigToBytes_256 [OF assms(2)] assms(3-6)] by simp

end

definition word_fits :: "Memory \<Rightarrow> int \<Rightarrow> bool" where
  "word_fits m a = (0 \<le> a \<and> a + 32 < 2 ^ 63 - 1 \<and> int (length (store m)) < 2 ^ 63)"

lemma copy_into_apart:
  assumes "a \<le> b" and "b \<le> length s" and "p + n \<le> length s" and "p + n \<le> a \<or> b \<le> p"
  shows "take n (drop p (copy_into s a b value)) = take n (drop p s)"
proof (intro nth_equalityI)
  show "length (take n (drop p (copy_into s a b value))) = length (take n (drop p s))"
    using assms by (simp add: length_copy_into)
  fix i assume "i < length (take n (drop p (copy_into s a b value)))"
  then have "i < n" using assms by (simp add: length_copy_into)
  then show "take n (drop p (copy_into s a b value)) ! i = take n (drop p s) ! i"
    using assms copy_into_frame [of "p + i" s b a "value"] by (auto simp: length_copy_into)
qed

interpretation memory: word_store
  "\<lambda>m a. Memory_Set g m a 32" "\<lambda>m a. Memory_Get m a 32" word_fits for g
proof unfold_locales
  fix m m' :: Memory and a b :: int and v w :: bytes
  assume ok: "word_fits m a" and v: "length v = 32"
  have r: "0 \<le> a" "a + 32 < 2 ^ 63 - 1" "int (length (store m)) < 2 ^ 63" using ok by (simp_all add: word_fits_def)
  let ?s = "store m @ replicate (nat (a + 32) - length (store m)) 0"
  obtain m1 where m1: "Memory_Set g m a 32 v = Some m1" "store m1 = copy_into ?s (nat a) (nat (a + 32)) v"
    by (rule Memory_Set_in_range [of a 32 m g v]) (use r in simp_all)
  then show "\<exists>m'. Memory_Set g m a 32 v = Some m'" by blast
  have n: "nat a + 32 = nat (a + 32)" "nat (a + 32) \<le> length ?s" "length ?s = max (length (store m)) (nat (a + 32))"
    using r(1) by simp_all
  have l1: "length (store m1) = length ?s" using m1(2) n(1,2) by (simp add: length_copy_into)
  then have b1: "int (length (store m1)) < 2 ^ 63" "a + 32 \<le> int (length (store m1))" using r n(3) by simp_all
  { assume "Memory_Set g m a 32 v = Some m'"
    then have "m' = m1" using m1(1) by simp
    moreover have "Memory_Get m1 a 32 = Some (take (nat 32) (drop (nat a) (store m1)))"
      using r b1 by (intro Memory_Get_in_range) simp_all
    moreover have "take 32 (drop (nat a) (store m1)) = v"
      using copy_into_read [of "nat a" v "nat (a + 32)" ?s] n v m1(2) by simp
    ultimately show "Memory_Get m' a 32 = Some v" by simp }
  { assume p: "Memory_Set g m a 32 v = Some m'" and g: "Memory_Get m b 32 = Some w" "length w = 32"
      and ap: "32 \<le> \<bar>a - b\<bar>"
    have m': "m' = m1" using p m1(1) by simp
    have w: "0 \<le> b" "b + 32 \<le> int (length (store m))" "w = take 32 (drop (nat b) (store m))"
      using Memory_Get_full [OF g r(3)] by simp_all
    have "Memory_Get m1 b 32 = Some (take (nat 32) (drop (nat b) (store m1)))"
      by (rule Memory_Get_in_range) (use w(1,2) b1(1) l1 n(3) in linarith)+
    moreover have "take 32 (drop (nat b) (store m1)) = take 32 (drop (nat b) ?s)"
      unfolding m1(2) using n w(1,2) ap r(1) by (intro copy_into_apart) linarith+
    moreover have "take 32 (drop (nat b) ?s) = w" using w by (simp add: take_drop)
    ultimately show "Memory_Get m' b 32 = Some w" using m' by simp }
qed

end
