(* ===== verification/Opcode.thy ===== *)
theory Opcode
  imports Trie_Encoding
begin

text \<open>
  The instruction set, \<^verbatim>\<open>monkvm/types.go\<close> and \<^verbatim>\<open>monkvm/asm.go\<close>: the numbering of the instructions, their
  names, the table for an assembler and the disassembler. The constants of one family are one
  constructor with its index, so \<open>PUSH7\<close> is \<open>PUSH 7\<close>.
\<close>

section \<open>Instructions\<close>

datatype OpCode =
      STOP | ADD | MUL | SUB | DIV | SDIV | MOD | SMOD | EXP | NEG | LT | GT | SLT | SGT | EQ | NOT
    | AND | OR | XOR | BYTE | ADDMOD | MULMOD | SHA3 | RLPDECODE | RLPENCODE | ADDRESS | BALANCE
    | ORIGIN | CALLER | CALLVALUE | CALLDATALOAD | CALLDATASIZE | CALLDATACOPY | CODESIZE | CODECOPY
    | GASPRICE | EXTCODECOPY | EXTCODESIZE | CALLSTACK | CALLSTACKSIZE | NONCE | PREVHASH | COINBASE
    | TIMESTAMP | NUMBER | DIFFICULTY | GASLIMIT | GENDOUG | POP | MLOAD | MSTORE | MSTORE8 | SLOAD
    | SSTORE | JUMP | JUMPI | PC | MSIZE | GAS | PUSH nat | DUP nat | SWAP nat | CREATE | CALL | RETURN
    | POST | CALLSTATELESS | LOGSTACK | LOGMEM | SUICIDE | Undefined nat

text \<open>The ranges of consecutive numbers.\<close>

definition arith_range :: "OpCode list" where
  "arith_range = [STOP, ADD, MUL, SUB, DIV, SDIV, MOD, SMOD, EXP, NEG, LT, GT, SLT, SGT, EQ, NOT]"

definition bit_range :: "OpCode list" where
  "bit_range = [AND, OR, XOR, BYTE, ADDMOD, MULMOD]"

definition crypto_range :: "OpCode list" where
  "crypto_range = [SHA3, RLPDECODE, RLPENCODE]"

definition closure_range :: "OpCode list" where
  "closure_range =
    [ADDRESS, BALANCE, ORIGIN, CALLER, CALLVALUE, CALLDATALOAD, CALLDATASIZE, CALLDATACOPY, CODESIZE, CODECOPY,
   GASPRICE, EXTCODECOPY, EXTCODESIZE, CALLSTACK, CALLSTACKSIZE, NONCE]"

definition block_range :: "OpCode list" where
  "block_range = [PREVHASH, COINBASE, TIMESTAMP, NUMBER, DIFFICULTY, GASLIMIT, GENDOUG]"

definition storage_range :: "OpCode list" where
  "storage_range = [MLOAD, MSTORE, MSTORE8, SLOAD, SSTORE, JUMP, JUMPI, PC, MSIZE, GAS]"

definition call_range :: "OpCode list" where
  "call_range = [CREATE, CALL, RETURN, POST, CALLSTATELESS]"

definition in_range :: "nat \<Rightarrow> nat \<Rightarrow> OpCode list \<Rightarrow> OpCode option" where
  "in_range n base ops = (if base \<le> n \<and> n < base + length ops then Some (ops ! (n - base)) else None)"

definition OpCode_of :: "nat \<Rightarrow> OpCode" where
  "OpCode_of n =
     (case in_range n 0x00 arith_range of Some op \<Rightarrow> op | None \<Rightarrow>
      case in_range n 0x10 bit_range of Some op \<Rightarrow> op | None \<Rightarrow>
      case in_range n 0x20 crypto_range of Some op \<Rightarrow> op | None \<Rightarrow>
      case in_range n 0x30 closure_range of Some op \<Rightarrow> op | None \<Rightarrow>
      case in_range n 0x40 block_range of Some op \<Rightarrow> op | None \<Rightarrow>
      if n = 0x50 then POP else
      case in_range n 0x53 storage_range of Some op \<Rightarrow> op | None \<Rightarrow>
      if 0x60 \<le> n \<and> n < 0x80 then PUSH (n - 0x60 + 1)
      else if 0x80 \<le> n \<and> n < 0x90 then DUP (n - 0x80 + 1)
      else if 0x90 \<le> n \<and> n < 0xa0 then SWAP (n - 0x90 + 1)
      else case in_range n 0xf0 call_range of Some op \<Rightarrow> op | None \<Rightarrow>
      if n = 0xfd then LOGSTACK else if n = 0xfe then LOGMEM else if n = 0xff then SUICIDE
      else Undefined n)"

section \<open>Names\<close>

text \<open>Numbers below 100 in decimal and below 256 in hexadecimal.\<close>

definition decimal :: "nat \<Rightarrow> string" where
  "decimal n =
     (let digit = (\<lambda>k. ''0123456789'' ! k)
      in if n < 10 then [digit n] else [digit (n div 10), digit (n mod 10)])"

definition hex_number :: "nat \<Rightarrow> string" where
  "hex_number n =
     (let digit = (\<lambda>k. ''0123456789abcdef'' ! k)
      in if n < 16 then [digit n] else [digit (n div 16), digit (n mod 16)])"

text \<open>An instruction that the map does not list has the empty string.\<close>

primrec opCodeToString :: "OpCode \<Rightarrow> string" where
  "opCodeToString STOP = ''STOP''"
| "opCodeToString ADD = ''ADD''"
| "opCodeToString MUL = ''MUL''"
| "opCodeToString SUB = ''SUB''"
| "opCodeToString DIV = ''DIV''"
| "opCodeToString SDIV = ''SDIV''"
| "opCodeToString MOD = ''MOD''"
| "opCodeToString SMOD = ''SMOD''"
| "opCodeToString EXP = ''EXP''"
| "opCodeToString NEG = ''NEG''"
| "opCodeToString LT = ''LT''"
| "opCodeToString GT = ''GT''"
| "opCodeToString SLT = ''SLT''"
| "opCodeToString SGT = ''SGT''"
| "opCodeToString EQ = ''EQ''"
| "opCodeToString NOT = ''NOT''"
| "opCodeToString AND = ''AND''"
| "opCodeToString OR = ''OR''"
| "opCodeToString XOR = ''XOR''"
| "opCodeToString BYTE = ''BYTE''"
| "opCodeToString ADDMOD = ''ADDMOD''"
| "opCodeToString MULMOD = ''MULMOD''"
| "opCodeToString SHA3 = ''SHA3''"
| "opCodeToString RLPDECODE = ''RLPDECODE''"
| "opCodeToString RLPENCODE = ''RLPENCODE''"
| "opCodeToString ADDRESS = ''ADDRESS''"
| "opCodeToString BALANCE = ''BALANCE''"
| "opCodeToString ORIGIN = ''ORIGIN''"
| "opCodeToString CALLER = ''CALLER''"
| "opCodeToString CALLVALUE = ''CALLVALUE''"
| "opCodeToString CALLDATALOAD = ''CALLDATALOAD''"
| "opCodeToString CALLDATASIZE = ''CALLDATASIZE''"
| "opCodeToString CALLDATACOPY = ''CALLDATACOPY''"
| "opCodeToString CODESIZE = ''CODESIZE''"
| "opCodeToString CODECOPY = ''CODECOPY''"
| "opCodeToString GASPRICE = ''TXGASPRICE''"
| "opCodeToString EXTCODECOPY = ''EXTCODECOPY''"
| "opCodeToString EXTCODESIZE = ''EXTCODESIZE''"
| "opCodeToString CALLSTACK = ''CALLSTACK''"
| "opCodeToString CALLSTACKSIZE = ''CALLSTACKSIZE''"
| "opCodeToString NONCE = ''NONCE''"
| "opCodeToString PREVHASH = ''PREVHASH''"
| "opCodeToString COINBASE = ''COINBASE''"
| "opCodeToString TIMESTAMP = ''TIMESTAMP''"
| "opCodeToString NUMBER = ''NUMBER''"
| "opCodeToString DIFFICULTY = ''DIFFICULTY''"
| "opCodeToString GASLIMIT = ''GASLIMIT''"
| "opCodeToString GENDOUG = ''GENDOUG''"
| "opCodeToString POP = ''POP''"
| "opCodeToString MLOAD = ''MLOAD''"
| "opCodeToString MSTORE = ''MSTORE''"
| "opCodeToString MSTORE8 = ''MSTORE8''"
| "opCodeToString SLOAD = ''SLOAD''"
| "opCodeToString SSTORE = ''SSTORE''"
| "opCodeToString JUMP = ''JUMP''"
| "opCodeToString JUMPI = ''JUMPI''"
| "opCodeToString PC = ''PC''"
| "opCodeToString MSIZE = ''MSIZE''"
| "opCodeToString GAS = ''GAS''"
| "opCodeToString (PUSH n) = ''PUSH'' @ decimal n"
| "opCodeToString (DUP n) = ''DUP'' @ decimal n"
| "opCodeToString (SWAP n) = ''SWAP'' @ decimal n"
| "opCodeToString CREATE = ''CREATE''"
| "opCodeToString CALL = ''CALL''"
| "opCodeToString RETURN = ''RETURN''"
| "opCodeToString POST = ''POST''"
| "opCodeToString CALLSTATELESS = ''CALLSTATELESS''"
| "opCodeToString LOGSTACK = ''LOGSTACK''"
| "opCodeToString LOGMEM = ''LOGMEM''"
| "opCodeToString SUICIDE = ''SUICIDE''"
| "opCodeToString (Undefined n) = []"

definition OpCode_String :: "nat \<Rightarrow> string" where
  "OpCode_String n =
     (let str = opCodeToString (OpCode_of n)
      in if length str = 0 then ''Missing opcode 0x'' @ hex_number n else str)"

text \<open>The table for an assembler.\<close>

definition OpCodes :: "(string \<times> byte) list" where
  "OpCodes =
    [(''STOP'', 0x00), (''ADD'', 0x01), (''MUL'', 0x02), (''SUB'', 0x03),
     (''DIV'', 0x04), (''SDIV'', 0x05), (''MOD'', 0x06), (''SMOD'', 0x07),
     (''EXP'', 0x08), (''NEG'', 0x09), (''LT'', 0x0a), (''GT'', 0x0b), (''EQ'', 0x0c),
     (''NOT'', 0x0d), (''AND'', 0x10), (''OR'', 0x11), (''XOR'', 0x12), (''BYTE'', 0x13),
     (''ADDMOD'', 0x14), (''MULMOD'', 0x15), (''SHA3'', 0x20), (''RLPDECODE'', 0x21),
     (''RLPENCODE'', 0x22), (''ADDRESS'', 0x30), (''BALANCE'', 0x31), (''ORIGIN'', 0x32),
     (''CALLER'', 0x33), (''CALLVALUE'', 0x34), (''CALLDATALOAD'', 0x35),
     (''CALLDATASIZE'', 0x36), (''CALLDATACOPY'', 0x37), (''CODESIZE'', 0x38),
     (''CODECOPY'', 0x39), (''GASPRICE'', 0x3a), (''EXTCODECOPY'', 0x3b),
     (''EXTCODESIZE'', 0x3c), (''CALLSTACK'', 0x3d), (''CALLSTACKSIZE'', 0x3e),
     (''NONCE'', 0x3f), (''PREVHASH'', 0x40), (''COINBASE'', 0x41), (''TIMESTAMP'', 0x42),
     (''NUMBER'', 0x43), (''DIFFICULTY'', 0x44), (''GASLIMIT'', 0x45), (''GENDOUG'', 0x46),
     (''POP'', 0x51), (''DUP'', 0x52), (''SWAP'', 0x53), (''MLOAD'', 0x54),
     (''MSTORE'', 0x55), (''MSTORE8'', 0x56), (''SLOAD'', 0x57), (''SSTORE'', 0x58),
     (''JUMP'', 0x59), (''JUMPI'', 0x5a), (''PC'', 0x5b), (''MSIZE'', 0x5c),
     (''PUSH1'', 0x60), (''PUSH2'', 0x61), (''PUSH3'', 0x62), (''PUSH4'', 0x63),
     (''PUSH5'', 0x64), (''PUSH6'', 0x65), (''PUSH7'', 0x66), (''PUSH8'', 0x67),
     (''PUSH9'', 0x68), (''PUSH10'', 0x69), (''PUSH11'', 0x6a), (''PUSH12'', 0x6b),
     (''PUSH13'', 0x6c), (''PUSH14'', 0x6d), (''PUSH15'', 0x6e), (''PUSH16'', 0x6f),
     (''PUSH17'', 0x70), (''PUSH18'', 0x71), (''PUSH19'', 0x72), (''PUSH20'', 0x73),
     (''PUSH21'', 0x74), (''PUSH22'', 0x75), (''PUSH23'', 0x76), (''PUSH24'', 0x77),
     (''PUSH25'', 0x78), (''PUSH26'', 0x70), (''PUSH27'', 0x7a), (''PUSH28'', 0x7b),
     (''PUSH29'', 0x7c), (''PUSH30'', 0x7d), (''PUSH31'', 0x7e), (''PUSH32'', 0x7f),
     (''DUP1'', 0x80), (''DUP2'', 0x81), (''DUP3'', 0x82), (''DUP4'', 0x83),
     (''DUP5'', 0x84), (''DUP6'', 0x85), (''DUP7'', 0x86), (''DUP8'', 0x87),
     (''DUP9'', 0x88), (''DUP10'', 0x89), (''DUP11'', 0x8a), (''DUP12'', 0x8b),
     (''DUP13'', 0x8c), (''DUP14'', 0x8d), (''DUP15'', 0x8e), (''DUP16'', 0x8f),
     (''SWAP1'', 0x90), (''SWAP2'', 0x91), (''SWAP3'', 0x92), (''SWAP4'', 0x93),
     (''SWAP5'', 0x94), (''SWAP6'', 0x95), (''SWAP7'', 0x96), (''SWAP8'', 0x97),
     (''SWAP9'', 0x98), (''SWAP10'', 0x99), (''SWAP11'', 0x9a), (''SWAP12'', 0x9b),
     (''SWAP13'', 0x9c), (''SWAP14'', 0x9d), (''SWAP15'', 0x9e), (''SWAP16'', 0x9f),
     (''CREATE'', 0xf0), (''CALL'', 0xf1), (''RETURN'', 0xf2), (''POST'', 0xf3),
     (''CALLSTATELESS'', 0xf4), (''LOGSTACK'', 0xfd), (''LOGMEM'', 0xfe), (''SUICIDE'', 0x7f)]"

definition IsOpCode :: "string \<Rightarrow> bool" where
  "IsOpCode s = (s \<in> fst ` set OpCodes)"

section \<open>The disassembler\<close>

text \<open>The output up to an instruction, then the rest of the script from there. The result is empty when the
  operand of a \<open>PUSH\<close> is cut off.\<close>

function disassemble_from :: "bytes \<Rightarrow> nat \<Rightarrow> string list \<Rightarrow> string list" where
  "disassemble_from script pc asm =
     (if length script \<le> pc then asm
      else
        let v = unat (script ! pc); asm = asm @ [OpCode_String v] in
        case OpCode_of v of
          PUSH a \<Rightarrow>
            if length script < pc + 1 + a then []
            else
              let data = take a (drop (pc + 1) script);
                  data = (if data = [] then [0] else data)
              in disassemble_from script (pc + 1 + (a - 1) + 1) (asm @ [''0x'' @ map (\<lambda>b. char_of (unat b)) (Bytes2Hex data)])
        | _ \<Rightarrow> disassemble_from script (pc + 1) asm)"
  by pat_completeness auto
termination disassemble_from
  by (relation "measure (\<lambda>(script, pc, _). length script - pc)") auto

declare disassemble_from.simps [simp del]

definition Disassemble :: "bytes \<Rightarrow> string list" where
  "Disassemble script = disassemble_from script 0 []"

section \<open>Properties\<close>

text \<open>The table for an assembler and the machine disagree. These are all its entries that do not
  give the instruction of that name: the comparisons and the storage group are off by the entries that were
  inserted or left out, one \<open>PUSH\<close> is \<open>PUSH17\<close> and \<open>SUICIDE\<close> is \<open>PUSH32\<close>.\<close>

theorem assembler_mismatches:
  "filter (\<lambda>(s, b). OpCode_String (unat b) \<noteq> s) OpCodes =
    [(''EQ'', 0x0c), (''NOT'', 0x0d), (''GASPRICE'', 0x3a), (''POP'', 0x51), (''DUP'', 0x52), (''SWAP'', 0x53),
     (''MLOAD'', 0x54), (''MSTORE'', 0x55), (''MSTORE8'', 0x56), (''SLOAD'', 0x57), (''SSTORE'', 0x58),
     (''JUMP'', 0x59), (''JUMPI'', 0x5a), (''PC'', 0x5b), (''MSIZE'', 0x5c), (''PUSH26'', 0x70), (''SUICIDE'', 0x7f)]"
  by (simp add: OpCodes_def OpCode_String_def OpCode_of_def in_range_def arith_range_def bit_range_def crypto_range_def
      closure_range_def block_range_def storage_range_def call_range_def decimal_def hex_number_def Let_def)

end
