(* ===== verification/Vm_Closure.thy ===== *)
theory Vm_Closure
  imports State Vm_Memory Opcode
begin

text \<open>
  What the virtual machine runs and what it runs on: closures (\<^verbatim>\<open>monkvm/closure.go\<close>), the gas prices
  (\<^verbatim>\<open>monkvm/common.go\<close>), the native contracts (\<^verbatim>\<open>monkvm/address.go\<close>) and the environment interface of
  \<^verbatim>\<open>monkvm/vm.go\<close>.

  Accounts are pointers into the heap of \<^theory_text>\<open>State\<close>; the caller of a closure, a closure or an account, is
  its account, the only part of it that the machine looks at. What a caller gets back through \<open>ReturnGas\<close> is
  a result of the run (see \<^theory_text>\<open>Vm_Run\<close>), because gas is the only thing a closure shares with its caller.
\<close>

section \<open>Platform\<close>

text \<open>Functions of other packages: \<open>Sha256\<close>, \<open>Ripemd160\<close>, the recovery of a public key (\<open>None\<close> if it
  panics). \<open>growslice\<close> is the allocation policy of the Go runtime, and \<open>behind\<close> gives the bytes between
  the length and the capacity of a slice that holds code.\<close>

record Runtime =
  platform :: Platform
  Sha256 :: "bytes \<Rightarrow> bytes"
  Ripemd160 :: "bytes \<Rightarrow> bytes"
  RecoverPubkey :: "bytes \<Rightarrow> bytes \<Rightarrow> bytes option"
  growslice :: growslice
  behind :: "bytes \<Rightarrow> bytes"

definition CreateAddress :: "Platform \<Rightarrow> bytes \<Rightarrow> nat \<Rightarrow> bytes option" where
  "CreateAddress P b nonce =
     (let h = sha3 P (Value_Encode (VList [VBytes b, VUint nonce])) in slice_go h 12 (length h))"

definition Ecrecover :: "Runtime \<Rightarrow> bytes \<Rightarrow> bytes option" where
  "Ecrecover R data = do {
     hash \<leftarrow> slice_go data 0 32;
     sig \<leftarrow> slice_go data 32 (length data);
     r \<leftarrow> RecoverPubkey R hash sig;
     if length r > 0 then
       let h = sha3 (platform R) (drop 1 r) in slice_go h 12 (length h)
     else Some r }"

text \<open>The environment: the transaction and the block that the code runs in. \<open>DougValidate\<close> reads the
  state, which may load accounts into its cache; it tells whether it returned no error. \<open>None\<close> is a panic.\<close>

record Environment =
  Origin :: bytes
  BlockNumber :: int
  PrevHash :: bytes
  Coinbase :: bytes
  Time :: int
  Difficulty :: int
  env_Value :: int
  BlockHash :: bytes
  Doug :: bytes
  DougValidate :: "bytes \<Rightarrow> bytes \<Rightarrow> World \<Rightarrow> (bool \<times> World) option"

section \<open>Gas prices\<close>

definition GasStep :: int where "GasStep = 1"
definition GasSha :: int where "GasSha = 20"
definition GasSLoad :: int where "GasSLoad = 20"
definition GasSStore :: int where "GasSStore = 100"
definition GasBalance :: int where "GasBalance = 20"
definition GasNonce :: int where "GasNonce = 20"
definition GasCreate :: int where "GasCreate = 100"
definition GasCall :: int where "GasCall = 20"
definition GasMemory :: int where "GasMemory = 1"
definition GasData :: int where "GasData = 5"
definition GasTx :: int where "GasTx = 500"
definition Pow256 :: int where "Pow256 = BigPow 2 256"

lemmas gas_prices =
  GasStep_def GasSha_def GasSLoad_def GasSStore_def GasBalance_def GasNonce_def GasCreate_def GasCall_def
  GasMemory_def GasData_def GasTx_def

section \<open>Native contracts\<close>

definition sha256Func :: "Runtime \<Rightarrow> bytes \<Rightarrow> bytes" where
  "sha256Func R inp = Sha256 R inp"

definition ripemd160Func :: "Runtime \<Rightarrow> bytes \<Rightarrow> bytes" where
  "ripemd160Func R inp = RightPadBytes (Ripemd160 R inp) 32"

definition ecrecoverFunc :: "Runtime \<Rightarrow> bytes \<Rightarrow> bytes" where
  "ecrecoverFunc R inp = (case Ecrecover R inp of None \<Rightarrow> [] | Some addr \<Rightarrow> LeftPadBytes addr 32)"

definition Precompiled :: "Runtime \<Rightarrow> (bytes \<times> int \<times> (bytes \<Rightarrow> bytes)) list" where
  "Precompiled R =
     [(lit ''ecrecover'', 500, ecrecoverFunc R), (lit ''sha256'', 100, sha256Func R),
      (lit ''ripemd160'', 100, ripemd160Func R)]"

section \<open>Closures\<close>

record Closure =
  cl_caller :: nat
  cl_object :: nat
  cl_Code :: bytes
  cl_message :: nat
  Gas :: int
  UsedGas :: int
  Price :: int
  Args :: bytes

definition NewClosure :: "nat \<Rightarrow> nat \<Rightarrow> nat \<Rightarrow> bytes \<Rightarrow> int \<Rightarrow> int \<Rightarrow> Closure" where
  "NewClosure msg caller obj code gas price =
     \<lparr>cl_caller = caller, cl_object = obj, cl_Code = code, cl_message = msg, Gas = gas, UsedGas = 0,
      Price = price, Args = []\<rparr>"

definition Closure_GetStorage :: "Closure \<Rightarrow> int \<Rightarrow> World \<Rightarrow> (gval \<times> World) option" where
  "Closure_GetStorage c x W = do {
     (v, obj) \<leftarrow> GetStorage (w_db W) (object_at W (cl_object c)) x;
     Some (v, change_object (cl_object c) (\<lambda>_. obj) W) }"

definition Closure_SetStorage :: "Closure \<Rightarrow> int \<Rightarrow> gval \<Rightarrow> World \<Rightarrow> World" where
  "Closure_SetStorage c x v W = change_object (cl_object c) (\<lambda>obj. SetStorage obj x v) W"

text \<open>\<open>Code[x : x + y]\<close> may reach into the array behind the code.\<close>

definition Gets :: "Runtime \<Rightarrow> Closure \<Rightarrow> int \<Rightarrow> int \<Rightarrow> gval option" where
  "Gets R c x y =
     (let len = int (length (cl_Code c)); a = big_Int64 x; b = big_Int64 y in
      if a \<ge> len \<or> b \<ge> len then Some (VInt 0)
      else
        let e = int64 (a + b) in
        if 0 \<le> a \<and> a \<le> e
        then map_option VBytes (slice_go (cl_Code c @ behind R (cl_Code c)) (nat a) (nat e))
        else None)"

definition Closure_Get :: "Runtime \<Rightarrow> Closure \<Rightarrow> int \<Rightarrow> gval option" where
  "Closure_Get R c x = Gets R c x 1"

definition Closure_Address :: "Closure \<Rightarrow> World \<Rightarrow> bytes" where
  "Closure_Address c W = so_address (object_at W (cl_object c))"

text \<open>The second result tells whether there was enough gas.\<close>

definition Closure_UseGas :: "int \<Rightarrow> Closure \<Rightarrow> bool \<times> Closure" where
  "Closure_UseGas gas c =
     (if Gas c < gas then (False, c) else (True, c\<lparr>Gas := Gas c - gas, UsedGas := UsedGas c + gas\<rparr>))"

text \<open>\<open>c.UseGas(c.Gas)\<close>: the argument is the very number that the subtraction clears, so nothing is
  added to \<open>UsedGas\<close>.\<close>

definition drain :: "Closure \<Rightarrow> Closure" where
  "drain c = c\<lparr>Gas := 0\<rparr>"

definition Closure_ReturnGas :: "int \<Rightarrow> Closure \<Rightarrow> Closure" where
  "Closure_ReturnGas gas c = c\<lparr>Gas := Gas c + gas, UsedGas := UsedGas c - gas\<rparr>"


section \<open>A platform and an environment for the examples\<close>

definition example_runtime :: Runtime where
  "example_runtime =
     \<lparr>platform = example_platform, Sha256 = first32, Ripemd160 = (\<lambda>x. take 20 (first32 x)), RecoverPubkey = (\<lambda>h s. None),
      growslice = (\<lambda>c n. n), behind = (\<lambda>code. [])\<rparr>"

definition example_environment :: Environment where
  "example_environment =
     \<lparr>Origin = Address [7], BlockNumber = 1, PrevHash = [], Coinbase = Address [9], Time = 0, Difficulty = 0, env_Value = 0,
      BlockHash = [], Doug = [], DougValidate = (\<lambda>addr role W. Some (True, W))\<rparr>"

end
