(* ===== verification/Vm.thy ===== *)
theory Vm
  imports Vm_Closure
begin

text \<open>
  One instruction of the virtual machine, \<open>RunClosure\<close> of \<^verbatim>\<open>monkvm/vm.go\<close>: fetch, gas, and the big switch.
  The instructions come in groups, each a definition that answers \<open>None\<close> for an instruction of another group.
  A call instruction stops at \<open>Call\<close> with the message to execute; \<^theory_text>\<open>Vm_Run\<close> executes it and resumes.

  A run-time panic is the outcome \<open>Panic\<close>; \<open>RunClosure\<close> recovers from it and keeps the changes made so far.
  \<open>Stuck\<close> marks the two places where the program does not go on or the model does not follow it: the loop of
  \<open>CREATE\<close> on an address that is taken, and \<open>RLPDECODE\<close> onto its own input. Allocation always succeeds here, and the debugger, the log
  and the difference log are left out.
\<close>

section \<open>State of the machine\<close>

datatype vm_error =
  Insufficient_gas | Invalid_opcode OpCode | Not_permitted | Rlp_not_list | Rlp_nested | Insufficient_funds | Recovered

text \<open>A message that \<open>POST\<close> has queued keeps a slice of the memory of its sender as input, so what it will
  say changes with that memory: \<open>pm_view\<close> is the offset and length of the slice until the memory moves or
  its closure ends.\<close>

record VmMessage =
  pm_address :: bytes
  pm_input :: bytes
  pm_view :: "(nat \<times> nat) option"
  pm_gas :: int
  pm_price :: int
  pm_value :: int

definition NewMessage :: "bytes \<Rightarrow> bytes \<Rightarrow> int \<Rightarrow> int \<Rightarrow> int \<Rightarrow> VmMessage" where
  "NewMessage address input gas gasPrice v =
     \<lparr>pm_address = address, pm_input = input, pm_view = None, pm_gas = gas, pm_price = gasPrice, pm_value = v\<rparr>"

record Vm =
  vm_world :: World
  vm_queue :: "VmMessage list"
  vm_callStack :: "bytes list"

record Frame =
  fr_closure :: Closure
  fr_stack :: Stack
  fr_mem :: Memory
  fr_pc :: int

datatype call_kind = Kind_Call State int int | Kind_Create State bytes

datatype stuck = Endless_loop | Overlapping

datatype outcome =
    Next Frame Vm
  | Halt bytes "vm_error option" Frame Vm
  | Panic Frame Vm
  | Call VmMessage bytes call_kind Frame Vm
  | Stuck stuck

definition detach :: "VmMessage list \<Rightarrow> VmMessage list" where
  "detach q = map (\<lambda>m. m\<lparr>pm_view := None\<rparr>) q"

definition refresh :: "bytes \<Rightarrow> VmMessage list \<Rightarrow> VmMessage list" where
  "refresh s q =
     map (\<lambda>m. case pm_view m of None \<Rightarrow> m | Some (a, l) \<Rightarrow> m\<lparr>pm_input := take l (drop a s)\<rparr>) q"

text \<open>The memory after a change, as the frame and the queued messages see it.\<close>

definition set_mem :: "Memory \<Rightarrow> Frame \<Rightarrow> Vm \<Rightarrow> Frame \<times> Vm" where
  "set_mem m F V =
     (let q = (if moved (fr_mem F) m then detach (vm_queue V) else vm_queue V)
      in (F\<lparr>fr_mem := m\<rparr>, V\<lparr>vm_queue := refresh (store m) q\<rparr>))"

definition write_mem :: "Runtime \<Rightarrow> int \<Rightarrow> int \<Rightarrow> bytes \<Rightarrow> Frame \<times> Vm \<Rightarrow> (Frame \<times> Vm) option" where
  "write_mem R offset sz v FV =
     (case FV of (F, V) \<Rightarrow> map_option (\<lambda>m. set_mem m F V) (Memory_Set (growslice R) (fr_mem F) offset sz v))"

definition read_mem :: "Frame \<Rightarrow> int \<Rightarrow> int \<Rightarrow> bytes option" where
  "read_mem F offset sz = Memory_Get (fr_mem F) (big_Int64 offset) (big_Int64 sz)"

definition advance :: "Frame \<Rightarrow> Frame" where
  "advance F = F\<lparr>fr_pc := fr_pc F + 1\<rparr>"

definition set_world :: "World \<Rightarrow> Vm \<Rightarrow> Vm" where
  "set_world W V = V\<lparr>vm_world := W\<rparr>"

section \<open>Gas\<close>

definition calcMemSize :: "int \<Rightarrow> int \<Rightarrow> int" where
  "calcMemSize off l = (if l = 0 then 0 else off + l)"

definition addStepGasUsage :: "int \<Rightarrow> int \<Rightarrow> int" where
  "addStepGasUsage amount gas = (if amount \<ge> 0 then gas + amount else gas)"

definition call_gas :: "Stack \<Rightarrow> (int \<times> int) option" where
  "call_gas st = do {
     require 7 st;
     g \<leftarrow> from_top 1 st;
     x0 \<leftarrow> from_top 6 st; x1 \<leftarrow> from_top 7 st;
     y0 \<leftarrow> from_top 4 st; y1 \<leftarrow> from_top 5 st;
     Some (addStepGasUsage g GasCall, BigMax (calcMemSize x0 x1) (calcMemSize y0 y1)) }"

text \<open>The gas of an instruction and the memory it needs, where they depend on the stack only.\<close>

definition stack_gas :: "OpCode \<Rightarrow> Stack \<Rightarrow> (int \<times> int) option" where
  "stack_gas op st =
     (case op of
        STOP \<Rightarrow> Some (0, 0)
      | SUICIDE \<Rightarrow> Some (0, 0)
      | SLOAD \<Rightarrow> Some (GasSLoad, 0)
      | BALANCE \<Rightarrow> Some (GasBalance, 0)
      | NONCE \<Rightarrow> Some (GasNonce, 0)
      | MSTORE \<Rightarrow> do { require 2 st; a \<leftarrow> Stack_Peek st; Some (GasStep, calcMemSize a 32) }
      | MLOAD \<Rightarrow> do { require 1 st; a \<leftarrow> Stack_Peek st; Some (GasStep, calcMemSize a 32) }
      | MSTORE8 \<Rightarrow> do { require 2 st; a \<leftarrow> Stack_Peek st; Some (GasStep, calcMemSize a 1) }
      | RETURN \<Rightarrow> do { require 2 st; a \<leftarrow> Stack_Peek st; l \<leftarrow> from_top 2 st; Some (GasStep, calcMemSize a l) }
      | SHA3 \<Rightarrow> do { require 2 st; a \<leftarrow> Stack_Peek st; l \<leftarrow> from_top 2 st; Some (GasSha, calcMemSize a l) }
      | CALLDATACOPY \<Rightarrow> do { require 2 st; a \<leftarrow> Stack_Peek st; l \<leftarrow> from_top 3 st; Some (GasStep, calcMemSize a l) }
      | CODECOPY \<Rightarrow> do { require 3 st; a \<leftarrow> Stack_Peek st; l \<leftarrow> from_top 3 st; Some (GasStep, calcMemSize a l) }
      | EXTCODECOPY \<Rightarrow> do { require 4 st; a \<leftarrow> from_top 2 st; l \<leftarrow> from_top 4 st; Some (GasStep, calcMemSize a l) }
      | CALL \<Rightarrow> call_gas st
      | CALLSTATELESS \<Rightarrow> call_gas st
      | RLPENCODE \<Rightarrow> do { require 3 st; Some (GasStep, 0) }
      | _ \<Rightarrow> Some (GasStep, 0))"

datatype charge = Charge int int Vm | Refuse vm_error Vm | Gas_Panic Vm

definition sstore_gas :: "Frame \<Rightarrow> Vm \<Rightarrow> charge" where
  "sstore_gas F V =
     (case do { (y, x) \<leftarrow> Stack_Peekn (fr_stack F);
               (v, W) \<leftarrow> Closure_GetStorage (fr_closure F) x (vm_world V); Some (y, v, W) } of
        None \<Rightarrow> Gas_Panic V
      | Some (y, v, W) \<Rightarrow>
          let mult = (if Value_BigInt v = 0 \<and> length (big_bytes y) > 0 then 2
                      else if Value_BigInt v \<noteq> 0 \<and> length (big_bytes y) = 0 then 0
                      else 1)
          in Charge (mult * GasSStore) 0 (set_world W V))"

definition create_gas :: "Environment \<Rightarrow> Frame \<Rightarrow> Vm \<Rightarrow> charge" where
  "create_gas E F V =
     (case (if BlockNumber E > 0 then DougValidate E (Origin E) (lit ''create'') (vm_world V)
            else Some (True, vm_world V)) of
        None \<Rightarrow> Gas_Panic V
      | Some (False, W) \<Rightarrow> Refuse Not_permitted (set_world W V)
      | Some (True, W) \<Rightarrow>
          (case do { require 3 (fr_stack F); a \<leftarrow> from_top 2 (fr_stack F); l \<leftarrow> from_top 3 (fr_stack F);
                    Some (calcMemSize a l) } of
             None \<Rightarrow> Gas_Panic (set_world W V)
           | Some n \<Rightarrow> Charge GasCreate n (set_world W V)))"

text \<open>The bytes behind a slice of the memory: the rest of the memory and the zeros up to its capacity.\<close>

definition rlp_input :: "Frame \<Rightarrow> int \<Rightarrow> int \<Rightarrow> (gval \<times> nat) option" where
  "rlp_input F offset sz = do {
     raw \<leftarrow> read_mem F offset sz;
     let m = fr_mem F;
     Decode COMPRESS raw (drop (nat (big_Int64 offset) + length raw) (store m) @ replicate (mem_cap m - length (store m)) 0) 0 }"

definition rlpdecode_gas :: "Frame \<Rightarrow> Vm \<Rightarrow> charge" where
  "rlpdecode_gas F V =
     (case do { require 3 (fr_stack F); (sz, offset) \<leftarrow> Stack_Peekn (fr_stack F);
               (d, _) \<leftarrow> rlp_input F offset sz; pos \<leftarrow> from_top 3 (fr_stack F); Some (d, pos) } of
        None \<Rightarrow> Gas_Panic V
      | Some (d, pos) \<Rightarrow>
          if Value_IsList d then Charge GasStep (calcMemSize pos (int (length (Value_Slice d) * 32))) V
          else Refuse Rlp_not_list V)"

definition step_gas :: "Environment \<Rightarrow> OpCode \<Rightarrow> Frame \<Rightarrow> Vm \<Rightarrow> charge" where
  "step_gas E op F V =
     (if op = SSTORE then sstore_gas F V
      else if op = CREATE then create_gas E F V
      else if op = RLPDECODE then rlpdecode_gas F V
      else case stack_gas op (fr_stack F) of None \<Rightarrow> Gas_Panic V | Some (g, n) \<Rightarrow> Charge g n V)"

text \<open>The memory in whole words, and its price.\<close>

definition round_mem :: "int \<Rightarrow> int" where
  "round_mem n = (if n > 0 then (n + 31) div 32 * 32 else n)"

definition mem_gas :: "int \<Rightarrow> Memory \<Rightarrow> int \<Rightarrow> int" where
  "mem_gas n m gas =
     (if n > 0 \<and> n > int (Memory_Len m)
      then addStepGasUsage ((GasMemory * (n - int (Memory_Len m))) div 32) gas else gas)"

section \<open>Instructions on the stack\<close>

definition ensure256 :: "int \<Rightarrow> int" where
  "ensure256 x =
     (let d = push_bit 256 1 - 1; x = semiring_bit_operations_class.and x d in if x < 0 then 0 else x)"

text \<open>The operation gets the top of the stack first.\<close>

definition binop :: "(int \<Rightarrow> int \<Rightarrow> int option) \<Rightarrow> Stack \<Rightarrow> Stack option" where
  "binop f st = do { require 2 st; (x, y, st) \<leftarrow> Stack_Popn st; v \<leftarrow> f y x; Some (Stack_Push v st) }"

definition unop :: "(int \<Rightarrow> int) \<Rightarrow> Stack \<Rightarrow> Stack option" where
  "unop f st = do { require 1 st; (x, st) \<leftarrow> Stack_Pop st; Some (Stack_Push (f x) st) }"

definition ternop :: "(int \<Rightarrow> int \<Rightarrow> int \<Rightarrow> int option) \<Rightarrow> Stack \<Rightarrow> Stack option" where
  "ternop f st = do {
     require 3 st;
     (x, st) \<leftarrow> Stack_Pop st; (y, st) \<leftarrow> Stack_Pop st; (z, st) \<leftarrow> Stack_Pop st;
     v \<leftarrow> f x y z;
     Some (Stack_Push v st) }"

definition truth :: "bool \<Rightarrow> int" where
  "truth b = (if b then 1 else 0)"

text \<open>\<open>base.Exp(y, x, Pow256)\<close>; an exponent that is not positive gives 1.\<close>

definition exp256 :: "int \<Rightarrow> int \<Rightarrow> int" where
  "exp256 y x = (if x \<le> 0 then 1 else y ^ nat x mod Pow256)"

definition arith_op :: "OpCode \<Rightarrow> Stack \<Rightarrow> Stack option option" where
  "arith_op op st =
     (case op of
        ADD \<Rightarrow> Some (binop (\<lambda>y x. Some (ensure256 (y + x))) st)
      | SUB \<Rightarrow> Some (binop (\<lambda>y x. Some (ensure256 (y - x))) st)
      | MUL \<Rightarrow> Some (binop (\<lambda>y x. Some (ensure256 (y * x))) st)
      | DIV \<Rightarrow> Some (binop (\<lambda>y x. if x \<noteq> 0 then map_option ensure256 (big_Div y x) else Some (ensure256 0)) st)
      | SDIV \<Rightarrow> Some (binop (\<lambda>y x. if x \<noteq> 0 then map_option ensure256 (big_Div y x) else Some (ensure256 0)) st)
      | MOD \<Rightarrow> Some (binop (\<lambda>y x. map_option ensure256 (big_Mod y x)) st)
      | SMOD \<Rightarrow> Some (binop (\<lambda>y x. map_option ensure256 (big_Mod y x)) st)
      | EXP \<Rightarrow> Some (binop (\<lambda>y x. Some (ensure256 (exp256 y x))) st)
      | NEG \<Rightarrow> Some (unop (\<lambda>x. Pow256 - x) st)
      | _ \<Rightarrow> None)"

definition compare_op :: "OpCode \<Rightarrow> Stack \<Rightarrow> Stack option option" where
  "compare_op op st =
     (case op of
        LT \<Rightarrow> Some (binop (\<lambda>y x. Some (truth (y < x))) st)
      | GT \<Rightarrow> Some (binop (\<lambda>y x. Some (truth (y > x))) st)
      | SLT \<Rightarrow> Some (binop (\<lambda>y x. Some (truth (y < x))) st)
      | SGT \<Rightarrow> Some (binop (\<lambda>y x. Some (truth (y > x))) st)
      | EQ \<Rightarrow> Some (binop (\<lambda>y x. Some (truth (x = y))) st)
      | NOT \<Rightarrow> Some (unop (\<lambda>x. truth (\<not> x > 0)) st)
      | _ \<Rightarrow> None)"

definition index_int :: "'a list \<Rightarrow> int \<Rightarrow> 'a option" where
  "index_int xs i = (if 0 \<le> i then index_go xs (nat i) else None)"

definition slice_int :: "'a list \<Rightarrow> int \<Rightarrow> int \<Rightarrow> 'a list option" where
  "slice_int xs a b = (if 0 \<le> a \<and> a \<le> b then slice_go xs (nat a) (nat b) else None)"

definition byte_of :: "int \<Rightarrow> int \<Rightarrow> int option" where
  "byte_of th v =
     (if th < 32 \<and> th < int (length (big_bytes v))
      then map_option uint (index_int (LeftPadBytes (big_bytes v) 32) (big_Int64 th))
      else Some 0)"

definition bit_op :: "OpCode \<Rightarrow> Stack \<Rightarrow> Stack option option" where
  "bit_op op st =
     (case op of
        AND \<Rightarrow> Some (binop (\<lambda>y x. Some (semiring_bit_operations_class.and y x)) st)
      | OR \<Rightarrow> Some (binop (\<lambda>y x. Some (semiring_bit_operations_class.or y x)) st)
      | XOR \<Rightarrow> Some (binop (\<lambda>y x. Some (semiring_bit_operations_class.xor y x)) st)
      | BYTE \<Rightarrow> Some (binop byte_of st)
      | ADDMOD \<Rightarrow> Some (ternop (\<lambda>x y z. map_option ensure256 (big_Mod (x + y) z)) st)
      | MULMOD \<Rightarrow> Some (ternop (\<lambda>x y z. map_option ensure256 (big_Mod (x * y) z)) st)
      | _ \<Rightarrow> None)"


section \<open>Instructions that read the context\<close>

definition calldataload :: "Runtime \<Rightarrow> bytes \<Rightarrow> int \<Rightarrow> int option" where
  "calldataload R args offset =
     (let lenData = int (length args) in
      if lenData \<ge> offset then
        let l = BigMin (offset + 32) lenData in
        map_option (\<lambda>data. BigD (RightPadBytes (take 32 data) 32)) 
          (slice_int (args @ behind R args) (big_Int64 offset) (big_Int64 l))
      else Some (BigD (replicate 32 0)))"

definition callstack_entry :: "bytes list \<Rightarrow> int \<Rightarrow> int option" where
  "callstack_entry cs frame =
     (let framen = big_Uint64 frame in
      if int64 (int framen) > int (length cs) - 1 then Some 0 else map_option BigD (index_go cs framen))"

text \<open>Instructions that push a number of the context, after popping what they need.\<close>

definition context_op :: "Runtime \<Rightarrow> Environment \<Rightarrow> OpCode \<Rightarrow> Frame \<Rightarrow> Vm \<Rightarrow> Stack option option" where
  "context_op R E op F V =
     (let c = fr_closure F; W = vm_world V; st = fr_stack F; push = (\<lambda>n. Some (Some (Stack_Push n st))) in
      case op of
        ADDRESS \<Rightarrow> push (BigD (Closure_Address c W))
      | ORIGIN \<Rightarrow> push (BigD (Origin E))
      | CALLSTACK \<Rightarrow> Some (do { require 1 st; (n, st) \<leftarrow> Stack_Pop st; a \<leftarrow> callstack_entry (vm_callStack V) n;
                              Some (Stack_Push a st) })
      | CALLSTACKSIZE \<Rightarrow> push (let l = int (length (vm_callStack V)) in if l > 0 then l - 1 else l)
      | CALLER \<Rightarrow> push (BigD (so_address (object_at W (cl_caller c))))
      | CALLVALUE \<Rightarrow> push (env_Value E)
      | CALLDATALOAD \<Rightarrow> Some (do { require 1 st; (offset, st) \<leftarrow> Stack_Pop st; v \<leftarrow> calldataload R (Args c) offset;
                                 Some (Stack_Push v st) })
      | CALLDATASIZE \<Rightarrow> push (int (length (Args c)))
      | CODESIZE \<Rightarrow> push (int (length (cl_Code c)))
      | EXTCODESIZE \<Rightarrow> push (int (length (cl_Code c)))
      | _ \<Rightarrow> None)"

definition block_op :: "Environment \<Rightarrow> OpCode \<Rightarrow> Frame \<Rightarrow> Stack option option" where
  "block_op E op F =
     (let push = (\<lambda>n. Some (Some (Stack_Push n (fr_stack F)))) in
      case op of
        GASPRICE \<Rightarrow> push (Price (fr_closure F))
      | PREVHASH \<Rightarrow> push (BigD (PrevHash E))
      | COINBASE \<Rightarrow> push (BigD (Coinbase E))
      | TIMESTAMP \<Rightarrow> push (Time E)
      | NUMBER \<Rightarrow> push (BlockNumber E)
      | DIFFICULTY \<Rightarrow> push (Difficulty E)
      | GASLIMIT \<Rightarrow> push 0
      | GENDOUG \<Rightarrow> push (BigD (Doug E))
      | _ \<Rightarrow> None)"

definition counter_op :: "OpCode \<Rightarrow> Frame \<Rightarrow> Stack option option" where
  "counter_op op F =
     (let push = (\<lambda>n. Some (Some (Stack_Push n (fr_stack F)))) in
      case op of
        PC \<Rightarrow> push (fr_pc F)
      | MSIZE \<Rightarrow> push (int (Memory_Len (fr_mem F)))
      | GAS \<Rightarrow> push (Gas (fr_closure F))
      | _ \<Rightarrow> None)"

definition sha3_op :: "Runtime \<Rightarrow> Frame \<Rightarrow> Stack option" where
  "sha3_op R F = do {
     require 2 (fr_stack F);
     (sz, offset, st) \<leftarrow> Stack_Popn (fr_stack F);
     data \<leftarrow> read_mem F offset sz;
     Some (Stack_Push (BigD (sha3 (platform R) data)) st) }"

text \<open>Instructions that read or write accounts.\<close>

definition account_op :: "OpCode \<Rightarrow> Frame \<Rightarrow> World \<Rightarrow> (Stack \<times> World) option option" where
  "account_op op F W =
     (let st = fr_stack F in
      case op of
        BALANCE \<Rightarrow> Some (do { require 1 st; (a, st) \<leftarrow> Stack_Pop st; (b, W) \<leftarrow> GetBalance (big_bytes a) W;
                            Some (Stack_Push b st, W) })
      | NONCE \<Rightarrow> Some (do { require 1 st; (a, st) \<leftarrow> Stack_Pop st; (n, W) \<leftarrow> GetNonce (big_bytes a) W;
                          Some (Stack_Push (int64 (int n)) st, W) })
      | _ \<Rightarrow> None)"

definition storage_op :: "OpCode \<Rightarrow> Frame \<Rightarrow> World \<Rightarrow> (Stack \<times> World) option option" where
  "storage_op op F W =
     (let c = fr_closure F; st = fr_stack F in
      case op of
        SLOAD \<Rightarrow> Some (do { require 1 st; (loc, st) \<leftarrow> Stack_Pop st; (v, W) \<leftarrow> Closure_GetStorage c loc W;
                          Some (Stack_Push (Value_BigInt v) st, W) })
      | SSTORE \<Rightarrow> Some (do { require 2 st; (v, loc, st) \<leftarrow> Stack_Popn st;
                           Some (st, AddStorageChange (cl_message c) (big_bytes loc)
                                       (Closure_SetStorage c loc (VBig v) W)) })
      | _ \<Rightarrow> None)"

section \<open>Instructions on code and stack positions\<close>

text \<open>After a \<open>DUP\<close> that two \<open>POP\<close>s follow the value is printed, and \<open>toValue\<close> looks at its first
  byte.\<close>

definition toValue_check :: "int \<Rightarrow> unit option" where
  "toValue_check v = (if big_bytes v = [] then None else Some ())"

definition dup_hook :: "Runtime \<Rightarrow> Frame \<Rightarrow> int \<Rightarrow> unit option" where
  "dup_hook R F v = do {
     a \<leftarrow> Closure_Get R (fr_closure F) (fr_pc F + 1);
     if OpCode_of (Value_Uint a) = POP then do {
       b \<leftarrow> Closure_Get R (fr_closure F) (fr_pc F + 2);
       if OpCode_of (Value_Uint b) = POP then toValue_check v else Some () }
     else Some () }"

definition position_op :: "Runtime \<Rightarrow> OpCode \<Rightarrow> Frame \<Rightarrow> Frame option option" where
  "position_op R op F =
     (let st = fr_stack F in
      case op of
        PUSH a \<Rightarrow> Some (do {
          data \<leftarrow> Gets R (fr_closure F) (fr_pc F + 1) (int a);
          Some (F\<lparr>fr_stack := Stack_Push (BigD (Value_Bytes data)) st, fr_pc := fr_pc F + 1 + (int a - 1)\<rparr>) })
      | POP \<Rightarrow> Some (do { require 1 st; (_, st) \<leftarrow> Stack_Pop st; Some (F\<lparr>fr_stack := st\<rparr>) })
      | DUP n \<Rightarrow> Some (do {
          st' \<leftarrow> Stack_Dupn n st; v \<leftarrow> Stack_Peek st'; dup_hook R F v; Some (F\<lparr>fr_stack := st'\<rparr>) })
      | SWAP n \<Rightarrow> Some (do { st' \<leftarrow> Stack_Swapn (n + 1) st; Some (F\<lparr>fr_stack := st'\<rparr>) })
      | LOGSTACK \<Rightarrow> Some (Some F)
      | LOGMEM \<Rightarrow> Some (Some F)
      | _ \<Rightarrow> None)"

definition jump_op :: "OpCode \<Rightarrow> Frame \<Rightarrow> Frame option option" where
  "jump_op op F =
     (case op of
        JUMP \<Rightarrow> Some (do { require 1 (fr_stack F); (p, st) \<leftarrow> Stack_Pop (fr_stack F);
                         Some (F\<lparr>fr_stack := st, fr_pc := p\<rparr>) })
      | JUMPI \<Rightarrow> Some (do { require 2 (fr_stack F); (cond, p, st) \<leftarrow> Stack_Popn (fr_stack F);
                          let F = F\<lparr>fr_stack := st\<rparr>;
                          Some (if cond \<ge> 1 then F\<lparr>fr_pc := p\<rparr> else advance F) })
      | _ \<Rightarrow> None)"

section \<open>Instructions on the memory\<close>

definition memory_op :: "Runtime \<Rightarrow> OpCode \<Rightarrow> Frame \<Rightarrow> Vm \<Rightarrow> (Frame \<times> Vm) option option" where
  "memory_op R op F V =
     (let st = fr_stack F in
      case op of
        MLOAD \<Rightarrow> Some (do {
          require 1 st; (offset, st) \<leftarrow> Stack_Pop st;
          v \<leftarrow> Memory_Get (fr_mem F) (big_Int64 offset) 32;
          Some (F\<lparr>fr_stack := Stack_Push (BigD v) st\<rparr>, V) })
      | MSTORE \<Rightarrow> Some (do {
          require 2 st; (v, mStart, st) \<leftarrow> Stack_Popn st;
          write_mem R (big_Int64 mStart) 32 (BigToBytes v 256) (F\<lparr>fr_stack := st\<rparr>, V) })
      | MSTORE8 \<Rightarrow> Some (do {
          require 2 st; (off, st) \<leftarrow> Stack_Pop st; (v, st) \<leftarrow> Stack_Pop st;
          index_int (store (fr_mem F)) (big_Int64 off);
          Some (set_mem ((fr_mem F)\<lparr>store := (store (fr_mem F))[nat (big_Int64 off) := word_of_int (big_Int64 v)]\<rparr>)
                  (F\<lparr>fr_stack := st\<rparr>) V) })
      | _ \<Rightarrow> None)"

text \<open>The part of the data that a copy instruction takes, and its length.\<close>

definition copy_source :: "bytes \<Rightarrow> int \<Rightarrow> int \<Rightarrow> (bytes \<times> int) option" where
  "copy_source data cOff l =
     (let sz = int (length data);
          (cOff, l) = (if cOff > sz then (0, 0) else if int64 (cOff + l) > sz then (cOff, 0) else (cOff, l))
      in map_option (\<lambda>d. (d, l)) (slice_int data cOff (int64 (cOff + l))))"

definition copy_data :: "Runtime \<Rightarrow> bytes \<Rightarrow> Frame \<Rightarrow> Vm \<Rightarrow> (Frame \<times> Vm) option" where
  "copy_data R data F V = do {
     (mOff, st) \<leftarrow> Stack_Pop (fr_stack F); (cOff, st) \<leftarrow> Stack_Pop st; (l, st) \<leftarrow> Stack_Pop st;
     (d, l) \<leftarrow> copy_source data (big_Int64 cOff) (big_Int64 l);
     write_mem R (big_Int64 mOff) l d (F\<lparr>fr_stack := st\<rparr>, V) }"


section \<open>Instructions on RLP data in the memory\<close>

text \<open>\<open>RLPDECODE\<close> writes a header slot with the number of items, then for every item a slot with a pointer
  and a slot with a length, and the items behind them. The decoded items are slices of the memory that is
  written to, so the model covers the runs in which the area written does not meet the area read.\<close>

definition decode_slots :: "int \<Rightarrow> int \<Rightarrow> int \<Rightarrow> bytes \<Rightarrow> (int \<times> bytes) list" where
  "decode_slots start chunkStart i b =
     (let pointer = int64 (chunkStart + 32 * i);
          l = big_bytes (int (length b)) @ [0];
          l = (if length l = 1 then l @ [0] else l)
      in [(int64 (start + 32 * (2 * i + 1)), LeftPadBytes (big_bytes pointer) 32),
          (int64 (start + 32 * (2 * i + 2)), LeftPadBytes l 32),
          (pointer, LeftPadBytes b 32)])"

fun write_slots :: "Runtime \<Rightarrow> (int \<times> bytes) list \<Rightarrow> Frame \<times> Vm \<Rightarrow> (Frame \<times> Vm) option" where
  "write_slots R [] FV = Some FV"
| "write_slots R ((a, b) # slots) FV = do { FV \<leftarrow> write_mem R a 32 b FV; write_slots R slots FV }"

fun decode_loop :: "Runtime \<Rightarrow> int \<Rightarrow> int \<Rightarrow> int \<Rightarrow> gval list \<Rightarrow> Frame \<Rightarrow> Vm \<Rightarrow> outcome" where
  "decode_loop R start chunkStart i [] F V = Next F V"
| "decode_loop R start chunkStart i (dd # ds) F V =
     (if Value_IsList dd \<and> Value_Slice dd \<noteq> [] then Halt [] (Some Rlp_nested) F V
      else case write_slots R (decode_slots start chunkStart i (Value_Bytes dd)) (F, V) of
             None \<Rightarrow> Panic F V
           | Some (F, V) \<Rightarrow> decode_loop R start chunkStart (i + 1) ds F V)"

definition rlp_apart :: "Frame \<Rightarrow> int \<Rightarrow> int \<Rightarrow> nat \<Rightarrow> int \<Rightarrow> int \<Rightarrow> bool" where
  "rlp_apart F offset sz used start n =
     (case read_mem F offset sz of
        None \<Rightarrow> True
      | Some raw \<Rightarrow>
          used \<le> length raw \<and>
          (start + 32 * (3 * n + 1) \<le> big_Int64 offset \<or> big_Int64 offset + int (length raw) \<le> start))"

definition rlpdecode_op :: "Runtime \<Rightarrow> Frame \<Rightarrow> Vm \<Rightarrow> outcome" where
  "rlpdecode_op R F V =
     (case do { require 3 (fr_stack F);
               (sz, offset, st) \<leftarrow> Stack_Popn (fr_stack F);
               (pos, st) \<leftarrow> Stack_Pop st;
               (d, used) \<leftarrow> rlp_input F offset sz;
               Some (sz, offset, pos, st, d, used) } of
        None \<Rightarrow> Panic F V
      | Some (sz, offset, pos, st, d, used) \<Rightarrow>
          if \<not> Value_IsList d then Halt [] (Some Rlp_not_list) F V
          else
            let n = int (length (Value_Slice d)); start = big_Int64 pos; chunkStart = int64 (start + 32 * (2 * n + 1)) in
            if \<not> rlp_apart F offset sz used start n then Stuck Overlapping
            else case write_mem R start 32 (LeftPadBytes [word_of_int n] 32) (F, V) of
                   None \<Rightarrow> Panic F V
                 | Some (F, V) \<Rightarrow>
                     (case decode_loop R start chunkStart 0 (Value_Slice d) F V of
                        Next F V \<Rightarrow> Next (advance (F\<lparr>fr_stack := Stack_Push n st\<rparr>)) V
                      | out \<Rightarrow> out))"

definition encode_item :: "Frame \<Rightarrow> int \<Rightarrow> int \<Rightarrow> gval option" where
  "encode_item F start i = do {
     pointer \<leftarrow> Memory_Get (fr_mem F) (int64 (start + 32 * 2 * i)) 32;
     lentype \<leftarrow> Memory_Get (fr_mem F) (int64 (start + 32 * (2 * i + 1))) 32;
     l \<leftarrow> (if lentype = [] then None else Some (butlast lentype));
     b \<leftarrow> Memory_Get (fr_mem F) (big_Int64 (BigD pointer)) 32;
     b \<leftarrow> (if length b > 0
          then slice_int b (int64 (int (length b) - big_Int64 (BigD l))) (int (length b)) else Some b);
     Some (VBytes b) }"

fun encode_loop :: "Frame \<Rightarrow> int \<Rightarrow> int \<Rightarrow> nat \<Rightarrow> gval list \<Rightarrow> gval list option" where
  "encode_loop F start i 0 data = Some data"
| "encode_loop F start i (Suc n) data = do {
     b \<leftarrow> encode_item F start i;
     encode_loop F start (i + 1) n (data @ [b]) }"

definition rlpencode_op :: "Runtime \<Rightarrow> Frame \<Rightarrow> Vm \<Rightarrow> (Frame \<times> Vm) option" where
  "rlpencode_op R F V = do {
     require 3 (fr_stack F);
     (n, offset, st) \<leftarrow> Stack_Popn (fr_stack F);
     (pos, st) \<leftarrow> Stack_Pop st;
     data \<leftarrow> encode_loop F (big_Int64 offset) 0 (nat (big_Int64 n)) [];
     let rlpdata = Encode COMPRESS (VList data);
     write_mem R (big_Int64 pos) (int (length rlpdata)) rlpdata
       (F\<lparr>fr_stack := Stack_Push (int (length rlpdata)) st\<rparr>, V) }"

section \<open>Instructions that call\<close>

definition create_enter :: "Runtime \<Rightarrow> Frame \<Rightarrow> Vm \<Rightarrow> outcome" where
  "create_enter R F V =
     (case do { require 3 (fr_stack F);
               (v, st) \<leftarrow> Stack_Pop (fr_stack F);
               (sz, offset, st) \<leftarrow> Stack_Popn st;
               input \<leftarrow> read_mem F offset sz;
               Some (v, st, input) } of
        None \<Rightarrow> Panic F V
      | Some (v, st, input) \<Rightarrow>
          let c = fr_closure F; (snapshot, W) = State_Copy (vm_world V) in
          case do { addr \<leftarrow> CreateAddress (platform R) (Closure_Address c W) (Nonce (object_at W (cl_object c)));
                    (found, W) \<leftarrow> GetStateObject addr W; Some (addr, found, W) } of
            None \<Rightarrow> Panic F (set_world W V)
          | Some (addr, Some _, W) \<Rightarrow> Stuck Endless_loop
          | Some (addr, None, W) \<Rightarrow>
              let W = change_object (cl_object c) IncNonce W;
                  F = F\<lparr>fr_closure := drain c, fr_stack := st\<rparr> in
              case GetOrNewStateObject addr W of
                None \<Rightarrow> Panic F (set_world W V)
              | Some (r, W) \<Rightarrow>
                  Call (NewMessage addr input (Gas c) (Price c) v) addr (Kind_Create snapshot addr) F
                    (set_world (change_object r (\<lambda>obj. obj\<lparr>Code := input\<rparr>) W) V))"

definition call_enter :: "Frame \<Rightarrow> Vm \<Rightarrow> outcome" where
  "call_enter F V =
     (case do { require 7 (fr_stack F);
               (gas, st) \<leftarrow> Stack_Pop (fr_stack F);
               (v, addr, st) \<leftarrow> Stack_Popn st;
               (inSize, inOffset, st) \<leftarrow> Stack_Popn st;
               (retSize, retOffset, st) \<leftarrow> Stack_Popn st;
               args \<leftarrow> read_mem F inOffset inSize;
               Some (gas, v, addr, retSize, retOffset, st, args) } of
        None \<Rightarrow> Panic F V
      | Some (gas, v, addr, retSize, retOffset, st, args) \<Rightarrow>
          let (snapshot, W) = State_Copy (vm_world V) in
          Call (NewMessage (big_bytes addr) args gas (Price (fr_closure F)) v) (big_bytes addr)
            (Kind_Call snapshot retOffset retSize) (F\<lparr>fr_stack := st\<rparr>) (set_world W V))"

definition post_op :: "Frame \<Rightarrow> Vm \<Rightarrow> (Frame \<times> Vm) option" where
  "post_op F V = do {
     require 5 (fr_stack F);
     (gas, st) \<leftarrow> Stack_Pop (fr_stack F);
     (v, addr, st) \<leftarrow> Stack_Popn st;
     (inSize, inOffset, st) \<leftarrow> Stack_Popn st;
     args \<leftarrow> read_mem F inOffset inSize;
     let msg = (NewMessage (big_bytes addr) args gas (Price (fr_closure F)) v)
                 \<lparr>pm_view := Some (nat (big_Int64 inOffset), length args)\<rparr>;
     Some (F\<lparr>fr_stack := st\<rparr>, V\<lparr>vm_queue := vm_queue V @ [msg]\<rparr>) }"

text \<open>Instructions that end the run.\<close>

definition return_op :: "Frame \<Rightarrow> bytes option" where
  "return_op F = do {
     require 2 (fr_stack F);
     (sz, offset, st) \<leftarrow> Stack_Popn (fr_stack F);
     read_mem F offset sz }"

definition suicide_op :: "Frame \<Rightarrow> World \<Rightarrow> World option" where
  "suicide_op F W = do {
     require 1 (fr_stack F);
     (a, st) \<leftarrow> Stack_Pop (fr_stack F);
     (receiver, W) \<leftarrow> GetOrNewStateObject (big_bytes a) W;
     let self = cl_object (fr_closure F);
     let W = change_object receiver (AddAmount (Balance (object_at W self))) W;
     Some (change_object self MarkForDeletion W) }"


section \<open>The switch\<close>

definition lift_stack :: "Frame \<Rightarrow> Vm \<Rightarrow> Stack option \<Rightarrow> outcome" where
  "lift_stack F V r = (case r of None \<Rightarrow> Panic F V | Some st \<Rightarrow> Next (advance (F\<lparr>fr_stack := st\<rparr>)) V)"

definition lift_frame :: "Frame \<Rightarrow> Vm \<Rightarrow> (Frame \<times> Vm) option \<Rightarrow> outcome" where
  "lift_frame F V r = (case r of None \<Rightarrow> Panic F V | Some (F', V') \<Rightarrow> Next (advance F') V')"

definition lift_world :: "Frame \<Rightarrow> Vm \<Rightarrow> (Stack \<times> World) option \<Rightarrow> outcome" where
  "lift_world F V r = lift_frame F V (map_option (\<lambda>(st, W). (F\<lparr>fr_stack := st\<rparr>, set_world W V)) r)"

definition extcodecopy :: "Runtime \<Rightarrow> Frame \<Rightarrow> Vm \<Rightarrow> outcome" where
  "extcodecopy R F V =
     (case do { (a, st) \<leftarrow> Stack_Pop (fr_stack F); (code, W) \<leftarrow> GetCode (big_bytes a) (vm_world V); Some (code, W, st) } of
        None \<Rightarrow> Panic F V
      | Some (code, W, st) \<Rightarrow>
          lift_frame F (set_world W V) (copy_data R code (F\<lparr>fr_stack := st\<rparr>) (set_world W V)))"

definition other_op :: "Runtime \<Rightarrow> OpCode \<Rightarrow> Frame \<Rightarrow> Vm \<Rightarrow> outcome" where
  "other_op R op F V =
     (case op of
        SHA3 \<Rightarrow> lift_stack F V (sha3_op R F)
      | RLPDECODE \<Rightarrow> rlpdecode_op R F V
      | RLPENCODE \<Rightarrow> lift_frame F V (rlpencode_op R F V)
      | CALLDATACOPY \<Rightarrow> lift_frame F V (copy_data R (Args (fr_closure F)) F V)
      | CODECOPY \<Rightarrow> lift_frame F V (copy_data R (cl_Code (fr_closure F)) F V)
      | EXTCODECOPY \<Rightarrow> extcodecopy R F V
      | CREATE \<Rightarrow> create_enter R F V
      | CALL \<Rightarrow> call_enter F V
      | CALLSTATELESS \<Rightarrow> call_enter F V
      | POST \<Rightarrow> lift_frame F V (post_op F V)
      | RETURN \<Rightarrow> (case return_op F of None \<Rightarrow> Panic F V | Some ret \<Rightarrow> Halt ret None F V)
      | SUICIDE \<Rightarrow> (case suicide_op F (vm_world V) of None \<Rightarrow> Panic F V | Some W \<Rightarrow> Halt [] None F (set_world W V))
      | STOP \<Rightarrow> Halt [] None F V
      | _ \<Rightarrow> Halt [] (Some (Invalid_opcode op)) F V)"

definition exec_op :: "Runtime \<Rightarrow> Environment \<Rightarrow> OpCode \<Rightarrow> Frame \<Rightarrow> Vm \<Rightarrow> outcome" where
  "exec_op R E op F V =
     (case arith_op op (fr_stack F) of Some r \<Rightarrow> lift_stack F V r | None \<Rightarrow>
     (case compare_op op (fr_stack F) of Some r \<Rightarrow> lift_stack F V r | None \<Rightarrow>
     (case bit_op op (fr_stack F) of Some r \<Rightarrow> lift_stack F V r | None \<Rightarrow>
     (case context_op R E op F V of Some r \<Rightarrow> lift_stack F V r | None \<Rightarrow>
     (case block_op E op F of Some r \<Rightarrow> lift_stack F V r | None \<Rightarrow>
     (case counter_op op F of Some r \<Rightarrow> lift_stack F V r | None \<Rightarrow>
     (case position_op R op F of Some r \<Rightarrow> lift_frame F V (map_option (\<lambda>F'. (F', V)) r) | None \<Rightarrow>
     (case jump_op op F of Some r \<Rightarrow> (case r of None \<Rightarrow> Panic F V | Some F' \<Rightarrow> Next F' V) | None \<Rightarrow>
     (case memory_op R op F V of Some r \<Rightarrow> lift_frame F V r | None \<Rightarrow>
     (case account_op op F (vm_world V) of Some r \<Rightarrow> lift_world F V r | None \<Rightarrow>
     (case storage_op op F (vm_world V) of Some r \<Rightarrow> lift_world F V r | None \<Rightarrow>
      other_op R op F V)))))))))))"

section \<open>One turn of the loop\<close>

definition fetch_op :: "Runtime \<Rightarrow> Frame \<Rightarrow> OpCode option" where
  "fetch_op R F = map_option (\<lambda>v. OpCode_of (Value_Uint v)) (Closure_Get R (fr_closure F) (fr_pc F))"

definition step :: "Runtime \<Rightarrow> Environment \<Rightarrow> Frame \<Rightarrow> Vm \<Rightarrow> outcome" where
  "step R E F V =
     (case fetch_op R F of
        None \<Rightarrow> Panic F V
      | Some op \<Rightarrow>
         (case step_gas E op F V of
            Gas_Panic V \<Rightarrow> Panic F V
          | Refuse e V \<Rightarrow> Halt [] (Some e) F V
          | Charge g n V \<Rightarrow>
              let n = round_mem n in
              (case Closure_UseGas (mem_gas n (fr_mem F) g) (fr_closure F) of
                 (False, c) \<Rightarrow> Halt [] (Some Insufficient_gas) (F\<lparr>fr_closure := drain c\<rparr>) V
               | (True, c) \<Rightarrow>
                   let (F, V) = set_mem (Memory_Resize (growslice R) (fr_mem F) (big_Uint64 n)) (F\<lparr>fr_closure := c\<rparr>) V
                   in exec_op R E op F V)))"


definition example_vm :: "World \<Rightarrow> Vm" where
  "example_vm W = \<lparr>vm_world = W, vm_queue = [], vm_callStack = []\<rparr>"

definition example_frame :: "bytes \<Rightarrow> int \<Rightarrow> Stack \<Rightarrow> Frame" where
  "example_frame code gas st =
     \<lparr>fr_closure = NewClosure 0 0 0 code gas 1, fr_stack = st, fr_mem = NewMemory, fr_pc = 0\<rparr>"

end
