(* ===== verification/Vm_Run.thy ===== *)
theory Vm_Run
  imports Vm
begin

text \<open>
  Runs of the virtual machine: \<open>RunClosure\<close> and \<open>Message.Exec\<close> of \<^verbatim>\<open>monkvm/vm.go\<close>, which call each other. The
  runs take fuel, one unit for every instruction along the deepest chain of calls; \<open>None\<close> means that there
  was too little. \<^theory_text>\<open>Vm_Gas\<close> shows how much is enough.
\<close>

section \<open>Executing a message\<close>

datatype run_result = Finished bytes "vm_error option" int Vm | Run_Stuck stuck

text \<open>The result of \<open>Exec\<close>: what it returns, the gas that goes back to the caller, and the account it ran.\<close>

datatype exec_result = Executed bytes "vm_error option" int "nat option" Vm | Exec_Panic Vm | Exec_Stuck stuck

definition new_message :: "Environment \<Rightarrow> VmMessage \<Rightarrow> nat \<Rightarrow> World \<Rightarrow> Message" where
  "new_message E m caller W =
     \<lparr>msg_To = pm_address m, msg_From = so_address (object_at W caller), msg_Input = pm_input m, msg_Output = [],
      msg_Origin = Origin E, msg_Timestamp = Time E, msg_Coinbase = Coinbase E, msg_Block = BlockHash E,
      msg_Number = BlockNumber E, msg_Value = pm_value m, ChangedAddresses = []\<rparr>"

text \<open>Up to the call of \<open>RunClosure\<close>: either the message is done, or a closure is to be run.\<close>

datatype entered = Settled exec_result | Enter Closure nat Vm

definition exec_enter :: "Runtime \<Rightarrow> Environment \<Rightarrow> VmMessage \<Rightarrow> bytes \<Rightarrow> nat \<Rightarrow> Vm \<Rightarrow> entered" where
  "exec_enter R E m codeAddr caller V =
     (let (i, W) = AddMessage (new_message E m caller (vm_world V)) (vm_world V) in
      if Balance (object_at W caller) < pm_value m
      then Settled (Executed [] (Some Insufficient_funds) (pm_gas m) None (set_world W V))
      else case map_of (Precompiled R) (big_bytes (BigD (pm_address m))) of
        Some (gas, fn) \<Rightarrow>
          let ret = (if pm_gas m \<ge> gas then fn (pm_input m) else [])
          in Settled (Executed ret None 0 None (set_world (set_output i ret W) V))
      | None \<Rightarrow>
         (case GetOrNewStateObject (pm_address m) W of
            None \<Rightarrow> Settled (Exec_Panic (set_world W V))
          | Some (r, W) \<Rightarrow>
              let W = change_object caller (SubAmount (pm_value m)) W;
                  W = change_object r (AddAmount (pm_value m)) W in
              (case GetCode codeAddr W of
                 None \<Rightarrow> Settled (Exec_Panic (set_world W V))
               | Some (code, W) \<Rightarrow>
                   Enter ((NewClosure i caller r code (pm_gas m) (pm_price m))\<lparr>Args := pm_input m\<rparr>) r
                     (V\<lparr>vm_world := W, vm_queue := []\<rparr>))))"

text \<open>After the run: its output goes to the manifest, and the messages it has queued to the queue of the
  caller if there was no error.\<close>

definition exec_leave :: "nat \<Rightarrow> nat \<Rightarrow> VmMessage list \<Rightarrow> run_result \<Rightarrow> exec_result" where
  "exec_leave i r q res =
     (case res of
        Run_Stuck s \<Rightarrow> Exec_Stuck s
      | Finished ret err g V \<Rightarrow>
          Executed ret err g (Some r)
            (V\<lparr>vm_world := set_output i ret (vm_world V), vm_queue := if err = None then q @ vm_queue V else q\<rparr>))"

section \<open>Resuming after a call\<close>

definition resume_call :: "Runtime \<Rightarrow> State \<Rightarrow> int \<Rightarrow> int \<Rightarrow> bytes \<Rightarrow> vm_error option \<Rightarrow> Frame \<Rightarrow> Vm \<Rightarrow> outcome" where
  "resume_call R snapshot retOffset retSize ret err F V =
     (if err \<noteq> None then
        Next (advance (F\<lparr>fr_stack := Stack_Push 0 (fr_stack F)\<rparr>)) (set_world (State_Set snapshot (vm_world V)) V)
      else
        lift_frame F V (write_mem R (big_Int64 retOffset) (big_Int64 retSize) ret
          (F\<lparr>fr_stack := Stack_Push 1 (fr_stack F)\<rparr>, V)))"

definition resume_create :: "State \<Rightarrow> bytes \<Rightarrow> bytes \<Rightarrow> vm_error option \<Rightarrow> nat option \<Rightarrow> Frame \<Rightarrow> Vm \<Rightarrow> outcome" where
  "resume_create snapshot addr ret err obj F V =
     (if err \<noteq> None then
        Next (advance (F\<lparr>fr_stack := Stack_Push 0 (fr_stack F)\<rparr>)) (set_world (State_Set snapshot (vm_world V)) V)
      else (case obj of
         None \<Rightarrow> Panic F V
       | Some r \<Rightarrow>
           Next (advance (F\<lparr>fr_stack := Stack_Push (BigD addr) (fr_stack F)\<rparr>))
             (set_world (change_object r (\<lambda>c. c\<lparr>Code := ret\<rparr>) (vm_world V)) V)))"

definition resume :: "Runtime \<Rightarrow> call_kind \<Rightarrow> Frame \<Rightarrow> exec_result \<Rightarrow> outcome" where
  "resume R kind F res =
     (case res of
        Exec_Stuck s \<Rightarrow> Stuck s
      | Exec_Panic V \<Rightarrow> Panic F V
      | Executed ret err refund obj V \<Rightarrow>
          let F = F\<lparr>fr_closure := Closure_ReturnGas refund (fr_closure F)\<rparr> in
          (case kind of
             Kind_Call snapshot retOffset retSize \<Rightarrow> resume_call R snapshot retOffset retSize ret err F V
           | Kind_Create snapshot addr \<Rightarrow> resume_create snapshot addr ret err obj F V))"

lemmas resume_defs = resume_def resume_call_def resume_create_def

section \<open>Runs\<close>

definition new_frame :: "Closure \<Rightarrow> Frame" where
  "new_frame c = \<lparr>fr_closure = c, fr_stack = [], fr_mem = NewMemory, fr_pc = 0\<rparr>"

definition push_call :: "Closure \<Rightarrow> Vm \<Rightarrow> Vm" where
  "push_call c V =
     (let cs = vm_callStack V; W = vm_world V;
          cs = (if length cs = 0 then [so_address (object_at W (cl_caller c))] else cs)
      in V\<lparr>vm_callStack := cs @ [Closure_Address c W]\<rparr>)"

definition pop_call :: "Vm \<Rightarrow> Vm" where
  "pop_call V = V\<lparr>vm_callStack := butlast (vm_callStack V), vm_queue := detach (vm_queue V)\<rparr>"

fun run_frame :: "Runtime \<Rightarrow> Environment \<Rightarrow> nat \<Rightarrow> Frame \<Rightarrow> Vm \<Rightarrow> run_result option"
  and RunClosure :: "Runtime \<Rightarrow> Environment \<Rightarrow> nat \<Rightarrow> Closure \<Rightarrow> Vm \<Rightarrow> run_result option"
  and Exec :: "Runtime \<Rightarrow> Environment \<Rightarrow> nat \<Rightarrow> VmMessage \<Rightarrow> bytes \<Rightarrow> nat \<Rightarrow> Vm \<Rightarrow> exec_result option"
  and finish :: "Runtime \<Rightarrow> Environment \<Rightarrow> nat \<Rightarrow> outcome \<Rightarrow> run_result option"
where
  "run_frame R E 0 F V = None"
| "run_frame R E (Suc n) F V = finish R E n (step R E F V)"
| "finish R E n (Halt ret err F V) = Some (Finished ret err (Gas (fr_closure F)) V)"
| "finish R E n (Panic F V) = Some (Finished [] (Some Recovered) (Gas (fr_closure F)) V)"
| "finish R E n (Stuck s) = Some (Run_Stuck s)"
| "finish R E n (Next F V) = run_frame R E n F V"
| "finish R E 0 (Call m a k F V) = None"
| "finish R E (Suc n) (Call m a k F V) = do {
     res \<leftarrow> Exec R E n m a (cl_object (fr_closure F)) V;
     finish R E n (resume R k F res) }"
| "RunClosure R E 0 c V = None"
| "RunClosure R E (Suc n) c V =
     (if length (cl_Code c) = 0 then Some (Finished [] None (Gas c) V)
      else map_option
             (\<lambda>res. case res of Finished ret err g V \<Rightarrow> Finished ret err g (pop_call V) | Run_Stuck s \<Rightarrow> Run_Stuck s)
             (run_frame R E n (new_frame c) (push_call c V)))"
| "Exec R E 0 m a caller V = None"
| "Exec R E (Suc n) m a caller V =
     (case exec_enter R E m a caller V of
        Settled res \<Rightarrow> Some res
      | Enter c r V' \<Rightarrow> map_option (exec_leave (cl_message c) r (vm_queue V)) (RunClosure R E n c V'))"

end
