(* ===== verification/Vm_Frame.thy ===== *)
theory Vm_Frame
  imports Vm_Run
begin

text \<open>
  What the machine can touch. Running code changes accounts only through the cache of the current state and
  through the account of its closure, so the copies in a snapshot survive whatever runs after the snapshot
  was taken; and the closure of a frame changes in its gas only.
\<close>

section \<open>Worlds\<close>

text \<open>\<open>touches C W W'\<close>: from \<open>W\<close> to \<open>W'\<close> only accounts that are cached or in \<open>C\<close> have changed, and
  the cache has got new accounts at most.\<close>

definition refs :: "State \<Rightarrow> nat set" where
  "refs s = snd ` set (stateObjects s)"

definition touches :: "nat set \<Rightarrow> World \<Rightarrow> World \<Rightarrow> bool" where
  "touches C W W' =
     (length (objects W) \<le> length (objects W') \<and>
      refs (w_state W') \<subseteq> refs (w_state W) \<union> {length (objects W)..<length (objects W')} \<and>
      (\<forall>r < length (objects W). r \<notin> refs (w_state W) \<union> C \<longrightarrow> object_at W' r = object_at W r))"

named_theorems touch_intros \<open>steps between worlds that touch cached accounts only\<close>

lemma touches_refl [simp, touch_intros]: "touches C W W"
  by (auto simp: touches_def)

lemma touches_refs_trans:
  assumes "touches C W W1" and "touches D W1 W2"
  shows "refs (w_state W2) \<subseteq> refs (w_state W) \<union> {length (objects W)..<length (objects W2)} \<and>
    length (objects W) \<le> length (objects W2)"
proof -
  have l: "length (objects W) \<le> length (objects W1)" "length (objects W1) \<le> length (objects W2)"
    and r1: "r \<in> refs (w_state W1) \<Longrightarrow> r \<in> refs (w_state W) \<or> length (objects W) \<le> r \<and> r < length (objects W1)"
    and r2: "r \<in> refs (w_state W2) \<Longrightarrow> r \<in> refs (w_state W1) \<or> length (objects W1) \<le> r \<and> r < length (objects W2)" for r
    using assms by (auto simp: touches_def)
  have "r \<in> refs (w_state W) \<union> {length (objects W)..<length (objects W2)}" if "r \<in> refs (w_state W2)" for r
    using r1 [of r] r2 [of r] l that by auto
  then show ?thesis using l by (intro conjI subsetI) simp_all
qed

lemma touches_trans:
  assumes "touches C W W1" and "touches C W1 W2"
  shows "touches C W W2"
proof -
  have l: "length (objects W) \<le> length (objects W1)"
    and r1: "r \<in> refs (w_state W1) \<Longrightarrow> r \<in> refs (w_state W) \<or> length (objects W) \<le> r" for r
    using assms(1) by (auto simp: touches_def)
  have "object_at W2 r = object_at W r" if "r < length (objects W)" "r \<notin> refs (w_state W) \<union> C" for r
  proof -
    have "r \<notin> refs (w_state W1) \<union> C" "r < length (objects W1)" using r1 [of r] l that by auto
    then have "object_at W2 r = object_at W1 r" using assms(2) by (simp add: touches_def)
    also have "\<dots> = object_at W r" using assms(1) that by (simp add: touches_def)
    finally show ?thesis .
  qed
  then show ?thesis using touches_refs_trans [OF assms] by (simp add: touches_def)
qed

lemma touches_mono: "touches C W W' \<Longrightarrow> C \<subseteq> C' \<Longrightarrow> touches C' W W'"
  by (auto simp: touches_def)

lemma touches_same: "objects W' = objects W \<Longrightarrow> refs (w_state W') \<subseteq> refs (w_state W) \<Longrightarrow> touches C W W'"
  by (auto simp: touches_def object_at_def)

lemma set_update_subset: "set (AList.update k r kr) \<subseteq> insert (k, r) (set kr)"
  by (induction kr) auto

lemma refs_cache: "refs (w_state (cache_object addr r W)) \<subseteq> insert r (refs (w_state W))"
  using set_update_subset [of addr r "stateObjects (w_state W)"] by (auto simp: refs_def cache_object_def)

lemma refs_cache_new: "r \<in> refs (w_state (cache_object addr r W))"
proof -
  have "map_of (AList.update addr r (stateObjects (w_state W))) addr = Some r" by (simp add: update_conv')
  from map_of_SomeD [OF this] show ?thesis by (force simp: refs_def cache_object_def)
qed

lemma touches_change: "r \<in> refs (w_state W) \<union> C \<Longrightarrow> touches C W (change_object r f W)"
proof -
  assume r: "r \<in> refs (w_state W) \<union> C"
  have "object_at (change_object r f W) q = object_at W q" if "q \<notin> refs (w_state W) \<union> C" for q
  proof -
    have "q \<noteq> r" using r that by auto
    then show ?thesis by (simp add: object_at_def change_object_def)
  qed
  then show ?thesis by (simp add: touches_def)
qed

lemma touches_set_state: "refs s = refs (w_state W) \<Longrightarrow> touches C W (set_state s W)"
  by (intro touches_same) simp_all

lemma touches_new: "touches C W (cache_object addr (length (objects W)) (snd (new_object obj W)))"
proof -
  let ?r = "length (objects W)" and ?W = "snd (new_object obj W)"
  have "w_state ?W = w_state W" "objects ?W = objects W @ [obj]" by (simp_all add: new_object_def)
  moreover have "objects (cache_object addr ?r ?W) = objects ?W" by (simp add: cache_object_def)
  ultimately show ?thesis using refs_cache [of addr ?r ?W] by (auto simp: touches_def object_at_def nth_append)
qed

lemma refs_trie [simp]: "refs (s\<lparr>st_Trie := t\<rparr>) = refs s"
  by (simp add: refs_def)

lemma GetStateObject_touches:
  assumes "GetStateObject addr W = Some (obj, W')"
  shows "touches C W W'" and "obj = Some r \<Longrightarrow> r \<in> refs (w_state W')"
proof -
  let ?a = "Address addr" and ?s = "w_state W"
  have "touches C W W' \<and> (obj = Some r \<longrightarrow> r \<in> refs (w_state W'))"
  proof (cases "map_of (stateObjects ?s) ?a")
    case (Some q)
    then show ?thesis using assms map_of_SomeD [OF Some] by (force simp: GetStateObject_def Let_def refs_def)
  next
    case None
    then obtain data t where t: "Trie_Get (with_db (w_db W) (st_Trie ?s)) ?a = Some (data, t)"
      using assms by (auto simp: GetStateObject_def Let_def split: Option.bind_splits)
    let ?W = "set_state (?s\<lparr>st_Trie := t\<rparr>) W"
    have W: "touches C W ?W" by (intro touches_set_state) simp
    show ?thesis
    proof (cases "data = []")
      case True
      then show ?thesis using assms None t W by (auto simp: GetStateObject_def Let_def)
    next
      case False
      then obtain acc where "NewStateObjectFromBytes (w_db W) ?a data = Some acc"
        using assms None t by (auto simp: GetStateObject_def Let_def split: Option.bind_splits)
      then have "obj = Some (length (objects ?W))" "W' = cache_object ?a (length (objects ?W)) (snd (new_object acc ?W))"
        using assms None t False by (auto simp: GetStateObject_def Let_def new_object_def)
      then show ?thesis using touches_trans [OF W touches_new] refs_cache_new by auto
    qed
  qed
  then show "touches C W W'" "obj = Some r \<Longrightarrow> r \<in> refs (w_state W')" by blast+
qed

lemma State_NewStateObject_touches:
  assumes "State_NewStateObject addr W = (r, W')"
  shows "touches C W W'" and "r \<in> refs (w_state W')"
proof -
  have "r = length (objects W)"
    "W' = cache_object (Address addr) r (snd (new_object (NewStateObject (w_db W) (Address addr)) W))"
    using assms by (auto simp: State_NewStateObject_def Let_def new_object_def)
  then show "touches C W W'" "r \<in> refs (w_state W')" using touches_new refs_cache_new by auto
qed

lemma GetOrNewStateObject_touches:
  assumes "GetOrNewStateObject addr W = Some (r, W')"
  shows "touches C W W'" and "r \<in> refs (w_state W')"
proof -
  obtain obj W1 where g: "GetStateObject addr W = Some (obj, W1)"
    using assms by (auto simp: GetOrNewStateObject_def split: Option.bind_splits)
  note G = GetStateObject_touches [OF g]
  have "touches C W W' \<and> r \<in> refs (w_state W')"
  proof (cases obj)
    case None
    then have "State_NewStateObject addr W1 = (r, W')" using assms g by (simp add: GetOrNewStateObject_def)
    from State_NewStateObject_touches [OF this] show ?thesis using touches_trans [OF G(1)] by blast
  next
    case (Some q)
    then have "q = r" "W' = W1" using assms g by (auto simp: GetOrNewStateObject_def)
    then show ?thesis using G Some by blast
  qed
  then show "touches C W W'" "r \<in> refs (w_state W')" by blast+
qed

lemma Get_field_touches:
  "GetBalance addr W = Some (b, W') \<Longrightarrow> touches C W W'"
  "GetNonce addr W = Some (n, W') \<Longrightarrow> touches C W W'"
  "GetCode addr W = Some (code, W') \<Longrightarrow> touches C W W'"
  by (auto simp: GetBalance_def GetNonce_def GetCode_def split: Option.bind_splits dest: GetStateObject_touches(1))

lemma Closure_storage_touches:
  "Closure_GetStorage c x W = Some (v, W') \<Longrightarrow> touches {cl_object c} W W'"
  "touches {cl_object c} W (Closure_SetStorage c x u W)"
  by (auto simp: Closure_GetStorage_def Closure_SetStorage_def split: Option.bind_splits intro: touches_change)

lemma manifest_touches:
  "touches C W (AddStorageChange i a W)" "touches C W (set_output i out W)" "touches C W (snd (AddMessage m W))"
  by (auto intro!: touches_same simp: AddStorageChange_def set_output_def AddMessage_def)

lemma State_Copy_touches:
  assumes "State_Copy W = (s, W1)"
  shows "touches C W W1" and "w_state W1 = w_state W"
  using copy_objects_frame [OF State_Copy_eq(1) [OF assms]] by (auto simp: touches_def pointer_def)


section \<open>One instruction\<close>

text \<open>\<open>stays F V F' V'\<close>: the frame still runs the same closure, and of the world it has touched the cached
  accounts and its own account at most.\<close>

definition stays :: "Frame \<Rightarrow> Vm \<Rightarrow> Frame \<Rightarrow> Vm \<Rightarrow> bool" where
  "stays F V F' V' =
     (fr_closure F' = fr_closure F \<and> touches {cl_object (fr_closure F)} (vm_world V) (vm_world V'))"

text \<open>\<open>s\<close> is a snapshot of the state of \<open>W\<close>, and since it was taken the account \<open>r\<close> and cached ones at
  most have been touched.\<close>

definition snapshot_of :: "nat \<Rightarrow> World \<Rightarrow> State \<Rightarrow> World \<Rightarrow> bool" where
  "snapshot_of r W s W' = (\<exists>W1. State_Copy W = (s, W1) \<and> touches {r} W1 W')"

primrec kind_snapshot :: "call_kind \<Rightarrow> State" where
  "kind_snapshot (Kind_Call s a l) = s"
| "kind_snapshot (Kind_Create s addr) = s"

primrec outcome_ok :: "Frame \<Rightarrow> Vm \<Rightarrow> outcome \<Rightarrow> bool" where
  "outcome_ok F V (Next F' V') = stays F V F' V'"
| "outcome_ok F V (Halt ret err F' V') = stays F V F' V'"
| "outcome_ok F V (Panic F' V') =
     (fr_closure F' \<in> {fr_closure F, drain (fr_closure F)} \<and>
      touches {cl_object (fr_closure F)} (vm_world V) (vm_world V'))"
| "outcome_ok F V (Call m a k F' V') =
     (fr_closure F' \<in> {fr_closure F, drain (fr_closure F)} \<and>
      snapshot_of (cl_object (fr_closure F)) (vm_world V) (kind_snapshot k) (vm_world V'))"
| "outcome_ok F V (Stuck s) = True"

lemma stays_refl [simp]: "fr_closure F' = fr_closure F \<Longrightarrow> vm_world V' = vm_world V \<Longrightarrow> stays F V F' V'"
  by (simp add: stays_def)

lemma stays_trans: "stays F V F1 V1 \<Longrightarrow> stays F1 V1 F2 V2 \<Longrightarrow> stays F V F2 V2"
  unfolding stays_def using touches_trans by auto

lemma frame_simps [simp]:
  "fr_closure (advance F) = fr_closure F" "vm_world (set_world W V) = W" "vm_queue (set_world W V) = vm_queue V"
  "fr_closure (fst (set_mem m F V)) = fr_closure F" "vm_world (snd (set_mem m F V)) = vm_world V"
  "fr_stack (fst (set_mem m F V)) = fr_stack F"
  by (simp_all add: advance_def set_world_def set_mem_def Let_def)

lemma write_mem_stays:
  "write_mem R a l v (F, V) = Some (F', V') \<Longrightarrow>
     fr_closure F' = fr_closure F \<and> vm_world V' = vm_world V \<and> fr_stack F' = fr_stack F"
  by (auto simp: write_mem_def set_mem_def Let_def)

lemma write_slots_stays:
  "write_slots R slots (F, V) = Some (F', V') \<Longrightarrow> fr_closure F' = fr_closure F \<and> vm_world V' = vm_world V"
proof (induction R slots "(F, V)" arbitrary: F V rule: write_slots.induct)
  case (2 R a b slots)
  then show ?case by (fastforce split: Option.bind_splits dest: write_mem_stays)
qed simp

lemma lift_stack_ok: "outcome_ok F V (lift_stack F V r)"
  by (simp add: lift_stack_def split: option.split)

lemma lift_frame_ok:
  "(\<And>F' V'. r = Some (F', V') \<Longrightarrow> stays F V F' V') \<Longrightarrow> outcome_ok F V (lift_frame F V r)"
proof -
  assume *: "\<And>F' V'. r = Some (F', V') \<Longrightarrow> stays F V F' V'"
  show ?thesis
  proof (cases r)
    case (Some FV)
    obtain F' V' where "FV = (F', V')" by (cases FV)
    then show ?thesis using * Some by (simp add: lift_frame_def stays_def)
  qed (simp add: lift_frame_def)
qed

text \<open>The groups of the switch.\<close>

lemma position_op_closure: "position_op R op F = Some (Some F') \<Longrightarrow> fr_closure F' = fr_closure F"
  by (cases op) (auto simp: position_op_def Let_def split: Option.bind_splits)

lemma jump_op_closure: "jump_op op F = Some (Some F') \<Longrightarrow> fr_closure F' = fr_closure F"
  by (cases op) (auto simp: jump_op_def Let_def split: Option.bind_splits if_splits)

lemma memory_op_stays:
  assumes "memory_op R op F V = Some (Some (F', V'))"
  shows "fr_closure F' = fr_closure F \<and> vm_world V' = vm_world V"
  using assms
  by (cases op) (auto simp: memory_op_def Let_def set_mem_def split: Option.bind_splits dest!: write_mem_stays)

lemma account_op_touches:
  "account_op op F W = Some (Some (st, W')) \<Longrightarrow> touches {cl_object (fr_closure F)} W W'"
  by (cases op) (auto simp: account_op_def Let_def split: Option.bind_splits dest: Get_field_touches(1,2))

lemma storage_op_touches:
  assumes "storage_op op F W = Some (Some (st, W'))"
  shows "touches {cl_object (fr_closure F)} W W'"
proof -
  have "touches {cl_object c} W (AddStorageChange i a (Closure_SetStorage c x u W))" for c i a x u
    using touches_trans [OF Closure_storage_touches(2) manifest_touches(1)] .
  with assms show ?thesis
    by (cases op) (auto simp: storage_op_def Let_def split: Option.bind_splits dest: Closure_storage_touches(1))
qed

lemma lift_world_ok:
  assumes "\<And>st W. r = Some (st, W) \<Longrightarrow> touches {cl_object (fr_closure F)} (vm_world V) W"
  shows "outcome_ok F V (lift_world F V r)"
  unfolding lift_world_def using assms by (intro lift_frame_ok) (auto simp: stays_def)

lemma copy_data_stays:
  "copy_data R data F V = Some (F', V') \<Longrightarrow> fr_closure F' = fr_closure F \<and> vm_world V' = vm_world V"
  by (auto simp: copy_data_def split: Option.bind_splits dest!: write_mem_stays)

lemma rlpencode_op_stays:
  "rlpencode_op R F V = Some (F', V') \<Longrightarrow> fr_closure F' = fr_closure F \<and> vm_world V' = vm_world V"
  by (auto simp: rlpencode_op_def Let_def split: Option.bind_splits dest!: write_mem_stays)

lemma post_op_stays:
  "post_op F V = Some (F', V') \<Longrightarrow> fr_closure F' = fr_closure F \<and> vm_world V' = vm_world V"
  by (auto simp: post_op_def Let_def split: Option.bind_splits)

lemma decode_loop_no_call: "decode_loop R start chunkStart i ds F V \<noteq> Call m a k F' V'"
  by (induction R start chunkStart i ds F V rule: decode_loop.induct) (auto split: option.split)

lemma decode_loop_ok: "outcome_ok F V (decode_loop R start chunkStart i ds F V)"
proof (induction R start chunkStart i ds F V rule: decode_loop.induct)
  case (2 R start chunkStart i dd ds F V)
  let ?w = "write_slots R (decode_slots start chunkStart i (Value_Bytes dd)) (F, V)"
  show ?case
  proof (cases "Value_IsList dd \<and> Value_Slice dd \<noteq> []")
    case False
    show ?thesis
    proof (cases ?w)
      case None
      with False show ?thesis by auto
    next
      case (Some FV)
      obtain F1 V1 where FV: "FV = (F1, V1)" by (cases FV)
      have "fr_closure F1 = fr_closure F" "vm_world V1 = vm_world V" using write_slots_stays Some FV by blast+
      moreover have "outcome_ok F1 V1 (decode_loop R start chunkStart (i + 1) ds F1 V1)"
        using "2.IH" False Some FV by blast
      ultimately show ?thesis using False Some FV
        by (cases "decode_loop R start chunkStart (i + 1) ds F1 V1") (auto simp: stays_def decode_loop_no_call)
    qed
  qed auto
qed simp


lemma rlpdecode_op_ok: "outcome_ok F V (rlpdecode_op R F V)"
proof (cases "do { require 3 (fr_stack F); (sz, offset, st) \<leftarrow> Stack_Popn (fr_stack F); (pos, st) \<leftarrow> Stack_Pop st;
    (d, used) \<leftarrow> rlp_input F offset sz; Some (sz, offset, pos, st, d, used) }")
  case None
  then show ?thesis unfolding rlpdecode_op_def by simp
next
  case (Some x)
  obtain sz offset pos st d used where x: "x = (sz, offset, pos, st, d, used)" by (cases x) auto
  let ?n = "int (length (Value_Slice d))" and ?s = "big_Int64 pos"
  let ?w = "write_mem R ?s 32 (LeftPadBytes [word_of_int ?n] 32) (F, V)"
  show ?thesis
  proof (cases "\<not> Value_IsList d \<or> \<not> rlp_apart F offset sz used ?s ?n")
    case True
    then show ?thesis unfolding rlpdecode_op_def Some x by (auto simp: Let_def)
  next
    case ok: False
    show ?thesis
    proof (cases ?w)
      case None
      then show ?thesis using ok unfolding rlpdecode_op_def Some x by (simp add: Let_def)
    next
      case w: (Some FV)
      obtain F1 V1 where FV: "FV = (F1, V1)" by (cases FV)
      have FV1: "fr_closure F1 = fr_closure F" "vm_world V1 = vm_world V" using write_mem_stays w FV by blast+
      let ?out = "decode_loop R ?s (int64 (?s + 32 * (2 * ?n + 1))) 0 (Value_Slice d) F1 V1"
      have "rlpdecode_op R F V = (case ?out of Next F V \<Rightarrow> Next (advance (F\<lparr>fr_stack := Stack_Push ?n st\<rparr>)) V | out \<Rightarrow> out)"
        using ok w FV unfolding rlpdecode_op_def Some x by (simp add: Let_def)
      moreover have "outcome_ok F1 V1 ?out" by (rule decode_loop_ok)
      ultimately show ?thesis using FV1 by (cases ?out) (auto simp: stays_def decode_loop_no_call)
    qed
  qed
qed

lemma create_enter_ok: "outcome_ok F V (create_enter R F V)"
proof (cases "do { require 3 (fr_stack F); (v, st) \<leftarrow> Stack_Pop (fr_stack F); (sz, offset, st) \<leftarrow> Stack_Popn st;
    input \<leftarrow> read_mem F offset sz; Some (v, st, input) }")
  case None
  then show ?thesis unfolding create_enter_def by simp
next
  case (Some x)
  obtain v st input where x: "x = (v, st, input)" by (cases x) auto
  let ?c = "fr_closure F"
  obtain s W1 where cp: "State_Copy (vm_world V) = (s, W1)" by fastforce
  note W1 = State_Copy_touches(1) [OF cp, of "{cl_object ?c}"]
  show ?thesis
  proof (cases "do { addr \<leftarrow> CreateAddress (platform R) (Closure_Address ?c W1) (Nonce (object_at W1 (cl_object ?c)));
      (found, W) \<leftarrow> GetStateObject addr W1; Some (addr, found, W) }")
    case None
    then show ?thesis using W1 unfolding create_enter_def Some x by (simp add: cp)
  next
    case y: (Some y)
    obtain addr found W2 where yy: "y = (addr, found, W2)" by (cases y) auto
    have g: "GetStateObject addr W1 = Some (found, W2)" using y yy by (auto split: Option.bind_splits)
    let ?W3 = "change_object (cl_object ?c) IncNonce W2"
    have W3: "touches {cl_object ?c} W1 ?W3"
      using touches_trans [OF GetStateObject_touches(1) [OF g] touches_change] by simp
    show ?thesis
    proof (cases found)
      case (Some q)
      then show ?thesis unfolding create_enter_def \<open>_ = Some x\<close> x by (simp add: cp y yy)
    next
      case nf: None
      show ?thesis
      proof (cases "GetOrNewStateObject addr ?W3")
        case None
        then show ?thesis using touches_trans [OF W1 W3]
          unfolding create_enter_def Some x by (simp add: cp y yy nf Let_def)
      next
        case z: (Some z)
        obtain r W4 where zz: "z = (r, W4)" by (cases z)
        note G = GetOrNewStateObject_touches [OF z [unfolded zz]]
        have "touches {cl_object ?c} W1 (change_object r (\<lambda>obj. obj\<lparr>Code := input\<rparr>) W4)"
          using touches_trans [OF W3 touches_trans [OF G(1) touches_change]] G(2) by simp
        then show ?thesis
          unfolding create_enter_def Some x by (simp add: cp y yy nf z zz Let_def snapshot_of_def)
      qed
    qed
  qed
qed


lemma call_enter_ok: "outcome_ok F V (call_enter F V)"
proof -
  obtain s W1 where cp: "State_Copy (vm_world V) = (s, W1)" by fastforce
  then show ?thesis
    unfolding call_enter_def cp by (auto simp: snapshot_of_def cp split: option.split Option.bind_splits prod.split)
qed

lemma suicide_op_touches: "suicide_op F W = Some W' \<Longrightarrow> touches {cl_object (fr_closure F)} W W'"
proof -
  assume "suicide_op F W = Some W'"
  then obtain a r W1 where g: "GetOrNewStateObject (big_bytes a) W = Some (r, W1)"
    and W': "W' = change_object (cl_object (fr_closure F)) MarkForDeletion
      (change_object r (AddAmount (Balance (object_at W1 (cl_object (fr_closure F))))) W1)"
    by (auto simp: suicide_op_def Let_def split: Option.bind_splits)
  note G = GetOrNewStateObject_touches [OF g]
  show ?thesis unfolding W'
    using touches_trans [OF touches_trans [OF G(1) touches_change] touches_change] G(2) by simp
qed

lemma extcodecopy_ok: "outcome_ok F V (extcodecopy R F V)"
proof (cases "do { (a, st) \<leftarrow> Stack_Pop (fr_stack F); (code, W) \<leftarrow> GetCode (big_bytes a) (vm_world V); Some (code, W, st) }")
  case None
  then show ?thesis by (simp add: extcodecopy_def)
next
  case (Some x)
  obtain code W st where x: "x = (code, W, st)" by (cases x) auto
  then have "touches {cl_object (fr_closure F)} (vm_world V) W"
    using Some by (auto split: Option.bind_splits dest: Get_field_touches(3))
  then have t: "touches {cl_object (fr_closure F)} (vm_world V) (vm_world (set_world W V))" by simp
  let ?r = "copy_data R code (F\<lparr>fr_stack := st\<rparr>) (set_world W V)"
  have e: "extcodecopy R F V = lift_frame F (set_world W V) ?r" unfolding extcodecopy_def Some x by simp
  show ?thesis
  proof (cases ?r)
    case None
    then show ?thesis using t by (simp add: e lift_frame_def)
  next
    case (Some FV)
    obtain F' V' where FV: "FV = (F', V')" by (cases FV)
    have "fr_closure F' = fr_closure F" "vm_world V' = vm_world (set_world W V)"
      using copy_data_stays [OF Some [unfolded FV]] by simp_all
    then show ?thesis using t Some FV by (simp add: e lift_frame_def stays_def)
  qed
qed

lemma other_op_ok: "outcome_ok F V (other_op R op F V)"
  by (cases op)
    (auto simp: other_op_def lift_stack_ok rlpdecode_op_ok extcodecopy_ok create_enter_ok call_enter_ok stays_def
      split: option.split intro!: lift_frame_ok dest: rlpencode_op_stays copy_data_stays post_op_stays suicide_op_touches)

lemma exec_op_ok: "outcome_ok F V (exec_op R E op F V)"
proof -
  have p: "outcome_ok F V (lift_frame F V (map_option (\<lambda>F'. (F', V)) r))" if "position_op R op F = Some r" for r
    using that position_op_closure by (intro lift_frame_ok) auto
  have j: "outcome_ok F V (case r of None \<Rightarrow> Panic F V | Some F' \<Rightarrow> Next F' V)" if "jump_op op F = Some r" for r
    using that jump_op_closure by (auto split: option.split)
  have m: "outcome_ok F V (lift_frame F V r)" if "memory_op R op F V = Some r" for r
    using that memory_op_stays by (intro lift_frame_ok) auto
  have a: "outcome_ok F V (lift_world F V r)" if "account_op op F (vm_world V) = Some r" for r
    using that account_op_touches by (intro lift_world_ok) auto
  have s: "outcome_ok F V (lift_world F V r)" if "storage_op op F (vm_world V) = Some r" for r
    using that storage_op_touches by (intro lift_world_ok) auto
  show ?thesis
    unfolding exec_op_def by (simp add: lift_stack_ok other_op_ok p j m a s split: option.split)
qed


text \<open>The permission check of the environment only reads the state.\<close>

definition doug_reads :: "Environment \<Rightarrow> bool" where
  "doug_reads E = (\<forall>a role W b W'. DougValidate E a role W = Some (b, W') \<longrightarrow> touches {} W W')"

primrec charge_world :: "charge \<Rightarrow> World" where
  "charge_world (Charge g n V) = vm_world V"
| "charge_world (Refuse e V) = vm_world V"
| "charge_world (Gas_Panic V) = vm_world V"

lemma step_gas_touches:
  assumes "doug_reads E"
  shows "touches {cl_object (fr_closure F)} (vm_world V) (charge_world (step_gas E op F V))"
proof -
  have "touches {cl_object (fr_closure F)} (vm_world V) (charge_world (sstore_gas F V))"
    unfolding sstore_gas_def
    by (auto simp: Let_def split: option.split Option.bind_splits dest: Closure_storage_touches(1))
  moreover have "touches {cl_object (fr_closure F)} (vm_world V) (charge_world (create_gas E F V))"
  proof -
    have "DougValidate E a role W = Some (b, W') \<Longrightarrow> touches {cl_object (fr_closure F)} W W'" for a role W b W'
      using assms touches_mono [of "{}"] unfolding doug_reads_def by blast
    then show ?thesis unfolding create_gas_def by (auto split: option.split bool.split)
  qed
  moreover have "touches {cl_object (fr_closure F)} (vm_world V) (charge_world (rlpdecode_gas F V))"
    unfolding rlpdecode_gas_def by (auto split: option.split)
  ultimately show ?thesis by (auto simp: step_gas_def split: option.split)
qed

section \<open>Runs\<close>

text \<open>\<open>within o V0 out\<close>: what the outcome of an instruction of the account \<open>o\<close> may have changed since the
  world \<open>V0\<close>.\<close>

primrec within :: "nat \<Rightarrow> World \<Rightarrow> outcome \<Rightarrow> bool" where
  "within q W (Next F V) = (cl_object (fr_closure F) = q \<and> touches {q} W (vm_world V))"
| "within q W (Halt ret err F V) = touches {q} W (vm_world V)"
| "within q W (Panic F V) = touches {q} W (vm_world V)"
| "within q W (Call m a k F V) =
     (cl_object (fr_closure F) = q \<and> touches {q} W (vm_world V) \<and>
      refs (kind_snapshot k) \<subseteq> {length (objects W)..<length (objects (vm_world V))})"
| "within q W (Stuck s) = True"

lemma snapshot_refs:
  assumes "State_Copy W = (s, W1)"
  shows "refs s \<subseteq> {length (objects W)..<length (objects W1)}"
proof -
  have "snd ` set kr' \<subseteq> {length (objects W)..<length (objects W1)}"
    if "copy_objects kr W = (kr', W1)" for kr kr' W W1
    using that
  proof (induction kr W arbitrary: kr' W1 rule: copy_objects.induct)
    case (2 k r kr W)
    obtain r' W' where new: "new_object (StateObject_Copy (w_db W) (object_at W r)) W = (r', W')" by fastforce
    obtain kr1 where rest: "copy_objects kr W' = (kr1, W1)" and kr': "kr' = (k, r') # kr1"
      using "2.prems" new by (auto split: prod.splits)
    have "r' = length (objects W)" "length (objects W') = Suc r'" using new by (auto simp: new_object_def)
    moreover have "length (objects W') \<le> length (objects W1)" using copy_objects_frame [OF rest] by simp
    ultimately show ?case using "2.IH" [OF new [symmetric] refl rest] kr' by fastforce
  qed simp
  then show ?thesis using State_Copy_eq(1) [OF assms] by (simp add: refs_def)
qed


lemma outcome_within:
  assumes "outcome_ok F V out" and "touches {q} W (vm_world V)" and q: "cl_object (fr_closure F) = q"
  shows "within q W out"
proof (cases out)
  case (Call m a k F' V')
  obtain W1 where W1: "State_Copy (vm_world V) = (kind_snapshot k, W1)" "touches {q} W1 (vm_world V')"
    using assms(1) Call q by (auto simp: snapshot_of_def)
  note c = State_Copy_touches(1) [OF W1(1)] snapshot_refs [OF W1(1)]
  have t: "touches {q} W (vm_world V')" using touches_trans [OF assms(2) touches_trans [OF c(1) W1(2)]] .
  have "length (objects W) \<le> length (objects (vm_world V))" "length (objects W1) \<le> length (objects (vm_world V'))"
    using assms(2) W1(2) by (simp_all add: touches_def)
  then have "refs (kind_snapshot k) \<subseteq> {length (objects W)..<length (objects (vm_world V'))}" using c(2) by fastforce
  with t show ?thesis using assms(1) Call q by (auto simp: drain_def)
qed (use assms touches_trans [OF assms(2)] in \<open>auto simp: stays_def\<close>)

lemma step_within:
  assumes "doug_reads E"
  shows "within (cl_object (fr_closure F)) (vm_world V) (step R E F V)"
proof (cases "fetch_op R F")
  case (Some op)
  let ?q = "cl_object (fr_closure F)"
  note g = step_gas_touches [OF assms, of F V op]
  show ?thesis
  proof (cases "step_gas E op F V")
    case (Charge g0 n V1)
    let ?c = "Closure_UseGas (mem_gas (round_mem n) (fr_mem F) g0) (fr_closure F)"
    have obj: "cl_object (snd ?c) = ?q" by (simp add: Closure_UseGas_def)
    show ?thesis
    proof (cases "fst ?c")
      case True
      let ?F = "F\<lparr>fr_closure := snd ?c\<rparr>"
      obtain F' V' where FV: "set_mem (Memory_Resize (growslice R) (fr_mem F) (big_Uint64 (round_mem n))) ?F V1 = (F', V')"
        by fastforce
      then have F': "fr_closure F' = snd ?c" "vm_world V' = vm_world V1"
        using frame_simps(4,5) [of "Memory_Resize (growslice R) (fr_mem F) (big_Uint64 (round_mem n))" ?F V1] by simp_all
      have "step R E F V = exec_op R E op F' V'"
        using Some Charge True FV unfolding step_def by (cases ?c) (simp add: Let_def)
      then show ?thesis using outcome_within [OF exec_op_ok, of ?q "vm_world V" V' F'] g Charge F' obj by simp
    next
      case False
      then show ?thesis using Some Charge g unfolding step_def by (cases ?c) (simp add: Let_def)
    qed
  qed (use Some g in \<open>simp_all add: step_def\<close>)
qed (simp add: step_def)

lemma touches_change_later:
  assumes "touches C W W'" and "r \<in> refs (w_state W) \<union> C \<or> length (objects W) \<le> r"
  shows "touches C W (change_object r f W')"
proof -
  have "object_at (change_object r f W') q = object_at W q"
    if "q < length (objects W)" "q \<notin> refs (w_state W) \<union> C" for q
  proof -
    have "q \<noteq> r" using assms(2) that by auto
    then show ?thesis using assms(1) that by (simp add: touches_def object_at_def change_object_def)
  qed
  then show ?thesis using assms(1) by (simp add: touches_def)
qed

lemma touches_callee:
  assumes "touches {q} W W1" and "touches {r} W1 W2" and "r \<in> refs (w_state W) \<or> length (objects W) \<le> r"
  shows "touches {q} W W2"
proof -
  have "object_at W2 p = object_at W p" if p: "p < length (objects W)" "p \<notin> refs (w_state W) \<union> {q}" for p
  proof -
    have "p \<notin> refs (w_state W1) \<union> {r}" "p < length (objects W1)" using assms(1,3) p by (auto simp: touches_def)
    then have "object_at W2 p = object_at W1 p" using assms(2) by (simp add: touches_def)
    also have "\<dots> = object_at W p" using assms(1) p by (simp add: touches_def)
    finally show ?thesis .
  qed
  then show ?thesis using touches_refs_trans [OF assms(1,2)] by (simp add: touches_def)
qed

lemma touches_State_Set:
  assumes "touches C W W'" and "refs s \<subseteq> {length (objects W)..<length (objects W')}"
  shows "touches C W (State_Set s W')"
  using assms by (auto simp: touches_def State_Set_def)

text \<open>What \<open>Exec\<close> may have changed, and where the account it has run comes from.\<close>

primrec exec_within :: "nat \<Rightarrow> World \<Rightarrow> exec_result \<Rightarrow> bool" where
  "exec_within q W (Executed ret err refund obj V) =
     (touches {q} W (vm_world V) \<and>
      (\<forall>r. obj = Some r \<longrightarrow> r \<in> refs (w_state W) \<or> length (objects W) \<le> r))"
| "exec_within q W (Exec_Panic V) = touches {q} W (vm_world V)"
| "exec_within q W (Exec_Stuck s) = True"

lemma resume_within:
  assumes res: "exec_within q (vm_world V) res" and call: "within q W (Call m a k F V)"
  shows "within q W (resume R k F res)"
proof (cases res)
  case (Executed ret err refund obj V')
  have t: "touches {q} W (vm_world V')" "touches {q} W (vm_world V)"
    using res call Executed touches_trans by auto
  have len: "length (objects (vm_world V)) \<le> length (objects (vm_world V'))"
    "length (objects W) \<le> length (objects (vm_world V))" using res Executed t by (simp_all add: touches_def)
  have "touches {q} W (State_Set (kind_snapshot k) (vm_world V'))"
    using touches_State_Set [OF t(1), of "kind_snapshot k"] call len by fastforce
  moreover have "touches {q} W (change_object r f (vm_world V'))" if "obj = Some r" for r f
  proof (rule touches_change_later [OF t(1)])
    have "r \<in> refs (w_state (vm_world V)) \<or> length (objects (vm_world V)) \<le> r" using res Executed that by simp
    then show "r \<in> refs (w_state W) \<union> {q} \<or> length (objects W) \<le> r" using t(2) len by (auto simp: touches_def)
  qed
  moreover have "cl_object (fr_closure F) = q" using call by simp
  ultimately show ?thesis
    using t(1) Executed unfolding resume_defs
    by (auto simp: Let_def Closure_ReturnGas_def lift_frame_def split: call_kind.split option.split dest: write_mem_stays)
qed (use assms touches_trans in \<open>auto simp: resume_def\<close>)


lemma exec_enter_within:
  "case exec_enter R E m a q V of
     Settled res \<Rightarrow> exec_within q (vm_world V) res
   | Enter c r V' \<Rightarrow> cl_object c = r \<and> touches {q} (vm_world V) (vm_world V') \<and>
       (r \<in> refs (w_state (vm_world V)) \<or> length (objects (vm_world V)) \<le> r)"
proof -
  let ?W = "vm_world V"
  obtain i W1 where add: "AddMessage (new_message E m q ?W) ?W = (i, W1)" by fastforce
  have W1: "touches {q} ?W W1" using manifest_touches(3) [of "{q}" ?W "new_message E m q ?W"] add by simp
  have out: "touches {q} ?W (set_output i ret W1)" for ret using touches_trans [OF W1 manifest_touches(2)] .
  show ?thesis
  proof (cases "Balance (object_at W1 q) < pm_value m \<or> map_of (Precompiled R) (big_bytes (BigD (pm_address m))) \<noteq> None")
    case True
    then show ?thesis using W1 out by (auto simp: exec_enter_def add Let_def split: option.split)
  next
    case False
    then have no: "\<not> Balance (object_at W1 q) < pm_value m"
      "map_of (Precompiled R) (big_bytes (BigD (pm_address m))) = None" by blast+
    show ?thesis
    proof (cases "GetOrNewStateObject (pm_address m) W1")
      case None
      then show ?thesis using W1 by (simp add: exec_enter_def add no)
    next
      case (Some x)
      obtain r W2 where x: "x = (r, W2)" by (cases x)
      note G = GetOrNewStateObject_touches [OF Some [unfolded x]]
      let ?W3 = "change_object r (AddAmount (pm_value m)) (change_object q (SubAmount (pm_value m)) W2)"
      have W2: "touches {q} ?W W2" using touches_trans [OF W1 G(1)] .
      have W3: "touches {q} ?W ?W3"
        using touches_trans [OF W2 touches_trans [OF touches_change touches_change]] G(2) by simp
      have r: "r \<in> refs (w_state ?W) \<or> length (objects ?W) \<le> r" using W2 G(2) by (auto simp: touches_def)
      show ?thesis
      proof (cases "GetCode a ?W3")
        case None
        then show ?thesis using Some x W3 by (simp add: exec_enter_def add no)
      next
        case (Some y)
        obtain code W4 where y: "y = (code, W4)" by (cases y)
        have "touches {q} ?W W4" using touches_trans [OF W3 Get_field_touches(3) [OF Some [unfolded y]]] .
        then show ?thesis using \<open>_ = Some x\<close> x Some y r by (simp add: exec_enter_def add no NewClosure_def)
      qed
    qed
  qed
qed

lemma call_worlds [simp]: "vm_world (push_call c V) = vm_world V" "vm_world (pop_call V) = vm_world V"
  by (simp_all add: push_call_def pop_call_def Let_def)

lemma RunClosure_Finished:
  "RunClosure R E (Suc n) c V = Some (Finished ret err g V') \<Longrightarrow> cl_Code c \<noteq> [] \<Longrightarrow>
     \<exists>V1. run_frame R E n (new_frame c) (push_call c V) = Some (Finished ret err g V1) \<and> V' = pop_call V1"
  by (cases "run_frame R E n (new_frame c) (push_call c V)"; cases "the (run_frame R E n (new_frame c) (push_call c V))")
    auto

text \<open>The machine as a whole. A call passes on its account as the one that may be touched, so the account of
  the callee must be cached or new.\<close>

lemma run_within:
  shows "run_frame R E n F V = Some (Finished ret err g V') \<Longrightarrow> doug_reads E \<Longrightarrow>
      touches {cl_object (fr_closure F)} (vm_world V) (vm_world V')"
    and "RunClosure R E n c V = Some (Finished ret err g V') \<Longrightarrow> doug_reads E \<Longrightarrow>
      touches {cl_object c} (vm_world V) (vm_world V')"
    and "Exec R E n m a q V = Some res \<Longrightarrow> doug_reads E \<Longrightarrow> exec_within q (vm_world V) res"
    and "finish R E n out = Some (Finished ret err g V') \<Longrightarrow> doug_reads E \<Longrightarrow> within q W out \<Longrightarrow>
      touches {q} W (vm_world V')"
proof (induction R E n F V and R E n c V and R E n m a q V and R E n out
    arbitrary: ret err g V' and ret err g V' and res and ret err g V' q W
    rule: run_frame_RunClosure_Exec_finish.induct)
  case (2 R E n F V)
  then show ?case using step_within by simp
next
  case (6 R E n F V)
  then have "touches {q} (vm_world V) (vm_world V')" by auto
  then show ?case using "6.prems" touches_trans by auto
next
  case (8 R E n m a k F V)
  then obtain res where res: "Exec R E n m a (cl_object (fr_closure F)) V = Some res"
    "finish R E n (resume R k F res) = Some (Finished ret err g V')" by (auto split: Option.bind_splits)
  have q: "cl_object (fr_closure F) = q" using "8.prems" by simp
  have "exec_within q (vm_world V) res" using "8.IH"(1) [OF res(1)] "8.prems" q by simp
  from resume_within [OF this "8.prems"(3)] show ?case using "8.IH"(2) [OF res] "8.prems" by blast
next
  case (10 R E n c V)
  show ?case
  proof (cases "cl_Code c = []")
    case False
    with RunClosure_Finished "10.prems"(1) obtain V1 where
      "run_frame R E n (new_frame c) (push_call c V) = Some (Finished ret err g V1)" "V' = pop_call V1" by blast
    then show ?thesis using "10.IH" False "10.prems"(2) by (auto simp: new_frame_def)
  qed (use "10.prems" in simp)
next
  case (12 R E n m a q V)
  note e = exec_enter_within [where R = R and E = E and m = m and a = a and q = q and V = V]
  show ?case
  proof (cases "exec_enter R E m a q V")
    case (Settled r)
    then show ?thesis using "12.prems" e by simp
  next
    case (Enter c r V1)
    then obtain rr where rr: "RunClosure R E n c V1 = Some rr" "res = exec_leave (cl_message c) r (vm_queue V) rr"
      using "12.prems" by auto
    show ?thesis
    proof (cases rr)
      case (Finished ret err g V2)
      have "touches {r} (vm_world V1) (vm_world V2)" using "12.IH" [OF Enter] "12.prems"(2) rr(1) Finished Enter e by auto
      then have "touches {q} (vm_world V) (vm_world V2)" using touches_callee e Enter by auto
      then show ?thesis
        using rr(2) Finished Enter e touches_trans [OF _ manifest_touches(2)] by (auto simp: exec_leave_def)
    qed (simp add: rr(2) exec_leave_def)
  qed
qed auto


section \<open>Failed calls\<close>

lemma failed_call_state:
  assumes doug: "doug_reads E"
    and cached: "refs (w_state (vm_world V)) \<subseteq> {..<length (objects (vm_world V))}"
    and self: "cl_object (fr_closure F) < length (objects (vm_world V))"
    and call: "call_enter F V = Call m a k F1 V1 \<or> create_enter R F V = Call m a k F1 V1"
    and exec: "Exec R E n m a (cl_object (fr_closure F)) V1 = Some (Executed ret (Some e) refund obj V2)"
  obtains F2 V3 where "resume R k F1 (Executed ret (Some e) refund obj V2) = Next F2 V3"
    "fr_stack F2 = 0 # fr_stack F1" "cl_object (fr_closure F2) = cl_object (fr_closure F)"
    "\<And>key. account_view (vm_world V3) key = account_view (vm_world V) key"
    "Root (st_Trie (w_state (vm_world V3))) = Root (st_Trie (w_state (vm_world V)))"
    "\<And>key r. map_of (stateObjects (w_state (vm_world V3))) key = Some r \<Longrightarrow> \<not> pointer (vm_world V) r"
proof -
  let ?q = "cl_object (fr_closure F)" and ?W = "vm_world V" and ?s = "kind_snapshot k"
  have "outcome_ok F V (Call m a k F1 V1)" using call call_enter_ok [of F V] create_enter_ok [of F V R] by auto
  then obtain W1 where W1: "State_Copy ?W = (?s, W1)" "touches {?q} W1 (vm_world V1)" "cl_object (fr_closure F1) = ?q"
    by (auto simp: snapshot_of_def drain_def)
  have "touches {?q} (vm_world V1) (vm_world V2)" using run_within(3) [OF exec doug] by simp
  then have t: "touches {?q} W1 (vm_world V2)" using touches_trans [OF W1(2)] by blast
  have new: "\<forall>r. \<not> pointer ?W r \<longrightarrow> pointer W1 r \<longrightarrow> object_at (vm_world V2) r = object_at W1 r"
    using t cached self by (auto simp: touches_def pointer_def State_Copy_touches(2) [OF W1(1)])
  have "\<forall>(key, r) \<in> set (stateObjects (w_state ?W)). pointer ?W r"
    using cached by (auto simp: refs_def pointer_def)
  note st = State_Set_restores [OF this W1(1) new]
  obtain F2 where F2: "resume R k F1 (Executed ret (Some e) refund obj V2) = Next F2 (set_world (State_Set ?s (vm_world V2)) V2)"
    "fr_stack F2 = 0 # fr_stack F1" "cl_object (fr_closure F2) = ?q"
    using W1(3) by (cases k) (simp_all add: resume_defs advance_def Closure_ReturnGas_def Stack_Push_def)
  show ?thesis by (rule that [OF F2]) (use st in auto)
qed

lemma exec_op_SSTORE:
  "exec_op R E SSTORE (F\<lparr>fr_stack := loc # v # st\<rparr>) V =
     Next (advance (F\<lparr>fr_stack := st\<rparr>)) (set_world (AddStorageChange (cl_message (fr_closure F)) (big_bytes loc)
       (Closure_SetStorage (fr_closure F) loc (VBig v) (vm_world V))) V)"
  by (simp add: exec_op_def arith_op_def compare_op_def bit_op_def context_op_def block_op_def
      counter_op_def position_op_def jump_op_def memory_op_def account_op_def storage_op_def
      lift_world_def lift_frame_def require_def Let_def)

lemma SSTORE_uncached:
  assumes "\<And>key r. map_of (stateObjects (w_state W)) key = Some r \<Longrightarrow> r \<noteq> cl_object c"
  shows "account_view (AddStorageChange i a (Closure_SetStorage c loc v W)) key = account_view W key"
  using assms [of key]
  by (cases "map_of (stateObjects (w_state W)) key")
    (auto simp: account_view_def AddStorageChange_def Closure_SetStorage_def change_object_def object_at_def Let_def)

section \<open>Properties\<close>

text \<open>C1: a call that fails leaves no trace. Whatever code \<open>Exec\<close> has run, if it returns an error then after
  the instruction every account in the cache of the state has the balance, nonce, code, storage and flags it had
  before, the state trie has its root, and the caller finds 0 on its stack. This holds for \<open>CALL\<close> and for
  \<open>CREATE\<close>, for any environment whose permission check only reads the state.\<close>

theorem failed_call_restores:
  assumes doug: "doug_reads E"
    and cached: "refs (w_state (vm_world V)) \<subseteq> {..<length (objects (vm_world V))}"
    and self: "cl_object (fr_closure F) < length (objects (vm_world V))"
    and call: "call_enter F V = Call m a k F1 V1 \<or> create_enter R F V = Call m a k F1 V1"
    and exec: "Exec R E n m a (cl_object (fr_closure F)) V1 = Some (Executed ret (Some e) refund obj V2)"
  shows "\<exists>F2 V3. resume R k F1 (Executed ret (Some e) refund obj V2) = Next F2 V3 \<and>
    fr_stack F2 = 0 # fr_stack F1 \<and>
    (\<forall>key. account_view (vm_world V3) key = account_view (vm_world V) key) \<and>
    Root (st_Trie (w_state (vm_world V3))) = Root (st_Trie (w_state (vm_world V)))"
  by (rule failed_call_state [OF assms]) blast

text \<open>C29: after a failed call the caller writes to an account that the state has forgotten. The snapshot that is put
  back holds copies, while the closure keeps its pointer; the next \<open>SSTORE\<close>, at any place and with any value, goes
  on without an error and changes no account of the state: what the contract stores there is lost.\<close>

theorem storage_lost_after_failed_call:
  assumes doug: "doug_reads E"
    and cached: "refs (w_state (vm_world V)) \<subseteq> {..<length (objects (vm_world V))}"
    and self: "cl_object (fr_closure F) < length (objects (vm_world V))"
    and call: "call_enter F V = Call m a k F1 V1 \<or> create_enter R F V = Call m a k F1 V1"
    and exec: "Exec R E n m a (cl_object (fr_closure F)) V1 = Some (Executed ret (Some e) refund obj V2)"
  shows "\<exists>F2 V3. resume R k F1 (Executed ret (Some e) refund obj V2) = Next F2 V3 \<and>
    (\<forall>loc v st. \<exists>F4 V4. exec_op R E SSTORE (F2\<lparr>fr_stack := loc # v # st\<rparr>) V3 = Next F4 V4 \<and>
       (\<forall>key. account_view (vm_world V4) key = account_view (vm_world V) key))"
proof (rule failed_call_state [OF assms])
  fix F2 V3
  assume r: "resume R k F1 (Executed ret (Some e) refund obj V2) = Next F2 V3"
    "cl_object (fr_closure F2) = cl_object (fr_closure F)"
    "\<And>key. account_view (vm_world V3) key = account_view (vm_world V) key"
    "\<And>key q. map_of (stateObjects (w_state (vm_world V3))) key = Some q \<Longrightarrow> \<not> pointer (vm_world V) q"
  have "map_of (stateObjects (w_state (vm_world V3))) key = Some q \<Longrightarrow> q \<noteq> cl_object (fr_closure F2)" for key q
    using r(2,4) self by (auto simp: pointer_def)
  from SSTORE_uncached [OF this] show ?thesis using r(1,3) by (simp add: exec_op_SSTORE)
qed

text \<open>C14: a call of an account without code moves exactly the value of the message from the caller to that account,
  gives all its gas back and touches nothing else; with less on the caller's balance than the value, it
  fails and moves nothing. The value may be negative, as the machine's numbers can be: the balance then always covers it,
  and the call moves money from the account called to the caller.\<close>

theorem call_transfers:
  assumes "map_of (Precompiled R) (big_bytes (BigD (pm_address m))) = None"
    and "map_of (stateObjects (w_state (vm_world V))) (Address (pm_address m)) = Some r"
    and "Code (object_at (vm_world V) r) = []" and "pointer (vm_world V) r" and "pointer (vm_world V) q"
  shows "\<exists>V'. Exec R E (Suc (Suc n)) m (pm_address m) q V =
      (if Balance (object_at (vm_world V) q) < pm_value m
       then Some (Executed [] (Some Insufficient_funds) (pm_gas m) None V')
       else Some (Executed [] None (pm_gas m) (Some r) V')) \<and>
    vm_queue V' = vm_queue V \<and> w_state (vm_world V') = w_state (vm_world V) \<and>
    (\<forall>p. object_at (vm_world V') p =
       (let c = object_at (vm_world V) p in
        if Balance (object_at (vm_world V) q) < pm_value m then c
        else c\<lparr>Balance := Balance c + (if p = r then pm_value m else 0) - (if p = q then pm_value m else 0)\<rparr>))"
proof -
  let ?W = "vm_world V" and ?v = "pm_value m"
  obtain i W1 where am: "AddMessage (new_message E m q ?W) ?W = (i, W1)" by fastforce
  then have W1: "w_state W1 = w_state ?W" "object_at W1 p = object_at ?W p" "pointer W1 p = pointer ?W p" for p
    by (auto simp: AddMessage_def object_at_def pointer_def)
  show ?thesis
  proof (cases "Balance (object_at ?W q) < ?v")
    case True
    then have "Exec R E (Suc (Suc n)) m (pm_address m) q V = Some (Executed [] (Some Insufficient_funds) (pm_gas m) None (set_world W1 V))"
      using am W1 by (simp add: exec_enter_def)
    then show ?thesis using True W1 by simp
  next
    case False
    let ?W2 = "change_object r (AddAmount ?v) (change_object q (SubAmount ?v) W1)"
    have pc: "pointer (change_object p f W') p' = pointer W' p'" for p p' f W' by (simp add: pointer_def)
    have o: "object_at ?W2 p = (let c = object_at ?W p in
        c\<lparr>Balance := Balance c + (if p = r then ?v else 0) - (if p = q then ?v else 0)\<rparr>)" for p
      using assms(4,5) W1 by (auto simp: heap.get_change pc AddAmount_def SubAmount_def Let_def)
    have "GetCode (pm_address m) ?W2 = Some ([], ?W2)"
      using assms(2,3) o [of r] W1(1) by (simp add: GetCode_def GetStateObject_def Let_def)
    then have e: "exec_enter R E m (pm_address m) q V =
        Enter ((NewClosure i q r [] (pm_gas m) (pm_price m))\<lparr>Args := pm_input m\<rparr>) r (V\<lparr>vm_world := ?W2, vm_queue := []\<rparr>)"
      using False am W1 assms(1,2) by (simp add: exec_enter_def GetOrNewStateObject_def GetStateObject_def Let_def)
    have so: "object_at (set_output j out W') p = object_at W' p" "w_state (set_output j out W') = w_state W'" for j out W' p
      by (simp_all add: set_output_def object_at_def)
    show ?thesis using False e o W1(1) by (simp add: NewClosure_def exec_leave_def so)
  qed
qed

end
