(* ===== verification/Vm_Gas.thy ===== *)
theory Vm_Gas
  imports Vm_Frame
begin

text \<open>
  Gas. Every instruction that goes on pays for it, but for an \<open>SSTORE\<close> that clears a value, which
  shrinks the stack instead; a call hands on less than its caller has, and gives back no more than it got. So
  no run creates gas, and the length of a run is bounded by its gas.
\<close>

section \<open>The price of an instruction\<close>

lemma stack_gas_price:
  assumes "stack_gas op st = Some (g, n)"
  shows "0 \<le> g" and "op \<notin> {STOP, SUICIDE} \<Longrightarrow> 1 \<le> g"
    and "op \<in> {CALL, CALLSTATELESS} \<Longrightarrow> \<exists>t. from_top 1 st = Some t \<and> 20 + max 0 t \<le> g"
proof -
  have call: "call_gas st = Some (g, n) \<Longrightarrow> \<exists>t. from_top 1 st = Some t \<and> 20 + max 0 t \<le> g"
    by (auto simp: call_gas_def addStepGasUsage_def gas_prices split: Option.bind_splits if_splits)
  show "0 \<le> g" "op \<notin> {STOP, SUICIDE} \<Longrightarrow> 1 \<le> g"
    using assms call by (cases op; force simp: stack_gas_def gas_prices split: Option.bind_splits)+
  show "op \<in> {CALL, CALLSTATELESS} \<Longrightarrow> \<exists>t. from_top 1 st = Some t \<and> 20 + max 0 t \<le> g"
    using assms call by (auto simp: stack_gas_def)
qed

lemma step_gas_price:
  assumes "step_gas E op F V = Charge g n V'"
  shows "0 \<le> g" and "op \<notin> {STOP, SUICIDE, SSTORE} \<Longrightarrow> 1 \<le> g"
    and "op \<in> {CALL, CALLSTATELESS} \<Longrightarrow> \<exists>t. from_top 1 (fr_stack F) = Some t \<and> 20 + max 0 t \<le> g"
proof -
  have s: "sstore_gas F V = Charge g n V' \<Longrightarrow> 0 \<le> g"
    by (auto simp: sstore_gas_def Let_def gas_prices split: option.splits if_splits)
  have c: "create_gas E F V = Charge g n V' \<Longrightarrow> 1 \<le> g"
    by (auto simp: create_gas_def gas_prices split: option.splits bool.splits)
  have r: "rlpdecode_gas F V = Charge g n V' \<Longrightarrow> 1 \<le> g"
    by (auto simp: rlpdecode_gas_def gas_prices split: option.splits if_splits)
  have o: "stack_gas op (fr_stack F) = Some (g, n)" if "op \<notin> {SSTORE, CREATE, RLPDECODE}"
    using assms that by (auto simp: step_gas_def split: option.splits)
  show "0 \<le> g" "op \<notin> {STOP, SUICIDE, SSTORE} \<Longrightarrow> 1 \<le> g"
    using assms s c r o stack_gas_price(1,2) by (auto simp: step_gas_def split: if_splits)
  show "op \<in> {CALL, CALLSTATELESS} \<Longrightarrow> \<exists>t. from_top 1 (fr_stack F) = Some t \<and> 20 + max 0 t \<le> g"
    using o stack_gas_price(3) by auto
qed

lemma mem_gas_ge: "g \<le> mem_gas n m g"
  by (simp add: mem_gas_def addStepGasUsage_def)

section \<open>Calls\<close>

lemma exec_op_Call:
  assumes "exec_op R E op F V = Call m a k F' V'"
  shows "op = CREATE \<and> fr_closure F' = drain (fr_closure F) \<and> pm_gas m = Gas (fr_closure F) \<or>
    op \<in> {CALL, CALLSTATELESS} \<and> fr_closure F' = fr_closure F \<and> from_top 1 (fr_stack F) = Some (pm_gas m)"
proof -
  have o: "other_op R op F V = Call m a k F' V'"
    using assms by (auto simp: exec_op_def lift_stack_def lift_frame_def lift_world_def split: option.splits prod.splits)
  have cr: "create_enter R F V = Call m a k F' V' \<Longrightarrow>
      fr_closure F' = drain (fr_closure F) \<and> pm_gas m = Gas (fr_closure F)"
    unfolding create_enter_def
    by (auto simp: Let_def NewMessage_def split: option.splits prod.splits)
  have "from_top 1 (fr_stack F) = Some g" if "Stack_Pop (fr_stack F) = Some (g, st)" for g st
    using that by (cases "fr_stack F") (simp_all add: from_top_def index_go_def)
  then have ca: "call_enter F V = Call m a k F' V' \<Longrightarrow>
      fr_closure F' = fr_closure F \<and> from_top 1 (fr_stack F) = Some (pm_gas m)"
    unfolding call_enter_def by (auto simp: Let_def NewMessage_def split: option.splits prod.splits Option.bind_splits)
  have "rlpdecode_op R F V \<noteq> Call m a k F' V'"
    unfolding rlpdecode_op_def by (auto simp: Let_def decode_loop_no_call split: option.splits prod.splits outcome.splits)
  moreover have "extcodecopy R F V \<noteq> Call m a k F' V'"
    by (auto simp: extcodecopy_def lift_frame_def split: option.splits)
  ultimately show ?thesis using o cr ca
    by (cases op) (auto simp: other_op_def lift_stack_def lift_frame_def split: option.splits)
qed


section \<open>The gas of an outcome\<close>

text \<open>The most gas that an outcome can still lead to: what the frame holds and what goes with a call.\<close>

primrec gas_in :: "outcome \<Rightarrow> int" where
  "gas_in (Next F V) = Gas (fr_closure F)"
| "gas_in (Halt ret err F V) = Gas (fr_closure F)"
| "gas_in (Panic F V) = Gas (fr_closure F)"
| "gas_in (Call m a k F V) = Gas (fr_closure F) + max 0 (pm_gas m)"
| "gas_in (Stuck s) = 0"

text \<open>An instruction that goes on has paid, or it has shrunk the stack.\<close>

definition progress :: "Frame \<Rightarrow> Frame \<Rightarrow> bool" where
  "progress F F' =
     (0 \<le> Gas (fr_closure F') \<and>
      (Gas (fr_closure F') < Gas (fr_closure F) \<or>
       Gas (fr_closure F') = Gas (fr_closure F) \<and> length (fr_stack F') < length (fr_stack F)))"

lemma Stack_Popn_shrinks: "Stack_Popn st = Some (x, y, st') \<Longrightarrow> length st' < length st"
  by (cases st rule: Stack_Popn.cases) auto

lemma exec_op_free:
  assumes "exec_op R E op F V = Next F' V'" and "op \<in> {STOP, SUICIDE, SSTORE}"
  shows "length (fr_stack F') < length (fr_stack F)"
proof -
  have e: "exec_op R E op F V = (case storage_op op F (vm_world V) of
      Some r \<Rightarrow> lift_world F V r | None \<Rightarrow> other_op R op F V)"
    using assms(2) by (auto simp: exec_op_def arith_op_def compare_op_def bit_op_def context_op_def block_op_def
        counter_op_def position_op_def jump_op_def memory_op_def account_op_def Let_def)
  have "op = SSTORE" using e assms by (auto simp: storage_op_def other_op_def Let_def split: option.splits)
  then show ?thesis using assms(1) e
    by (auto simp: storage_op_def lift_world_def lift_frame_def advance_def Let_def split: Option.bind_splits
        dest: Stack_Popn_shrinks)
qed

lemma exec_op_gas:
  "exec_op R E op F V = Next F' V' \<Longrightarrow> Gas (fr_closure F') = Gas (fr_closure F)"
  "exec_op R E op F V = Halt ret err F' V' \<Longrightarrow> Gas (fr_closure F') = Gas (fr_closure F)"
  "exec_op R E op F V = Panic F' V' \<Longrightarrow> 0 \<le> Gas (fr_closure F) \<Longrightarrow> Gas (fr_closure F') \<le> Gas (fr_closure F)"
  using exec_op_ok [of F V R E op] by (auto simp: stays_def drain_def)

lemma step_gas_in:
  shows "gas_in (step R E F V) \<le> max 0 (Gas (fr_closure F))"
    and "step R E F V = Next F' V' \<Longrightarrow> progress F F'"
    and "step R E F V = Call m a k F1 V1 \<Longrightarrow> 0 \<le> Gas (fr_closure F1) \<and>
      Gas (fr_closure F1) + max 0 (pm_gas m) < Gas (fr_closure F)"
proof -
  let ?G = "Gas (fr_closure F)"
  have "gas_in (step R E F V) \<le> max 0 ?G \<and>
    (\<forall>F' V'. step R E F V = Next F' V' \<longrightarrow> progress F F') \<and>
    (\<forall>m a k F1 V1. step R E F V = Call m a k F1 V1 \<longrightarrow>
      0 \<le> Gas (fr_closure F1) \<and> Gas (fr_closure F1) + max 0 (pm_gas m) < ?G)"
  proof (cases "fetch_op R F")
    case (Some op)
    show ?thesis
    proof (cases "step_gas E op F V")
      case (Charge g n V1)
      let ?g = "mem_gas (round_mem n) (fr_mem F) g"
      note price = step_gas_price [OF Charge] and ge = mem_gas_ge [of g "round_mem n" "fr_mem F"]
      show ?thesis
      proof (cases "?G < ?g")
        case True
        then show ?thesis using Some Charge by (simp add: step_def Closure_UseGas_def Let_def drain_def)
      next
        case False
        let ?c = "(fr_closure F)\<lparr>Gas := ?G - ?g, UsedGas := UsedGas (fr_closure F) + ?g\<rparr>"
        obtain F2 V2 where FV: "set_mem (Memory_Resize (growslice R) (fr_mem F) (big_Uint64 (round_mem n)))
            (F\<lparr>fr_closure := ?c\<rparr>) V1 = (F2, V2)" by fastforce
        then have F2: "fr_closure F2 = ?c" "fr_stack F2 = fr_stack F"
          by (auto simp: set_mem_def Let_def)
        have st: "step R E F V = exec_op R E op F2 V2"
          using Some Charge False FV by (simp add: step_def Closure_UseGas_def Let_def)
        have g: "0 \<le> Gas (fr_closure F2)" "Gas (fr_closure F2) = ?G - ?g" "0 \<le> ?g" "0 \<le> ?G"
          using F2 False price(1) ge by simp_all
        show ?thesis
        proof (cases "exec_op R E op F2 V2")
          case (Next F3 V3)
          have "Gas (fr_closure F3) = ?G - ?g" "0 \<le> Gas (fr_closure F3)" using exec_op_gas(1) [OF Next] g by simp_all
          moreover have "?g > 0 \<or> length (fr_stack F3) < length (fr_stack F)"
            using exec_op_free [OF Next] price(2) ge F2(2) by force
          ultimately show ?thesis using st Next g by (auto simp: progress_def)
        next
          case (Call m a k F3 V3)
          have "0 \<le> Gas (fr_closure F3) \<and> Gas (fr_closure F3) + max 0 (pm_gas m) < ?G"
            using exec_op_Call [OF Call] price(2,3) ge F2 g by (auto simp: drain_def)
          then show ?thesis using st Call by (simp add: max_def)
        next
          case (Halt ret err F3 V3)
          then show ?thesis using st g exec_op_gas(2) [OF Halt] by simp
        next
          case (Panic F3 V3)
          then show ?thesis using st g exec_op_gas(3) [OF Panic] by simp
        qed (use st in simp)
      qed
    qed (use Some in \<open>simp_all add: step_def\<close>)
  qed (simp add: step_def)
  then show "gas_in (step R E F V) \<le> max 0 ?G" "step R E F V = Next F' V' \<Longrightarrow> progress F F'"
    "step R E F V = Call m a k F1 V1 \<Longrightarrow> 0 \<le> Gas (fr_closure F1) \<and> Gas (fr_closure F1) + max 0 (pm_gas m) < ?G"
    by blast+
qed


section \<open>The size of the stack\<close>

text \<open>No instruction makes the stack grow by more than one number, and a call instruction
  leaves no more than there was.\<close>

primrec stack_grows :: "nat \<Rightarrow> outcome \<Rightarrow> bool" where
  "stack_grows n (Next F V) = (length (fr_stack F) \<le> Suc n)"
| "stack_grows n (Halt ret err F V) = True"
| "stack_grows n (Panic F V) = True"
| "stack_grows n (Call m a k F V) = (length (fr_stack F) \<le> n)"
| "stack_grows n (Stuck s) = True"

lemma Stack_Pop_length: "Stack_Pop st = Some (x, st') \<Longrightarrow> length st = Suc (length st')"
  by (cases st) auto

lemma Stack_Popn_length: "Stack_Popn st = Some (x, y, st') \<Longrightarrow> length st = Suc (Suc (length st'))"
  by (cases st rule: Stack_Popn.cases) auto

lemma Stack_Swapn_length: "Stack_Swapn n st = Some st' \<Longrightarrow> length st' = length st"
  by (auto simp: Stack_Swapn_def Let_def split: Option.bind_splits if_splits)

lemma Stack_Push_length [simp]: "length (Stack_Push d st) = Suc (length st)"
  by (simp add: Stack_Push_def)

lemmas pop_lengths = Stack_Pop_length Stack_Popn_length

lemma set_mem_stack: "set_mem m F V = (F', V') \<Longrightarrow> fr_stack F' = fr_stack F"
  by (auto simp: set_mem_def Let_def)

lemma op_lengths:
  "binop f st = Some st' \<Longrightarrow> length st' \<le> Suc (length st)"
  "unop g st = Some st' \<Longrightarrow> length st' \<le> Suc (length st)"
  "ternop h st = Some st' \<Longrightarrow> length st' \<le> Suc (length st)"
  by (auto simp: binop_def unop_def ternop_def split: Option.bind_splits dest!: pop_lengths)

lemma stack_ops_length:
  "arith_op op st = Some (Some st') \<Longrightarrow> length st' \<le> Suc (length st)"
  "compare_op op st = Some (Some st') \<Longrightarrow> length st' \<le> Suc (length st)"
  "bit_op op st = Some (Some st') \<Longrightarrow> length st' \<le> Suc (length st)"
  by (cases op; auto simp: arith_op_def compare_op_def bit_op_def dest: op_lengths)+

lemma context_ops_length:
  "context_op R E op F V = Some (Some st') \<Longrightarrow> length st' \<le> Suc (length (fr_stack F))"
  "block_op E op F = Some (Some st') \<Longrightarrow> length st' \<le> Suc (length (fr_stack F))"
  "counter_op op F = Some (Some st') \<Longrightarrow> length st' \<le> Suc (length (fr_stack F))"
  "account_op op F W = Some (Some (st', W')) \<Longrightarrow> length st' \<le> Suc (length (fr_stack F))"
  "storage_op op F W = Some (Some (st', W')) \<Longrightarrow> length st' \<le> Suc (length (fr_stack F))"
  by (cases op; auto simp: context_op_def block_op_def counter_op_def account_op_def storage_op_def Let_def
      split: Option.bind_splits dest!: pop_lengths)+

lemma frame_ops_length:
  "position_op R op F = Some (Some F') \<Longrightarrow> length (fr_stack F') \<le> Suc (length (fr_stack F))"
  "jump_op op F = Some (Some F') \<Longrightarrow> length (fr_stack F') \<le> Suc (length (fr_stack F))"
  "memory_op R op F V = Some (Some (F', V')) \<Longrightarrow> length (fr_stack F') \<le> Suc (length (fr_stack F))"
  by (cases op; auto simp: position_op_def jump_op_def memory_op_def Stack_Dupn_def advance_def Let_def
      split: Option.bind_splits if_splits
      dest!: pop_lengths Stack_Swapn_length write_mem_stays set_mem_stack)+

lemma lift_grows:
  "(\<And>st. r = Some st \<Longrightarrow> length st \<le> Suc n) \<Longrightarrow> stack_grows n (lift_stack F V r)"
  "(\<And>F' V'. q = Some (F', V') \<Longrightarrow> length (fr_stack F') \<le> Suc n) \<Longrightarrow> stack_grows n (lift_frame F V q)"
  "(\<And>st W. w = Some (st, W) \<Longrightarrow> length st \<le> Suc n) \<Longrightarrow> stack_grows n (lift_world F V w)"
  by (auto simp: lift_stack_def lift_frame_def lift_world_def advance_def split: option.split)

lemma copy_data_length: "copy_data R d F V = Some (F', V') \<Longrightarrow> length (fr_stack F') \<le> length (fr_stack F)"
  by (auto simp: copy_data_def split: Option.bind_splits dest!: pop_lengths write_mem_stays)

lemma rlpdecode_op_grows: "stack_grows (length (fr_stack F)) (rlpdecode_op R F V)"
  unfolding rlpdecode_op_def
  by (auto simp: Let_def decode_loop_no_call advance_def split: option.split outcome.split Option.bind_splits dest!: pop_lengths)

lemma enter_grows:
  "stack_grows (length (fr_stack F)) (create_enter R F V)"
  "stack_grows (length (fr_stack F)) (call_enter F V)"
  unfolding create_enter_def call_enter_def
  by (auto simp: Let_def split: option.split prod.split Option.bind_splits dest!: pop_lengths)

lemma other_op_grows: "stack_grows (length (fr_stack F)) (other_op R op F V)"
proof -
  have "sha3_op R F = Some st \<Longrightarrow> length st \<le> Suc (length (fr_stack F))" for st
    by (auto simp: sha3_op_def split: Option.bind_splits dest!: pop_lengths)
  moreover have "rlpencode_op R F V = Some (F', V') \<Longrightarrow> length (fr_stack F') \<le> Suc (length (fr_stack F))" for F' V'
    by (auto simp: rlpencode_op_def Let_def split: Option.bind_splits dest!: pop_lengths write_mem_stays)
  moreover have "post_op F V = Some (F', V') \<Longrightarrow> length (fr_stack F') \<le> Suc (length (fr_stack F))" for F' V'
    by (auto simp: post_op_def Let_def split: Option.bind_splits dest!: pop_lengths)
  moreover have "stack_grows (length (fr_stack F)) (extcodecopy R F V)"
    by (auto simp: extcodecopy_def split: option.split Option.bind_splits intro!: lift_grows
        dest!: pop_lengths copy_data_length)
  ultimately show ?thesis
    by (cases op) (auto simp: other_op_def rlpdecode_op_grows enter_grows split: option.split
        intro!: lift_grows dest: copy_data_length le_SucI)
qed

lemma exec_op_grows: "stack_grows (length (fr_stack F)) (exec_op R E op F V)"
proof -
  let ?g = "stack_grows (length (fr_stack F))"
  have s: "arith_op op (fr_stack F) = Some r \<Longrightarrow> ?g (lift_stack F V r)"
    "compare_op op (fr_stack F) = Some r \<Longrightarrow> ?g (lift_stack F V r)"
    "bit_op op (fr_stack F) = Some r \<Longrightarrow> ?g (lift_stack F V r)" for r
    using stack_ops_length by (auto intro: lift_grows(1))
  have c: "context_op R E op F V = Some r \<Longrightarrow> ?g (lift_stack F V r)"
    "block_op E op F = Some r \<Longrightarrow> ?g (lift_stack F V r)" "counter_op op F = Some r \<Longrightarrow> ?g (lift_stack F V r)" for r
    using context_ops_length(1-3) by (auto intro: lift_grows(1))
  have w: "account_op op F (vm_world V) = Some r \<Longrightarrow> ?g (lift_world F V r)"
    "storage_op op F (vm_world V) = Some r \<Longrightarrow> ?g (lift_world F V r)" for r
    using context_ops_length(4,5) by (auto intro: lift_grows(3))
  have p: "?g (lift_frame F V (map_option (\<lambda>F'. (F', V)) r))" if "position_op R op F = Some r" for r
    using that frame_ops_length(1) by (intro lift_grows) auto
  have j: "?g (case r of None \<Rightarrow> Panic F V | Some F' \<Rightarrow> Next F' V)" if "jump_op op F = Some r" for r
    using that frame_ops_length(2) by (auto split: option.split)
  have m: "?g (lift_frame F V r)" if "memory_op R op F V = Some r" for r
    using that frame_ops_length(3) by (intro lift_grows) auto
  show ?thesis
    unfolding exec_op_def by (simp add: other_op_grows s c w p j m split: option.split)
qed

lemma step_grows: "stack_grows (length (fr_stack F)) (step R E F V)"
proof -
  have "stack_grows (length (fr_stack F)) (case set_mem m (F\<lparr>fr_closure := c\<rparr>) V' of (F, V) \<Rightarrow> exec_op R E op F V)"
    for m c V' op
  proof (cases "set_mem m (F\<lparr>fr_closure := c\<rparr>) V'")
    case (Pair F1 V1)
    then show ?thesis using exec_op_grows [of F1 R E op V1] set_mem_stack [OF Pair] by simp
  qed
  then show ?thesis unfolding step_def by (simp add: Let_def split: option.split charge.split prod.split bool.split)
qed

lemma resume_grows:
  assumes "resume R k F res = Next F' V'"
  shows "length (fr_stack F') \<le> Suc (length (fr_stack F))"
  using assms unfolding resume_defs
  by (cases res; cases k) (auto simp: Let_def lift_frame_def advance_def split: option.splits if_splits dest!: write_mem_stays)


section \<open>Runs\<close>

text \<open>What comes back from a call is bounded by what went in.\<close>

primrec refund_le :: "int \<Rightarrow> exec_result \<Rightarrow> bool" where
  "refund_le b (Executed ret err refund obj V) = (refund \<le> b)"
| "refund_le b (Exec_Panic V) = True"
| "refund_le b (Exec_Stuck s) = True"

lemma resume_gas:
  assumes "refund_le (max 0 (pm_gas m)) res"
  shows "resume R k F res = Next F' V' \<Longrightarrow> Gas (fr_closure F') \<le> Gas (fr_closure F) + max 0 (pm_gas m)"
    and "gas_in (resume R k F res) \<le> max 0 (Gas (fr_closure F) + max 0 (pm_gas m))"
    and "resume R k F res \<noteq> Call m' a' k' F1 V1"
proof -
  have "(case resume R k F res of
      Next F' V' \<Rightarrow> Gas (fr_closure F') \<le> Gas (fr_closure F) + max 0 (pm_gas m)
    | Panic F' V' \<Rightarrow> Gas (fr_closure F') \<le> Gas (fr_closure F) + max 0 (pm_gas m)
    | Stuck s \<Rightarrow> True | _ \<Rightarrow> False)"
    using assms unfolding resume_defs
    by (cases res; cases k)
      (auto simp: Let_def Closure_ReturnGas_def lift_frame_def split: option.split dest!: write_mem_stays)
  then show "resume R k F res = Next F' V' \<Longrightarrow> Gas (fr_closure F') \<le> Gas (fr_closure F) + max 0 (pm_gas m)"
    "gas_in (resume R k F res) \<le> max 0 (Gas (fr_closure F) + max 0 (pm_gas m))"
    "resume R k F res \<noteq> Call m' a' k' F1 V1"
    by (auto split: outcome.splits)
qed

lemma exec_enter_gas:
  "case exec_enter R E m a q V of
     Settled res \<Rightarrow> refund_le (max 0 (pm_gas m)) res
   | Enter c r V' \<Rightarrow> Gas c = pm_gas m"
  unfolding exec_enter_def by (auto simp: Let_def NewClosure_def split: option.split prod.split)

lemma run_gas:
  shows "run_frame R E n F V = Some (Finished ret err g V') \<Longrightarrow> g \<le> max 0 (Gas (fr_closure F))"
    and "RunClosure R E n c V = Some (Finished ret err g V') \<Longrightarrow> g \<le> max 0 (Gas c)"
    and "Exec R E n m a q V = Some res \<Longrightarrow> refund_le (max 0 (pm_gas m)) res"
    and "finish R E n out = Some (Finished ret err g V') \<Longrightarrow> g \<le> max 0 (gas_in out)"
proof (induction R E n F V and R E n c V and R E n m a q V and R E n out
    arbitrary: ret err g V' and ret err g V' and res and ret err g V'
    rule: run_frame_RunClosure_Exec_finish.induct)
  case (2 R E n F V)
  have "g \<le> max 0 (gas_in (step R E F V))" using 2 by simp
  also have "\<dots> \<le> max 0 (Gas (fr_closure F))" using step_gas_in(1) [of R E F V] by simp
  finally show ?case .
next
  case (8 R E n m a k F V)
  then obtain res where res: "Exec R E n m a (cl_object (fr_closure F)) V = Some res"
    "finish R E n (resume R k F res) = Some (Finished ret err g V')" by (auto split: Option.bind_splits)
  have "g \<le> max 0 (gas_in (resume R k F res))" using "8.IH"(2) [OF res] .
  also have "\<dots> \<le> max 0 (Gas (fr_closure F) + max 0 (pm_gas m))"
    using resume_gas(2) [OF "8.IH"(1) [OF res(1)], of R k F] by simp
  finally show ?case by simp
next
  case (10 R E n c V)
  show ?case
  proof (cases "cl_Code c = []")
    case False
    with RunClosure_Finished "10.prems"(1) obtain V1 where
      "run_frame R E n (new_frame c) (push_call c V) = Some (Finished ret err g V1)" by blast
    then show ?thesis using "10.IH" False by (auto simp: new_frame_def)
  qed (use "10.prems" in simp)
next
  case (12 R E n m a q V)
  note e = exec_enter_gas [where R = R and E = E and m = m and a = a and q = q and V = V]
  show ?case
  proof (cases "exec_enter R E m a q V")
    case (Settled r)
    then show ?thesis using "12.prems" e by simp
  next
    case (Enter c r V1)
    then obtain rr where rr: "RunClosure R E n c V1 = Some rr" "res = exec_leave (cl_message c) r (vm_queue V) rr"
      using "12.prems" by auto
    then show ?thesis using "12.IH" [OF Enter] Enter e by (cases rr) (auto simp: exec_leave_def)
  qed
qed auto


section \<open>Every run ends\<close>

text \<open>More fuel does not change a result.\<close>

lemma fuel_Suc:
  shows "run_frame R E n F V = Some r \<Longrightarrow> run_frame R E (Suc n) F V = Some r"
    and "RunClosure R E n c V = Some r \<Longrightarrow> RunClosure R E (Suc n) c V = Some r"
    and "Exec R E n m a q V = Some res \<Longrightarrow> Exec R E (Suc n) m a q V = Some res"
    and "finish R E n out = Some r \<Longrightarrow> finish R E (Suc n) out = Some r"
proof (induction R E n F V and R E n c V and R E n m a q V and R E n out
    arbitrary: r and r and res and r rule: run_frame_RunClosure_Exec_finish.induct)
  case (2 R E n F V)
  then have "finish R E (Suc n) (step R E F V) = Some r" by simp
  then show ?case by (simp only: run_frame.simps(2))
next
  case (8 R E n m a k F V)
  then obtain res where res: "Exec R E n m a (cl_object (fr_closure F)) V = Some res"
    "finish R E n (resume R k F res) = Some r" by (auto split: Option.bind_splits)
  then have "Exec R E (Suc n) m a (cl_object (fr_closure F)) V = Some res"
    "finish R E (Suc n) (resume R k F res) = Some r" using "8.IH" by blast+
  then show ?case by (simp del: Exec.simps)
next
  case (10 R E n c V)
  then show ?case by (auto simp del: run_frame.simps)
next
  case (12 R E n m a q V)
  then show ?case by (auto simp del: RunClosure.simps split: entered.splits)
qed (simp_all del: run_frame.simps(2))

lemma fuel_mono:
  assumes "n \<le> n'"
  shows "run_frame R E n F V = Some r \<Longrightarrow> run_frame R E n' F V = Some r"
    and "RunClosure R E n c V = Some rc \<Longrightarrow> RunClosure R E n' c V = Some rc"
    and "Exec R E n m a q V = Some res \<Longrightarrow> Exec R E n' m a q V = Some res"
    and "finish R E n out = Some r \<Longrightarrow> finish R E n' out = Some r"
  using assms by (induction n' rule: dec_induct) (auto intro: fuel_Suc simp del: run_frame.simps RunClosure.simps Exec.simps)

text \<open>What a frame can still do: an instruction that pays a unit of gas pushes one number at most, and one that
  pays nothing takes a number off the stack.\<close>

definition work_bound :: "Frame \<Rightarrow> nat" where
  "work_bound F = 2 * nat (Gas (fr_closure F)) + length (fr_stack F)"

lemma step_Next_bound: "step R E F V = Next F' V' \<Longrightarrow> work_bound F' < work_bound F"
  using step_gas_in(2) [of R E F V F' V'] step_grows [of F R E V] by (auto simp: progress_def work_bound_def)

lemma resume_Next_bound:
  assumes "step R E F V = Call m a k F1 V1" and "refund_le (max 0 (pm_gas m)) res"
    and "resume R k F1 res = Next F2 V2"
  shows "work_bound F2 < work_bound F"
proof -
  have "0 \<le> Gas (fr_closure F1)" "Gas (fr_closure F1) + max 0 (pm_gas m) < Gas (fr_closure F)"
    using step_gas_in(3) [OF assms(1)] by simp_all
  then have "nat (Gas (fr_closure F2)) < nat (Gas (fr_closure F))" using resume_gas(1) [OF assms(2,3)] by linarith
  moreover have "length (fr_stack F2) \<le> Suc (length (fr_stack F))"
    using resume_grows [OF assms(3)] step_grows [of F R E V] assms(1) by simp
  ultimately show ?thesis unfolding work_bound_def by linarith
qed

lemma RunClosure_fuel:
  assumes "\<And>V. \<exists>r. run_frame R E n (new_frame c) V = Some r"
  shows "\<exists>r. RunClosure R E (Suc n) c V = Some r"
  using assms [of "push_call c V"] by auto

lemma Exec_fuel:
  assumes "\<And>c V. Gas c = pm_gas m \<Longrightarrow> \<exists>r. run_frame R E n (new_frame c) V = Some r"
  shows "\<exists>res. Exec R E (Suc (Suc n)) m a q V = Some res"
proof (cases "exec_enter R E m a q V")
  case (Enter c r V2)
  then have "Gas c = pm_gas m" using exec_enter_gas [where R = R and E = E and m = m and a = a and q = q and V = V] by simp
  from RunClosure_fuel [OF assms [OF this]] obtain rc where "RunClosure R E (Suc n) c V2 = Some rc" by blast
  then show ?thesis using Enter by (simp del: RunClosure.simps)
qed simp

text \<open>Two units for an instruction and one for the start.\<close>

lemma run_frame_bound: "\<exists>r. run_frame R E (2 * work_bound F + 1) F V = Some r"
proof (induction F arbitrary: V rule: measure_induct_rule [of work_bound])
  case (less F)
  have IH: "\<exists>r. run_frame R E n F' V' = Some r" if "work_bound F' < work_bound F" "2 * work_bound F' < n" for n F' V'
  proof -
    have "2 * work_bound F' + 1 \<le> n" using that(2) by simp
    from fuel_mono(1) [OF this] less.IH [OF that(1)] show ?thesis by blast
  qed
  have "\<exists>r. finish R E (2 * work_bound F) (step R E F V) = Some r"
  proof (cases "step R E F V")
    case (Next F' V')
    then show ?thesis using IH [OF step_Next_bound [OF Next]] step_Next_bound [OF Next] by simp
  next
    case (Call m a k F1 V1)
    let ?q = "cl_object (fr_closure F1)"
    have "nat (pm_gas m) < nat (Gas (fr_closure F))" using step_gas_in(3) [OF Call] by linarith
    then have b: "2 * nat (pm_gas m) + 2 \<le> work_bound F" unfolding work_bound_def by linarith
    define n where "n = 2 * work_bound F - 4"
    have n: "2 * work_bound F = Suc (Suc (Suc (Suc n)))" using b unfolding n_def by linarith
    have "\<exists>r. run_frame R E (Suc n) (new_frame c) V' = Some r" if "Gas c = pm_gas m" for c V'
      using that b n by (intro IH) (simp_all add: work_bound_def new_frame_def)
    from Exec_fuel [OF this] obtain res where res: "Exec R E (Suc (Suc (Suc n))) m a ?q V1 = Some res" by blast
    note le = run_gas(3) [OF res]
    have "\<exists>r. finish R E (Suc (Suc (Suc n))) (resume R k F1 res) = Some r"
    proof (cases "resume R k F1 res")
      case (Next F2 V2)
      then show ?thesis using IH [OF resume_Next_bound [OF Call le Next]] resume_Next_bound [OF Call le Next] n
        by (simp del: run_frame.simps)
    qed (use resume_gas(3) [OF le] in auto)
    then show ?thesis unfolding n Call using res by (simp del: Exec.simps)
  qed auto
  then show ?case by simp
qed


section \<open>Properties\<close>

text \<open>C3: a run of the machine is bounded by its gas. For any code, stack of callers and world, fuel of four
  units for each unit of gas and two more is enough for a result, and more fuel gives the same. The result is
  \<open>Finished\<close>, or \<open>Run_Stuck\<close> if the run has met one of the two situations that \<open>Stuck\<close> marks: \<open>CREATE\<close> on
  an address that is taken, where the program loops for ever, and \<open>RLPDECODE\<close> onto its own input, which the model does not
  follow. There is no other endless run.\<close>

theorem vm_terminates:
  "\<exists>res. \<forall>k. RunClosure R E (4 * nat (Gas c) + 2 + k) c V = Some res"
proof -
  have "work_bound (new_frame c) = 2 * nat (Gas c)" by (simp add: work_bound_def new_frame_def)
  then have "\<exists>r. run_frame R E (4 * nat (Gas c) + 1) (new_frame c) V' = Some r" for V'
    using run_frame_bound [of R E "new_frame c" V'] by simp
  from RunClosure_fuel [OF this, of V] obtain res where "RunClosure R E (4 * nat (Gas c) + 2) c V = Some res" by auto
  then show ?thesis using fuel_mono(2) [OF le_add1] by blast
qed

text \<open>C6: no run creates gas: whatever a closure runs and calls, what it leaves is at most the gas it was
  given, and at most 0 if that was negative. There is no bound from below: a message may carry negative
  gas, and a callee without code gives it back.\<close>

theorem gas_not_created:
  assumes "RunClosure R E n c V = Some (Finished ret err g V')"
  shows "g \<le> max 0 (Gas c)"
  using run_gas(2) [OF assms] .

end
