(* ===== verification/Vm_Words.thy ===== *)
theory Vm_Words
  imports Vm
begin

text \<open>
  The arithmetic of the machine on 256-bit words. The stack holds numbers of arbitrary size; these lemmas show
  which instructions compute on them as on words, and that all but \<open>NEG\<close> keep within the range of words.
\<close>

section \<open>Words\<close>

lemma ensure256_mod: "ensure256 x = x mod 2 ^ 256"
proof -
  have "push_bit 256 1 - 1 = (mask 256 :: int)" by (simp add: mask_eq_exp_minus_1 push_bit_eq_mult)
  then have "ensure256 x = (if take_bit 256 x < 0 then 0 else take_bit 256 x)"
    by (simp add: ensure256_def Let_def take_bit_eq_mask del: push_bit_numeral)
  then show ?thesis by (simp add: take_bit_eq_mod)
qed

lemma ensure256_range: "0 \<le> ensure256 x" "ensure256 x < 2 ^ 256"
  by (simp_all add: ensure256_mod)

lemma Pow256_eq: "Pow256 = 2 ^ 256"
  by (simp add: Pow256_def BigPow_def)

lemma uint_256: "0 \<le> uint (a :: 256 word)" "uint a < 2 ^ 256"
  using uint_lt2p [of a] by simp_all

lemma ensure256_uint: "ensure256 (uint (a :: 256 word)) = uint a"
  using uint_256 [of a] by (simp add: ensure256_mod)

lemma ensure256_0 [simp]: "ensure256 0 = 0"
  by (simp add: ensure256_mod)

lemma ensure256_word:
  "ensure256 (uint a + uint b) = uint (a + b :: 256 word)" "ensure256 (uint a - uint b) = uint (a - b :: 256 word)"
  "ensure256 (uint a * uint b) = uint (a * b :: 256 word)"
  by (simp_all add: ensure256_mod uint_word_ariths)

lemma binop_apply [simp]: "binop f (y # x # st) = map_option (\<lambda>v. v # st) (f y x)"
  by (cases "f y x") (simp_all add: binop_def require_def Stack_Push_def)

lemma unop_apply [simp]: "unop f (x # st) = Some (f x # st)"
  by (simp add: unop_def require_def Stack_Push_def)


lemma division_word:
  fixes a b :: "256 word"
  assumes "b \<noteq> 0"
  shows "big_Div (uint a) (uint b) = Some (uint (a div b))" "big_Mod (uint a) (uint b) = Some (uint (a mod b))"
proof -
  have "0 < uint b" using assms by (simp add: word_neq_0_conv word_less_def)
  then show "big_Div (uint a) (uint b) = Some (uint (a div b))" "big_Mod (uint a) (uint b) = Some (uint (a mod b))"
    by (simp_all add: big_Div_pos big_Mod_pos uint_div uint_mod)
qed

lemma exp_word: "ensure256 (exp256 (uint a) (uint (b :: 256 word))) = uint (a ^ unat b :: 256 word)"
proof (cases "uint b = 0")
  case True
  then have "unat b = 0" by (simp add: unat_eq_nat_uint)
  then show ?thesis using True by (simp add: exp256_def ensure256_mod)
next
  case False
  then have "\<not> uint b \<le> 0" using uint_256(1) [of b] by linarith
  then have "exp256 (uint a) (uint b) = uint a ^ nat (uint b) mod 2 ^ 256"
    by (simp only: exp256_def Pow256_eq if_False)
  moreover have "uint (a ^ n :: 256 word) = uint a ^ n mod 2 ^ 256" for n
    by (induction n) (simp_all add: uint_word_ariths mod_mult_right_eq)
  ultimately show ?thesis by (simp only: ensure256_mod mod_mod_trivial unat_eq_nat_uint)
qed

section \<open>Numbers that stay words\<close>

definition is_word :: "int \<Rightarrow> bool" where
  "is_word x = (0 \<le> x \<and> x < 2 ^ 256)"

lemma is_word_bit:
  assumes "is_word x" and "is_word y"
  shows "is_word (semiring_bit_operations_class.and x y)" "is_word (semiring_bit_operations_class.or x y)"
    "is_word (semiring_bit_operations_class.xor x y)"
proof -
  have t: "take_bit 256 x = x" "take_bit 256 y = y" using assms by (simp_all add: is_word_def take_bit_int_eq_self)
  have w: "is_word z" if "take_bit 256 z = z" for z :: int
    using take_bit_nonnegative [of 256 z] take_bit_int_less_exp [of 256 z] that by (simp add: is_word_def)
  show "is_word (semiring_bit_operations_class.and x y)" "is_word (semiring_bit_operations_class.or x y)"
    "is_word (semiring_bit_operations_class.xor x y)"
    by (rule w; simp add: t)+
qed

lemma is_word_ensure256 [simp]: "is_word (ensure256 x)"
  using ensure256_range by (simp add: is_word_def)

lemma is_word_truth [simp]: "is_word (truth b)"
  by (simp add: is_word_def truth_def)

lemma is_word_byte_of: "byte_of th v = Some x \<Longrightarrow> is_word x"
proof -
  have "0 \<le> uint (b :: byte) \<and> uint b < 2 ^ 256" for b using uint_lt2p [of b] by simp
  then show "byte_of th v = Some x \<Longrightarrow> is_word x" by (auto simp: byte_of_def is_word_def split: if_splits)
qed

lemma binop_words:
  assumes "binop f st = Some st'" and "list_all is_word st"
    and "\<And>x y v. is_word x \<Longrightarrow> is_word y \<Longrightarrow> f y x = Some v \<Longrightarrow> is_word v"
  shows "list_all is_word st'"
proof (cases st rule: Stack_Popn.cases)
  case (1 y x st1)
  then obtain v where "f y x = Some v" "st' = v # st1" using assms(1) by auto
  then show ?thesis using assms(2) assms(3) [of x y v] 1 by simp
qed (use assms(1) in \<open>simp_all add: binop_def require_def\<close>)

lemma unop_words:
  assumes "unop f st = Some st'" and "list_all is_word st" and "\<And>x. is_word x \<Longrightarrow> is_word (f x)"
  shows "list_all is_word st'"
  using assms by (cases st) (auto simp: unop_def require_def Stack_Push_def)

lemma ternop_words:
  assumes "ternop f st = Some st'" and "list_all is_word st" and "\<And>x y z v. f x y z = Some v \<Longrightarrow> is_word v"
  shows "list_all is_word st'"
  using assms
  by (cases st; cases "tl st"; cases "tl (tl st)") (auto simp: ternop_def require_def Stack_Push_def split: Option.bind_splits)

section \<open>Properties\<close>

text \<open>C18: the arithmetic, comparison and bit instructions compute on words as the operations of 256-bit
  machine words do, wrapping around where these do: \<open>a\<close> is the top of the stack and \<open>b\<close> the element below.
  The signed variants are the unsigned ones. \<open>MOD\<close> and \<open>SMOD\<close> by zero fail, and \<open>NEG\<close> does not wrap around: of 0 it
  is \<open>2 ^ 256\<close>, which is no word. \<open>BYTE\<close>, \<open>ADDMOD\<close> and \<open>MULMOD\<close> have no counterpart among the word operations.\<close>

theorem word_arithmetic:
  fixes a b :: "256 word"
  shows "arith_op ADD (uint a # uint b # st) = Some (Some (uint (a + b) # st)) \<and>
    arith_op SUB (uint a # uint b # st) = Some (Some (uint (a - b) # st)) \<and>
    arith_op MUL (uint a # uint b # st) = Some (Some (uint (a * b) # st)) \<and>
    arith_op DIV (uint a # uint b # st) = Some (Some (uint (a div b) # st)) \<and>
    arith_op SDIV (uint a # uint b # st) = Some (Some (uint (a div b) # st)) \<and>
    arith_op EXP (uint a # uint b # st) = Some (Some (uint (a ^ unat b) # st)) \<and>
    arith_op MOD (uint a # uint b # st) = Some (if b = 0 then None else Some (uint (a mod b) # st)) \<and>
    arith_op SMOD (uint a # uint b # st) = Some (if b = 0 then None else Some (uint (a mod b) # st)) \<and>
    arith_op NEG (uint a # st) = Some (Some ((if a = 0 then 2 ^ 256 else uint (- a)) # st)) \<and>
    compare_op LT (uint a # uint b # st) = Some (Some (truth (a < b) # st)) \<and>
    compare_op GT (uint a # uint b # st) = Some (Some (truth (b < a) # st)) \<and>
    compare_op SLT (uint a # uint b # st) = Some (Some (truth (a < b) # st)) \<and>
    compare_op SGT (uint a # uint b # st) = Some (Some (truth (b < a) # st)) \<and>
    compare_op EQ (uint a # uint b # st) = Some (Some (truth (a = b) # st)) \<and>
    compare_op NOT (uint a # st) = Some (Some (truth (a = 0) # st)) \<and>
    bit_op AND (uint a # uint b # st) = Some (Some (uint (semiring_bit_operations_class.and a b) # st)) \<and>
    bit_op OR (uint a # uint b # st) = Some (Some (uint (semiring_bit_operations_class.or a b) # st)) \<and>
    bit_op XOR (uint a # uint b # st) = Some (Some (uint (semiring_bit_operations_class.xor a b) # st))"
proof -
  have z: "uint b = 0 \<longleftrightarrow> b = 0" "a div 0 = 0" by (simp_all add: uint_0_iff)
  have d: "arith_op DIV (uint a # uint b # st) = Some (Some (uint (a div b) # st)) \<and>
      arith_op SDIV (uint a # uint b # st) = Some (Some (uint (a div b) # st))"
    by (cases "b = 0") (simp_all add: arith_op_def z division_word ensure256_uint)
  have m: "arith_op MOD (uint a # uint b # st) = Some (if b = 0 then None else Some (uint (a mod b) # st)) \<and>
      arith_op SMOD (uint a # uint b # st) = Some (if b = 0 then None else Some (uint (a mod b) # st))"
    by (cases "b = 0") (simp_all add: arith_op_def division_word ensure256_uint, simp_all add: big_Mod_def)
  have n: "uint a > 0 \<longleftrightarrow> a \<noteq> 0" using uint_256(1) [of a] by (auto simp: uint_0_iff order.order_iff_strict)
  have q: "uint b = uint a \<longleftrightarrow> a = b" by (auto simp: word_uint_eq_iff)
  have o: "arith_op ADD (uint a # uint b # st) = Some (Some (uint (a + b) # st)) \<and>
      arith_op SUB (uint a # uint b # st) = Some (Some (uint (a - b) # st)) \<and>
      arith_op MUL (uint a # uint b # st) = Some (Some (uint (a * b) # st)) \<and>
      arith_op EXP (uint a # uint b # st) = Some (Some (uint (a ^ unat b) # st))"
    by (simp add: arith_op_def ensure256_word exp_word)
  have "uint (- a) = 2 ^ 256 - uint a" if "a \<noteq> 0"
    using that n uint_256 [of a] by (simp add: uint_word_ariths zmod_zminus1_eq_if)
  then have g: "arith_op NEG (uint a # st) = Some (Some ((if a = 0 then 2 ^ 256 else uint (- a)) # st))"
    by (simp add: arith_op_def Pow256_eq)
  show ?thesis using d m o g
    by (simp add: compare_op_def bit_op_def word_less_def n q uint_and uint_or uint_xor)
qed


text \<open>C19: the instructions on numbers keep the stack within the words, whatever they compute, except \<open>NEG\<close>:
  a result of \<open>NEG\<close> is a word unless its operand is 0, when it is \<open>2 ^ 256\<close>.\<close>

theorem word_bounds:
  assumes "list_all is_word st"
    and "arith_op op st = Some (Some st') \<or> compare_op op st = Some (Some st') \<or> bit_op op st = Some (Some st')"
  shows "list_all is_word st' \<or> op = NEG \<and> hd st = 0 \<and> st' = 2 ^ 256 # tl st"
proof -
  have neg: "list_all is_word st' \<or> hd st = 0 \<and> st' = 2 ^ 256 # tl st" if "unop (\<lambda>x. Pow256 - x) st = Some st'"
    using that assms(1) unfolding Pow256_eq
    by (cases st) (auto simp: unop_def require_def Stack_Push_def is_word_def)
  note b = binop_words [OF _ assms(1)]
  have c: "compare_op op st = Some (Some st') \<Longrightarrow> list_all is_word st'"
    by (cases op) (auto simp: compare_op_def elim!: b unop_words [OF _ assms(1)])
  have t: "bit_op op st = Some (Some st') \<Longrightarrow> list_all is_word st'"
    by (cases op) (auto simp: bit_op_def is_word_bit elim!: b ternop_words [OF _ assms(1)] dest: is_word_byte_of)
  have a: "arith_op op st = Some (Some st') \<Longrightarrow> op \<noteq> NEG \<Longrightarrow> list_all is_word st'"
    by (cases op) (auto simp: arith_op_def elim!: b split: if_splits)
  have "arith_op NEG st = Some (Some st') \<Longrightarrow> unop (\<lambda>x. Pow256 - x) st = Some st'" by (simp add: arith_op_def)
  with assms(2) a c t neg show ?thesis by blast
qed

theorem word_bounds_witness:
  "\<exists>st'. bit_op XOR [2 ^ 255, 2 ^ 256 - 1, 7] = Some (Some st') \<and> list_all is_word st' \<and> length st' = 2"
proof -
  have w: "list_all is_word [2 ^ 255, 2 ^ 256 - 1, 7]" by (simp add: is_word_def)
  obtain st' where x: "bit_op XOR [2 ^ 255, 2 ^ 256 - 1, 7] = Some (Some st')" "length st' = 2" by (simp add: bit_op_def)
  from word_bounds [OF w, of XOR st'] x show ?thesis by auto
qed


text \<open>C20: a word stored with \<open>MSTORE\<close> is what \<open>MLOAD\<close> reads from the same offset, and every word that does not
  overlap it is kept.\<close>

theorem mload_after_mstore:
  assumes "word_fits (fr_mem F) a" and "is_word x" and "fr_stack F = a # x # st"
  shows "\<exists>F' V'. memory_op R MSTORE F V = Some (Some (F', V')) \<and> fr_stack F' = st \<and>
    memory_op R MLOAD (F'\<lparr>fr_stack := a # st\<rparr>) V' = Some (Some (F'\<lparr>fr_stack := x # st\<rparr>, V')) \<and>
    (\<forall>b w. Memory_Get (fr_mem F) b 32 = Some w \<longrightarrow> length w = 32 \<longrightarrow> 32 \<le> \<bar>a - b\<bar> \<longrightarrow>
      Memory_Get (fr_mem F') b 32 = Some w)"
proof -
  have x: "0 \<le> x" "x < 2 ^ 256" "\<bar>x\<bar> < 2 ^ 256" using assms(2) by (simp_all add: is_word_def)
  have a: "big_Int64 a = a" using assms(1) by (intro big_Int64_id) (simp_all add: word_fits_def)
  obtain m where m: "Memory_Set (growslice R) (fr_mem F) a 32 (BigToBytes x 256) = Some m"
    "map_option BigD (Memory_Get m a 32) = Some x"
    using memory.number_read_back [OF assms(1) x(1,2)] by blast
  obtain v where v: "Memory_Get m a 32 = Some v" "BigD v = x" using m(2) by blast
  obtain F' V' where FV: "set_mem m (F\<lparr>fr_stack := st\<rparr>) V = (F', V')" by fastforce
  then have F': "fr_stack F' = st" "fr_mem F' = m" by (auto simp: set_mem_def Let_def)
  have "memory_op R MSTORE F V = Some (Some (F', V'))"
    using assms(3) m(1) FV a by (simp add: memory_op_def require_def write_mem_def)
  moreover have "memory_op R MLOAD (F'\<lparr>fr_stack := a # st\<rparr>) V' = Some (Some (F'\<lparr>fr_stack := x # st\<rparr>, V'))"
    using v F' a by (simp add: memory_op_def require_def Stack_Push_def)
  moreover have "Memory_Get m b 32 = Some w"
    if "Memory_Get (fr_mem F) b 32 = Some w" "length w = 32" "32 \<le> \<bar>a - b\<bar>" for b w
    using memory.get_put_apart [OF assms(1) length_BigToBytes_256 [OF x(3)] m(1) that] .
  ultimately show ?thesis using F' by blast
qed

theorem mload_after_mstore_witness:
  "\<exists>F' V'. memory_op example_runtime MSTORE (example_frame [] 0 [64, 7, 1]) (example_vm example_world) = Some (Some (F', V')) \<and>
    memory_op example_runtime MLOAD (F'\<lparr>fr_stack := [64, 1]\<rparr>) V' = Some (Some (F'\<lparr>fr_stack := [7, 1]\<rparr>, V'))"
proof -
  let ?F = "example_frame [] 0 [64, 7, 1]"
  have "word_fits (fr_mem ?F) 64" "is_word 7" "fr_stack ?F = 64 # 7 # [1]"
    by (simp_all add: example_frame_def word_fits_def NewMemory_def is_word_def)
  from mload_after_mstore [OF this] show ?thesis by blast
qed


text \<open>Code of one byte never runs: whatever the byte is, the machine fetches \<open>STOP\<close>, because the test of the
  length of the instruction refuses a code that is not longer than it.\<close>

theorem one_byte_code_stops:
  "fetch_op R (F\<lparr>fr_closure := c\<lparr>cl_Code := [b]\<rparr>\<rparr>) = Some STOP"
  by (simp add: fetch_op_def Closure_Get_def Gets_def big_Int64_id Value_Uint_def OpCode_of_def in_range_def arith_range_def)

end
