(* ===== verification/Vm_Examples.thy ===== *)
theory Vm_Examples
  imports Vm_Gas Vm_Words "HOL-Library.Code_Target_Nat"
begin

text \<open>
  Runs of the machine on concrete code, evaluated in the logic: witnesses for the theorems about all runs, and
  programs that show what the machine does where it does not do what it means to.
\<close>

section \<open>A world with two accounts\<close>

text \<open>Account 7 with the balance 5, which runs the code, and account 9 with the balance 10.\<close>

definition two_accounts :: World where
  "two_accounts =
     \<lparr>w_state = \<lparr>st_Trie = Trie_New Map.empty (VStr []), stateObjects = [(Address [7], 0), (Address [9], 1)]\<rparr>,
      objects = [AddAmount 5 (NewStateObject Map.empty [7]), AddAmount 10 (NewStateObject Map.empty [9])],
      w_db = Map.empty,
      Messages = [new_message example_environment (NewMessage (Address [7]) [] 0 1 0) 0 example_world]\<rparr>"

definition run_code :: "bytes \<Rightarrow> int \<Rightarrow> run_result option" where
  "run_code code gas =
     RunClosure example_runtime example_environment 40 (NewClosure 0 0 0 code gas 1) (example_vm two_accounts)"

text \<open>The balance and the storage that the state has for an account after a run.\<close>

definition seen :: "run_result option \<Rightarrow> byte \<Rightarrow> (vm_error option \<times> int \<times> (bytes \<times> gval) list) option" where
  "seen res a =
     (case res of
        Some (Finished ret err g V) \<Rightarrow>
          map_option (\<lambda>r. (err, Balance (object_at (vm_world V) r), storage (object_at (vm_world V) r)))
            (map_of (stateObjects (w_state (vm_world V))) (Address [a]))
      | _ \<Rightarrow> None)"

definition steal_code :: bytes where
  "steal_code =
     [0x60, 0, 0x60, 0, 0x60, 0, 0x60, 0,
      0x60, 10, 0x60, 0, 0x09, 0x11, 0x09,
      0x60, 9, 0x60, 0, 0xf1, 0x00]"

definition lost_code :: bytes where
  "lost_code =
     [0x60, 0, 0x60, 0, 0x60, 0, 0x60, 0, 0x60, 100, 0x60, 9, 0x60, 0, 0xf1, 0x50,
      0x60, 1, 0x60, 2, 0x57, 0x00]"


section \<open>Witnesses\<close>

theorem gas_not_created_witness:
  "\<exists>ret err g V'. RunClosure example_runtime example_environment 9 (NewClosure 0 0 0 [0x60, 1, 0x00] 1000 1)
      (example_vm two_accounts) = Some (Finished ret err g V') \<and> g = 999 \<and> g \<le> max 0 1000"
proof -
  let ?c = "NewClosure 0 0 0 [0x60, 1, 0x00] 1000 1"
  have "case RunClosure example_runtime example_environment 9 ?c (example_vm two_accounts) of
      Some (Finished ret err g V') \<Rightarrow> g = 999 | _ \<Rightarrow> False" by code_simp
  then obtain ret err g V' where
    r: "RunClosure example_runtime example_environment 9 ?c (example_vm two_accounts) = Some (Finished ret err g V')"
      "g = 999" by (auto simp del: RunClosure.simps split: option.splits run_result.splits)
  have "Gas ?c = 1000" by (simp add: NewClosure_def)
  then show ?thesis using r gas_not_created [OF r(1)] by (simp del: RunClosure.simps)
qed

text \<open>A frame of account 7 that is about to call account 9 with a value of 100.\<close>

definition failing_frame :: Frame where
  "failing_frame = example_frame [0xf1, 0] 1000 [0, 9, 100, 0, 0, 0, 0]"

lemma failing_call:
  obtains m a k F1 V1 ret e refund obj V2 where "call_enter failing_frame (example_vm two_accounts) = Call m a k F1 V1"
    "Exec example_runtime example_environment 9 m a 0 V1 = Some (Executed ret (Some e) refund obj V2)"
proof -
  have "case call_enter failing_frame (example_vm two_accounts) of
      Call m a k F1 V1 \<Rightarrow>
        (case Exec example_runtime example_environment 9 m a 0 V1 of Some (Executed ret (Some e) refund obj V2) \<Rightarrow> True | _ \<Rightarrow> False)
    | _ \<Rightarrow> False" by code_simp
  then show ?thesis using that by (auto simp del: Exec.simps split: outcome.splits option.splits exec_result.splits)
qed

lemma two_accounts_simps:
  "cl_object (fr_closure failing_frame) = 0" "vm_world (example_vm two_accounts) = two_accounts"
  "doug_reads example_environment" "refs (w_state two_accounts) \<subseteq> {..<length (objects two_accounts)}"
  "0 < length (objects two_accounts)"
  by (simp_all add: failing_frame_def example_frame_def NewClosure_def example_vm_def doug_reads_def example_environment_def
      refs_def two_accounts_def)

theorem failed_call_restores_witness:
  "\<exists>m a k F1 V1 ret e refund obj V2 F2 V3. call_enter failing_frame (example_vm two_accounts) = Call m a k F1 V1 \<and>
     Exec example_runtime example_environment 9 m a 0 V1 = Some (Executed ret (Some e) refund obj V2) \<and>
     resume example_runtime k F1 (Executed ret (Some e) refund obj V2) = Next F2 V3 \<and>
     (\<forall>key. account_view (vm_world V3) key = account_view two_accounts key)"
proof (rule failing_call)
  fix m a k F1 V1 ret e refund obj V2
  assume c: "call_enter failing_frame (example_vm two_accounts) = Call m a k F1 V1"
    "Exec example_runtime example_environment 9 m a 0 V1 = Some (Executed ret (Some e) refund obj V2)"
  show ?thesis
    using failed_call_restores [of example_environment "example_vm two_accounts" failing_frame m a k F1 V1 example_runtime 9
        ret e refund obj V2] c unfolding two_accounts_simps(1,2) using two_accounts_simps(3-5) by metis
qed

theorem storage_lost_after_failed_call_witness:
  "\<exists>m a k F1 V1 ret e refund obj V2 F2 V3 F4 V4. call_enter failing_frame (example_vm two_accounts) = Call m a k F1 V1 \<and>
     Exec example_runtime example_environment 9 m a 0 V1 = Some (Executed ret (Some e) refund obj V2) \<and>
     resume example_runtime k F1 (Executed ret (Some e) refund obj V2) = Next F2 V3 \<and>
     exec_op example_runtime example_environment SSTORE (F2\<lparr>fr_stack := [2, 1]\<rparr>) V3 = Next F4 V4 \<and>
     (\<forall>key. account_view (vm_world V4) key = account_view two_accounts key)"
proof (rule failing_call)
  fix m a k F1 V1 ret e refund obj V2
  assume c: "call_enter failing_frame (example_vm two_accounts) = Call m a k F1 V1"
    "Exec example_runtime example_environment 9 m a 0 V1 = Some (Executed ret (Some e) refund obj V2)"
  show ?thesis
    using storage_lost_after_failed_call [of example_environment "example_vm two_accounts" failing_frame m a k F1 V1
        example_runtime 9 ret e refund obj V2] c unfolding two_accounts_simps(1,2) using two_accounts_simps(3-5) by metis
qed

theorem call_transfers_witness:
  "\<exists>V'. Exec example_runtime example_environment 2 (NewMessage [9] [] 50 1 (-10)) [9] 0 (example_vm two_accounts) =
      Some (Executed [] None 50 (Some 1) V') \<and>
    Balance (object_at (vm_world V') 0) = 15 \<and> Balance (object_at (vm_world V') 1) = 0"
proof -
  let ?m = "NewMessage [9] [] 50 1 (-10)" and ?V = "example_vm two_accounts"
  have "map_of (Precompiled example_runtime) (big_bytes (BigD (pm_address ?m))) = None"
    "map_of (stateObjects (w_state (vm_world ?V))) (Address (pm_address ?m)) = Some 1" by code_simp+
  moreover have "Code (object_at (vm_world ?V) 1) = []" "pointer (vm_world ?V) 1" "pointer (vm_world ?V) 0"
    "Balance (object_at (vm_world ?V) 0) = 5" "Balance (object_at (vm_world ?V) 1) = 10"
    by (simp_all add: two_accounts_simps(2), simp_all add: two_accounts_def object_at_def pointer_def AddAmount_def NewStateObject_def)
  ultimately show ?thesis
    using call_transfers [of example_runtime ?m ?V 1 0 example_environment 0]
    by (auto simp: NewMessage_def numeral_2_eq_2 simp del: Exec.simps)
qed

section \<open>Properties\<close>

text \<open>The numbers on the stack need not be words: \<open>NEG\<close> of 0 is \<open>2 ^ 256\<close>, \<open>OR\<close> with 10 makes it \<open>2 ^ 256 + 10\<close>,
  and \<open>NEG\<close> of that is -10.\<close>

text \<open>A contract can take money from any account. The code calls account 9 with the value -10, built by
  \<open>NEG\<close>, \<open>OR\<close> and \<open>NEG\<close>; the check of the balance lets it pass, and the transfer moves 10 from account 9 to
  the caller. The run succeeds and the money is gone.\<close>

theorem call_steals:
  "seen (run_code steal_code 1000) 7 = Some (None, 15, []) \<and> seen (run_code steal_code 1000) 9 = Some (None, 0, [])"
  by code_simp

text \<open>Storage that is lost after a failed call. The code calls with
  more value than it has, which fails and restores the snapshot, and then stores 1 at 2; the run succeeds,
  but the storage of the account in the state is empty. Without the call the value is there.\<close>

theorem lost_code_stores_nothing:
  "seen (run_code lost_code 1000) 7 = Some (None, 5, []) \<and>
   seen (run_code (drop 16 lost_code) 1000) 7 = Some (None, 5, [(LeftPadBytes [2] 32, VBig 1)])"
  by code_simp

text \<open>\<open>SUICIDE\<close> copies the balance: the receiver gets it, and the account keeps it until the state is
  updated, so that it can be spent or given away once more in the same transaction.\<close>

theorem suicide_keeps_balance:
  "seen (run_code [0x60, 9, 0xff] 1000) 7 = Some (None, 5, []) \<and>
   seen (run_code [0x60, 9, 0xff] 1000) 9 = Some (None, 15, [])"
  by code_simp

text \<open>Duplicating a zero and dropping both copies ends the run with an error, because the machine prints the
  value and looks at its first byte; with a one in place of the zero the run succeeds.\<close>

theorem dup_zero_pop_pop_fails:
  "seen (run_code [0x60, 0, 0x80, 0x50, 0x50, 0x00] 1000) 7 = Some (Some Recovered, 5, []) \<and>
   seen (run_code [0x60, 1, 0x80, 0x50, 0x50, 0x00] 1000) 7 = Some (None, 5, [])"
  by code_simp

end
