(* ===== verification/Transaction.thy ===== *)
theory Transaction
  imports Vm_Closure
begin

text \<open>
  Transactions and receipts, \<^verbatim>\<open>monkchain/transaction.go\<close>: their hash, their signature and sender, and their
  encoding. The signing function of the curve library is the argument \<open>sign\<close>; the recovery of a public key is
  the field \<open>RecoverPubkey\<close> of the runtime, which answers with the empty slice where the library returns an error.
\<close>

section \<open>Transactions\<close>

record Transaction =
  tx_Nonce :: nat
  Recipient :: bytes
  tx_Value :: int
  tx_Gas :: int
  tx_GasPrice :: int
  tx_Data :: bytes
  tx_v :: byte
  tx_r :: bytes
  tx_s :: bytes
  contractCreation :: bool

definition IsContractAddr :: "bytes \<Rightarrow> bool" where
  "IsContractAddr addr = (length addr = 0)"

definition NewContractCreationTx :: "int \<Rightarrow> int \<Rightarrow> int \<Rightarrow> bytes \<Rightarrow> Transaction" where
  "NewContractCreationTx v gas gasPrice script =
     \<lparr>tx_Nonce = 0, Recipient = [], tx_Value = v, tx_Gas = gas, tx_GasPrice = gasPrice, tx_Data = script,
      tx_v = 0, tx_r = [], tx_s = [], contractCreation = True\<rparr>"

definition NewTransactionMessage :: "bytes \<Rightarrow> int \<Rightarrow> int \<Rightarrow> int \<Rightarrow> bytes \<Rightarrow> Transaction" where
  "NewTransactionMessage to v gas gasPrice data =
     \<lparr>tx_Nonce = 0, Recipient = to, tx_Value = v, tx_Gas = gas, tx_GasPrice = gasPrice, tx_Data = data,
      tx_v = 0, tx_r = [], tx_s = [], contractCreation = False\<rparr>"

definition GasValue :: "Transaction \<Rightarrow> int" where
  "GasValue tx = tx_Gas tx * tx_GasPrice tx"

definition TotalValue :: "Transaction \<Rightarrow> int" where
  "TotalValue tx = GasValue tx + tx_Value tx"

definition tx_fields :: "Transaction \<Rightarrow> gval list" where
  "tx_fields tx =
     [VUint (tx_Nonce tx), VBig (tx_GasPrice tx), VBig (tx_Gas tx), VBytes (Recipient tx), VBig (tx_Value tx),
      VBytes (tx_Data tx)]"

definition Tx_Hash :: "Platform \<Rightarrow> Transaction \<Rightarrow> bytes" where
  "Tx_Hash P tx = sha3 P (Value_Encode (VList (tx_fields tx)))"

definition CreatesContract :: "Transaction \<Rightarrow> bool" where
  "CreatesContract tx = contractCreation tx"

definition IsContract :: "Transaction \<Rightarrow> bool" where
  "IsContract tx = CreatesContract tx"

section \<open>Signatures\<close>

definition Tx_Signature :: "Platform \<Rightarrow> (bytes \<Rightarrow> bytes \<Rightarrow> bytes) \<Rightarrow> bytes \<Rightarrow> Transaction \<Rightarrow> bytes" where
  "Tx_Signature P sign key tx = sign (Tx_Hash P tx) key"

definition Tx_Sign :: "Platform \<Rightarrow> (bytes \<Rightarrow> bytes \<Rightarrow> bytes) \<Rightarrow> bytes \<Rightarrow> Transaction \<Rightarrow> Transaction option" where
  "Tx_Sign P sign privk tx = do {
     let sig = Tx_Signature P sign privk tx;
     r \<leftarrow> slice_go sig 0 32;
     s \<leftarrow> slice_go sig 32 64;
     v \<leftarrow> index_go sig 64;
     Some (tx\<lparr>tx_r := r, tx_s := s, tx_v := v + 27\<rparr>) }"

text \<open>The three parts of a signature in the form the library takes.\<close>

definition join_sig :: "bytes \<Rightarrow> bytes \<Rightarrow> byte \<Rightarrow> bytes" where
  "join_sig r s v = LeftPadBytes r 32 @ LeftPadBytes s 32 @ [v - 27]"

definition Tx_PublicKey :: "Runtime \<Rightarrow> Transaction \<Rightarrow> bytes option" where
  "Tx_PublicKey R tx = RecoverPubkey R (Tx_Hash (platform R) tx) (join_sig (tx_r tx) (tx_s tx) (tx_v tx))"

text \<open>The address of a public key: nothing if the key is not in full form, a panic if it is empty.\<close>

definition key_address :: "Platform \<Rightarrow> bytes \<Rightarrow> bytes option" where
  "key_address P pubkey = do {
     b \<leftarrow> index_go pubkey 0;
     if b \<noteq> 4 then Some []
     else let h = sha3 P (drop 1 pubkey) in slice_go h 12 (length h) }"

definition Tx_Sender :: "Runtime \<Rightarrow> Transaction \<Rightarrow> bytes option" where
  "Tx_Sender R tx = do { pubkey \<leftarrow> Tx_PublicKey R tx; key_address (platform R) pubkey }"

definition CreationAddress :: "Runtime \<Rightarrow> Transaction \<Rightarrow> bytes option" where
  "CreationAddress R tx = do {
     sender \<leftarrow> Tx_Sender R tx;
     let h = sha3 (platform R) (Value_Encode (VList [VBytes sender, VUint (tx_Nonce tx)]));
     slice_go h 12 (length h) }"

section \<open>Encoding\<close>

definition Tx_RlpData :: "Transaction \<Rightarrow> gval" where
  "Tx_RlpData tx =
     VList (tx_fields tx @ [VByte (tx_v tx), VBytes (big_bytes (BigD (tx_r tx))), VBytes (big_bytes (BigD (tx_s tx)))])"

definition Tx_RlpEncode :: "Transaction \<Rightarrow> bytes" where
  "Tx_RlpEncode tx = Value_Encode (Tx_RlpData tx)"

definition Tx_RlpValueDecode :: "gval \<Rightarrow> Transaction" where
  "Tx_RlpValueDecode d =
     \<lparr>tx_Nonce = Value_Uint (Value_Get d 0), Recipient = Value_Bytes (Value_Get d 3),
      tx_Value = Value_BigInt (Value_Get d 4), tx_Gas = Value_BigInt (Value_Get d 2),
      tx_GasPrice = Value_BigInt (Value_Get d 1), tx_Data = Value_Bytes (Value_Get d 5),
      tx_v = of_nat (Value_Uint (Value_Get d 6)), tx_r = Value_Bytes (Value_Get d 7),
      tx_s = Value_Bytes (Value_Get d 8), contractCreation = IsContractAddr (Value_Bytes (Value_Get d 3))\<rparr>"

definition Tx_RlpDecode :: "bytes \<Rightarrow> Transaction option" where
  "Tx_RlpDecode data = map_option Tx_RlpValueDecode (NewValueFromBytes data)"

definition NewTransactionFromBytes :: "bytes \<Rightarrow> Transaction option" where
  "NewTransactionFromBytes data = Tx_RlpDecode data"

definition NewTransactionFromValue :: "gval \<Rightarrow> Transaction" where
  "NewTransactionFromValue v = Tx_RlpValueDecode v"

section \<open>Receipts\<close>

record Receipt =
  rc_Tx :: Transaction
  PostState :: bytes
  CumulativeGasUsed :: int

definition Receipt_RlpData :: "Receipt \<Rightarrow> gval" where
  "Receipt_RlpData rc = VList [Tx_RlpData (rc_Tx rc), VBytes (PostState rc), VBig (CumulativeGasUsed rc)]"

definition Receipt_RlpValueDecode :: "gval \<Rightarrow> Receipt" where
  "Receipt_RlpValueDecode d =
     \<lparr>rc_Tx = NewTransactionFromValue (Value_Get d 0), PostState = Value_Bytes (Value_Get d 1),
      CumulativeGasUsed = Value_BigInt (Value_Get d 2)\<rparr>"

definition NewRecieptFromValue :: "gval \<Rightarrow> Receipt" where
  "NewRecieptFromValue v = Receipt_RlpValueDecode v"

definition Receipt_Cmp :: "Receipt \<Rightarrow> Receipt \<Rightarrow> bool" where
  "Receipt_Cmp rc rc' = (PostState rc = PostState rc')"

definition TxByNonce_Less :: "Transaction \<Rightarrow> Transaction \<Rightarrow> bool" where
  "TxByNonce_Less a b = (tx_Nonce a < tx_Nonce b)"

section \<open>Reading back\<close>

text \<open>The transactions the wire format can carry.\<close>

definition tx_ok :: "Transaction \<Rightarrow> bool" where
  "tx_ok tx \<longleftrightarrow> tx_Nonce tx < 2 ^ 63 \<and> 0 \<le> tx_GasPrice tx \<and> 0 \<le> tx_Gas tx \<and> 0 \<le> tx_Value tx"

text \<open>What comes back: the parts of the signature lose their leading zeros, and the recipient alone tells whether
  a contract is created.\<close>

definition tx_wire :: "Transaction \<Rightarrow> Transaction" where
  "tx_wire tx = tx\<lparr>tx_r := big_bytes (BigD (tx_r tx)), tx_s := big_bytes (BigD (tx_s tx)),
     contractCreation := IsContractAddr (Recipient tx)\<rparr>"

lemma canon_byte: "of_nat (Value_Uint (canon (VByte b))) = b"
proof -
  have "length (be_bytes (unat b)) \<le> 8" by (intro length_be_bytes_64) (use unat_byte_less [of b] in simp)
  then show ?thesis by (simp add: Value_canon_bytes big_bytes_def)
qed

lemma Tx_RlpValueDecode_RlpData:
  assumes "tx_ok tx"
  shows "Tx_RlpValueDecode (canon (Tx_RlpData tx)) = tx_wire tx"
proof -
  have n: "canon (VUint (tx_Nonce tx)) = canon_bytes (be_bytes (tx_Nonce tx))" "length (be_bytes (tx_Nonce tx)) \<le> 8"
    using assms by (simp_all add: tx_ok_def int64_id length_be_bytes_64)
  show ?thesis
    using assms n canon_byte [of "tx_v tx"]
    by (simp add: Tx_RlpValueDecode_def Tx_RlpData_def tx_fields_def tx_wire_def tx_ok_def Value_canon_bytes
        Value_Get_def)
qed

lemma LeftPadBytes_be_bytes: "LeftPadBytes (be_bytes (be_val r)) (length r) = r"
proof (induction r)
  case Nil then show ?case by (simp add: LeftPadBytes_def)
next
  case (Cons b r)
  show ?case
  proof (cases "b = 0")
    case True
    then have "be_val (b # r) = be_val r" using be_val_zeros_append [of 1 r] by simp
    with Cons True length_LeftPadBytes [of "be_bytes (be_val r)" "length r"] show ?thesis
      by (auto simp: LeftPadBytes_def Suc_diff_le split: if_splits)
  next
    case False
    then have "be_bytes (be_val (b # r)) = b # r" using be_bytes_be_val [of "b # r"] by simp
    then show ?thesis by (simp add: LeftPadBytes_def)
  qed
qed

lemma LeftPadBytes_trim: "length r = n \<Longrightarrow> LeftPadBytes (big_bytes (BigD r)) n = r"
  using LeftPadBytes_be_bytes [of r] by (simp add: BigD_def)

lemma LeftPadBytes_full: "length r = n \<Longrightarrow> LeftPadBytes r n = r"
  by (simp add: LeftPadBytes_def)

lemma join_sig_split:
  assumes "length sig = 65"
  shows "slice_go sig 0 32 = Some (take 32 sig)" "slice_go sig 32 64 = Some (take 32 (drop 32 sig))"
    "index_go sig 64 = Some (sig ! 64)" "join_sig (take 32 sig) (take 32 (drop 32 sig)) (sig ! 64 + 27) = sig"
proof -
  show "slice_go sig 0 32 = Some (take 32 sig)" "slice_go sig 32 64 = Some (take 32 (drop 32 sig))"
    "index_go sig 64 = Some (sig ! 64)" using assms by (simp_all add: slice_go_def index_go_def)
  have "drop 64 sig = [sig ! 64]" using assms by (simp add: Cons_nth_drop_Suc [symmetric])
  then have "sig = take 32 sig @ take 32 (drop 32 sig) @ [sig ! 64]"
    by (metis (no_types, lifting) append_take_drop_id drop_drop numeral_Bit0)
  then show "join_sig (take 32 sig) (take 32 (drop 32 sig)) (sig ! 64 + 27) = sig"
    using assms by (simp add: join_sig_def LeftPadBytes_def)
qed

lemma Tx_RlpDecode_RlpEncode:
  assumes "tx_ok tx" and "length (Tx_RlpEncode tx) < 2 ^ 64"
  shows "NewTransactionFromBytes (Tx_RlpEncode tx) = Some (tx_wire tx)"
  using NewValueFromBytes_Encode [of "Tx_RlpData tx"] assms Tx_RlpValueDecode_RlpData [OF assms(1)]
  by (simp add: NewTransactionFromBytes_def Tx_RlpDecode_def Tx_RlpEncode_def)

lemma Tx_Sender_wire:
  assumes "length (tx_r tx) = 32" and "length (tx_s tx) = 32"
  shows "Tx_Hash P (tx_wire tx) = Tx_Hash P tx" "Tx_Sender R (tx_wire tx) = Tx_Sender R tx"
  using assms by (simp_all add: Tx_Hash_def tx_fields_def tx_wire_def Tx_Sender_def Tx_PublicKey_def join_sig_def LeftPadBytes_trim
      LeftPadBytes_full)

section \<open>Properties\<close>

text \<open>C17: a transaction that is encoded for the wire or the database is read back with every field as it was;
  only the leading zeros of the two parts of the signature are gone, and whether it creates a contract is told by its
  recipient.\<close>

theorem tx_roundtrip:
  assumes "tx_ok tx" and "length (Tx_RlpEncode tx) < 2 ^ 64"
  shows "NewTransactionFromBytes (Tx_RlpEncode tx) = Some (tx\<lparr>tx_r := big_bytes (BigD (tx_r tx)),
    tx_s := big_bytes (BigD (tx_s tx)), contractCreation := (Recipient tx = [])\<rparr>)"
  using Tx_RlpDecode_RlpEncode [OF assms] by (simp add: tx_wire_def IsContractAddr_def)

theorem tx_roundtrip_witness:
  "NewTransactionFromBytes (Tx_RlpEncode (NewTransactionMessage (Address [7]) 300 1000 1 [0, 1]\<lparr>tx_r := [0, 5]\<rparr>)) =
    Some (NewTransactionMessage (Address [7]) 300 1000 1 [0, 1]\<lparr>tx_r := [5]\<rparr>)"
proof -
  let ?tx = "NewTransactionMessage (Address [7]) 300 1000 1 [0, 1]\<lparr>tx_r := [0, 5]\<rparr>"
  have "tx_ok ?tx" "Recipient ?tx \<noteq> []" "big_bytes (BigD (tx_s ?tx)) = []"
    by (simp_all add: tx_ok_def NewTransactionMessage_def Address_def LeftPadBytes_def BigD_def)
  moreover have "length (Tx_RlpEncode ?tx) < 100" "big_bytes (BigD [0, 5]) = [5]" by code_simp+
  ultimately show ?thesis using tx_roundtrip [of ?tx] by (simp add: NewTransactionMessage_def)
qed

text \<open>C10: whoever reads a transaction that was signed with a key recovers the address of that key as the sender, and
  the same hash, although the wire format cuts the leading zeros of the signature. The laws of the curve library: a
  signature has 65 bytes, and recovery from the signature of a hash gives the public key.\<close>

theorem signed_tx_sender:
  assumes "length (sign (Tx_Hash (platform R) tx) key) = 65"
    and "RecoverPubkey R (Tx_Hash (platform R) tx) (sign (Tx_Hash (platform R) tx) key) = Some pub"
    and "tx_ok tx" and "\<And>t. Tx_Sign (platform R) sign key tx = Some t \<Longrightarrow> length (Tx_RlpEncode t) < 2 ^ 64"
  shows "\<exists>t t'. Tx_Sign (platform R) sign key tx = Some t \<and> NewTransactionFromBytes (Tx_RlpEncode t) = Some t' \<and>
    Tx_Hash (platform R) t' = Tx_Hash (platform R) tx \<and> Tx_Sender R t' = key_address (platform R) pub"
proof -
  let ?sig = "sign (Tx_Hash (platform R) tx) key"
  define t where "t = tx\<lparr>tx_r := take 32 ?sig, tx_s := take 32 (drop 32 ?sig), tx_v := ?sig ! 64 + 27\<rparr>"
  have s: "Tx_Sign (platform R) sign key tx = Some t"
    using join_sig_split [OF assms(1)] by (simp add: Tx_Sign_def Tx_Signature_def t_def Let_def)
  have h: "Tx_Hash (platform R) t = Tx_Hash (platform R) tx" by (simp add: Tx_Hash_def tx_fields_def t_def)
  have l: "length (tx_r t) = 32" "length (tx_s t) = 32" using assms(1) by (simp_all add: t_def)
  have "Tx_Sender R t = key_address (platform R) pub"
    using assms(2) join_sig_split(4) [OF assms(1)] h by (simp add: Tx_Sender_def Tx_PublicKey_def)
      (simp add: t_def)
  moreover have "tx_ok t" using assms(3) by (simp add: tx_ok_def t_def)
  ultimately show ?thesis
    using s h Tx_Sender_wire [OF l] Tx_RlpDecode_RlpEncode [OF _ assms(4) [OF s]] by auto
qed

text \<open>A signature whose two halves begin with zeros.\<close>

definition example_sign :: "bytes \<Rightarrow> bytes \<Rightarrow> bytes" where
  "example_sign hash key = replicate 31 0 @ [1] @ replicate 31 0 @ [2, 1]"

definition signing_runtime :: Runtime where
  "signing_runtime = example_runtime\<lparr>RecoverPubkey := \<lambda>hash sig. Some (if sig = example_sign hash [] then [4, 8] else [])\<rparr>"

theorem signed_tx_sender_witness:
  "\<exists>t t'. Tx_Sign (platform signing_runtime) example_sign [] (NewTransactionMessage (Address [7]) 5 500 1 []) = Some t \<and>
    NewTransactionFromBytes (Tx_RlpEncode t) = Some t' \<and>
    Tx_Sender signing_runtime t' = Some (replicate 20 1)"
proof -
  let ?tx = "NewTransactionMessage (Address [7]) 5 500 1 []"
  have "length (example_sign h k) = 65" for h k by (simp add: example_sign_def)
  moreover have "RecoverPubkey signing_runtime h (example_sign h []) = Some [4, 8]" for h
    by (simp add: signing_runtime_def)
  moreover have "tx_ok ?tx" by (simp add: tx_ok_def NewTransactionMessage_def)
  moreover have "length (Tx_RlpEncode t) < 2 ^ 64" if "Tx_Sign (platform signing_runtime) example_sign [] ?tx = Some t" for t
  proof -
    have "case Tx_Sign (platform signing_runtime) example_sign [] ?tx of None \<Rightarrow> False | Some t \<Rightarrow> length (Tx_RlpEncode t) < 1000"
      by code_simp
    with that show ?thesis by simp
  qed
  moreover have "key_address (platform signing_runtime) [4, 8] = Some (replicate 20 1)" by code_simp
  ultimately show ?thesis using signed_tx_sender [of example_sign signing_runtime ?tx "[]" "[4, 8]"] by auto
qed

end
