(* ===== verification/Block.thy ===== *)
theory Block
  imports Transaction
begin

text \<open>
  Blocks, \<^verbatim>\<open>monkchain/block.go\<close> and \<^verbatim>\<open>genesis.go\<close>: header, receipts, uncles and signature, their hash and their
  encoding. An uncle is a block of which only the header is ever set or read, so it is a \<open>Header\<close> here; a block
  extends it. The state of a block is a value: what it shares with other states is the heap and the database of
  the world.
\<close>

section \<open>Block info\<close>

record BlockInfo =
  bi_Number :: nat
  bi_Hash :: bytes
  bi_Parent :: bytes
  bi_TD :: int

definition BlockInfo_RlpDecode :: "bytes \<Rightarrow> BlockInfo option" where
  "BlockInfo_RlpDecode data = do {
     decoder \<leftarrow> NewValueFromBytes data;
     Some \<lparr>bi_Number = Value_Uint (Value_Get decoder 0), bi_Hash = Value_Bytes (Value_Get decoder 1),
           bi_Parent = Value_Bytes (Value_Get decoder 2), bi_TD = Value_BigInt (Value_Get decoder 3)\<rparr> }"

definition BlockInfo_RlpEncode :: "BlockInfo \<Rightarrow> bytes" where
  "BlockInfo_RlpEncode bi =
     Encode COMPRESS (VList [VUint (bi_Number bi), VBytes (bi_Hash bi), VBytes (bi_Parent bi), VBig (bi_TD bi)])"

section \<open>Blocks\<close>

record Header =
  bl_PrevHash :: bytes
  UncleSha :: bytes
  bl_Coinbase :: bytes
  bl_state :: State
  TxSha :: bytes
  bl_Difficulty :: int
  bl_Number :: int
  MinGasPrice :: int
  GasLimit :: int
  GasUsed :: int
  bl_Time :: int
  Extra :: bytes
  bl_Nonce :: bytes

record Block = Header +
  Uncles :: "Header list"
  transactions :: "Transaction list"
  receipts :: "Receipt list"
  bl_v :: byte
  bl_r :: bytes
  bl_s :: bytes

definition monkstate_New :: "Trie \<Rightarrow> State" where
  "monkstate_New t = \<lparr>st_Trie = t, stateObjects = []\<rparr>"

definition GetRoot :: "'a Header_scheme \<Rightarrow> gval" where
  "GetRoot b = Root (st_Trie (bl_state b))"

definition head_fields :: "'a Header_scheme \<Rightarrow> gval list" where
  "head_fields b =
     [VBytes (bl_PrevHash b), VBytes (UncleSha b), VBytes (bl_Coinbase b), GetRoot b, VBytes (TxSha b),
      VBig (bl_Difficulty b), VBig (bl_Number b), VBig (MinGasPrice b), VBig (GasLimit b), VBig (GasUsed b),
      VInt (bl_Time b), VStr (Extra b)]"

definition header :: "'a Header_scheme \<Rightarrow> gval list" where
  "header b = head_fields b @ [VBytes (bl_Nonce b)]"

definition Block_Hash :: "Platform \<Rightarrow> 'a Header_scheme \<Rightarrow> bytes" where
  "Block_Hash P b = sha3 P (Value_Encode (VList (header b)))"

definition HashNoNonce :: "Platform \<Rightarrow> 'a Header_scheme \<Rightarrow> bytes" where
  "HashNoNonce P b = sha3 P (Encode COMPRESS (VList (head_fields b)))"

text \<open>The formula behind the first return statement is dead code.\<close>

definition CalcGasLimit :: "Block \<Rightarrow> Block \<Rightarrow> int" where
  "CalcGasLimit b parent = Big (lit ''100000000000000000000000'')"

definition GetTransaction :: "Platform \<Rightarrow> bytes \<Rightarrow> Block \<Rightarrow> Transaction option" where
  "GetTransaction P hash b =
     map_option rc_Tx (find (\<lambda>rc. Tx_Hash P (rc_Tx rc) = hash) (receipts b))"

definition Blocks_AsSet :: "Platform \<Rightarrow> Block list \<Rightarrow> bytes set" where
  "Blocks_AsSet P bs = (\<lambda>b. Block_Hash P b) ` set bs"

definition Number_less :: "Block \<Rightarrow> Block \<Rightarrow> bool" where
  "Number_less b1 b2 = (bl_Number b1 < bl_Number b2)"

section \<open>Encoding\<close>

definition rlpReceipts :: "Block \<Rightarrow> gval" where
  "rlpReceipts b = VList (map Receipt_RlpData (receipts b))"

definition rlpUncles :: "Header list \<Rightarrow> gval" where
  "rlpUncles us = VList (map (\<lambda>u. VList (header u)) us)"

definition SetUncles :: "Platform \<Rightarrow> Header list \<Rightarrow> Block \<Rightarrow> Block" where
  "SetUncles P us b = b\<lparr>Uncles := us, UncleSha := sha3 P (Encode COMPRESS (rlpUncles us))\<rparr>"

definition SetReceipts :: "Receipt list \<Rightarrow> Transaction list \<Rightarrow> Block \<Rightarrow> Block" where
  "SetReceipts rcs txs b = b\<lparr>receipts := rcs, transactions := txs\<rparr>"

text \<open>The trie of the receipts, under their encoded positions.\<close>

fun receipt_trie :: "Platform \<Rightarrow> nat \<Rightarrow> Receipt list \<Rightarrow> Trie \<Rightarrow> Trie option" where
  "receipt_trie P i [] t = Some t"
| "receipt_trie P i (rc # rcs) t = do {
     t \<leftarrow> Trie_Update (sha3 P) t (Value_Encode (VInt (int i))) (Value_Encode (Receipt_RlpData rc));
     receipt_trie P (i + 1) rcs t }"

definition CreateTxSha :: "Platform \<Rightarrow> database \<Rightarrow> Receipt list \<Rightarrow> bytes option" where
  "CreateTxSha P d rcs = do {
     t \<leftarrow> receipt_trie P 0 rcs (Trie_New d (VStr []));
     case Root t of VStr s \<Rightarrow> Some s | VBytes s \<Rightarrow> Some s | _ \<Rightarrow> None }"

definition SetTxHash :: "Platform \<Rightarrow> database \<Rightarrow> Receipt list \<Rightarrow> Block \<Rightarrow> Block option" where
  "SetTxHash P d rcs b = map_option (\<lambda>sha. b\<lparr>TxSha := sha\<rparr>) (CreateTxSha P d rcs)"

definition Block_Value :: "Block \<Rightarrow> gval" where
  "Block_Value b =
     VList [VList (header b), rlpReceipts b, rlpUncles (Uncles b), VList [VByte (bl_v b), VBytes (bl_r b), VBytes (bl_s b)]]"

definition Block_RlpEncode :: "Block \<Rightarrow> bytes" where
  "Block_RlpEncode b = Value_Encode (Block_Value b)"

definition Block_Size :: "Block \<Rightarrow> nat" where
  "Block_Size b = length (Block_RlpEncode b)"

section \<open>Decoding\<close>

definition NewUncleBlockFromValue :: "database \<Rightarrow> gval \<Rightarrow> Header" where
  "NewUncleBlockFromValue d h =
     \<lparr>bl_PrevHash = Value_Bytes (Value_Get h 0), UncleSha = Value_Bytes (Value_Get h 1),
      bl_Coinbase = Value_Bytes (Value_Get h 2), bl_state = monkstate_New (Trie_New d (Value_Get h 3)),
      TxSha = Value_Bytes (Value_Get h 4), bl_Difficulty = Value_BigInt (Value_Get h 5),
      bl_Number = Value_BigInt (Value_Get h 6), MinGasPrice = Value_BigInt (Value_Get h 7),
      GasLimit = Value_BigInt (Value_Get h 8), GasUsed = Value_BigInt (Value_Get h 9),
      bl_Time = int64 (int (big_Uint64 (Value_BigInt (Value_Get h 10)))), Extra = Value_Str (Value_Get h 11),
      bl_Nonce = Value_Bytes (Value_Get h 12)\<rparr>"

definition decode_each :: "(gval \<Rightarrow> 'a) \<Rightarrow> gval \<Rightarrow> 'a list" where
  "decode_each f v = map (\<lambda>i. f (Value_Get v (int i))) [0 ..< Value_Len v]"

definition Block_RlpValueDecode :: "database \<Rightarrow> gval \<Rightarrow> Block" where
  "Block_RlpValueDecode d decoder =
     (let rcs = Value_Get decoder 1; us = Value_Get decoder 2; sig = Value_Get decoder 3;
          rs = (if Value_IsNil rcs then [] else decode_each NewRecieptFromValue rcs)
      in Header.extend (NewUncleBlockFromValue d (Value_Get decoder 0))
           (Block.fields
              (if Value_IsNil us then [] else decode_each (NewUncleBlockFromValue d) us)
              (map rc_Tx rs) rs
              (if Value_IsNil sig then 0 else Value_Byte (Value_Get sig 0))
              (if Value_IsNil sig then [] else Value_Bytes (Value_Get sig 1))
              (if Value_IsNil sig then [] else Value_Bytes (Value_Get sig 2))))"

definition NewBlockFromBytes :: "database \<Rightarrow> bytes \<Rightarrow> Block option" where
  "NewBlockFromBytes d raw = map_option (Block_RlpValueDecode d) (NewValueFromBytes raw)"

section \<open>Signatures\<close>

definition Block_Sign :: "Platform \<Rightarrow> (bytes \<Rightarrow> bytes \<Rightarrow> bytes) \<Rightarrow> bytes \<Rightarrow> Block \<Rightarrow> Block option" where
  "Block_Sign P sign privk b = do {
     let sig = sign (Block_Hash P b) privk;
     v \<leftarrow> index_go sig 64;
     r \<leftarrow> slice_go sig 0 32;
     s \<leftarrow> slice_go sig 32 64;
     Some (b\<lparr>bl_r := r, bl_s := s, bl_v := v + 27\<rparr>) }"

definition Block_PublicKey :: "Runtime \<Rightarrow> Block \<Rightarrow> bytes option" where
  "Block_PublicKey R b = RecoverPubkey R (Block_Hash (platform R) b) (join_sig (bl_r b) (bl_s b) (bl_v b))"

definition Signer :: "Runtime \<Rightarrow> Block \<Rightarrow> bytes option" where
  "Signer R b =
     (if length (bl_r b) = 0 \<or> length (bl_s b) = 0 then Some [0]
      else do { pubkey \<leftarrow> Block_PublicKey R b; key_address (platform R) pubkey })"

section \<open>Genesis\<close>

definition ZeroHash256 :: bytes where "ZeroHash256 = replicate 32 0"
definition ZeroHash160 :: bytes where "ZeroHash160 = replicate 20 0"

definition EmptyShaList :: "Platform \<Rightarrow> bytes" where
  "EmptyShaList P = sha3 P (Encode COMPRESS (VList []))"

definition GenesisHeader :: "Platform \<Rightarrow> gval list" where
  "GenesisHeader P =
     [VBytes ZeroHash256, VBytes (EmptyShaList P), VBytes ZeroHash160, VStr [], VStr [], VBig 131072, VBig 0, VBig 0,
      VBig 1000000, VBig 0, VBig 0, VNil, VBytes (sha3 P (big_bytes 42))]"

definition Genesis :: "Platform \<Rightarrow> gval" where
  "Genesis P = VList [VList (GenesisHeader P), VList [], VList []]"

section \<open>Reading back\<close>

definition header_ok :: "'a Header_scheme \<Rightarrow> bool" where
  "header_ok b \<longleftrightarrow> tv (GetRoot b) \<and> 0 \<le> bl_Difficulty b \<and> 0 \<le> bl_Number b \<and> 0 \<le> MinGasPrice b \<and> 0 \<le> GasLimit b \<and>
     0 \<le> GasUsed b \<and> 0 \<le> bl_Time b \<and> bl_Time b < 2 ^ 63"

definition receipt_ok :: "Receipt \<Rightarrow> bool" where
  "receipt_ok rc \<longleftrightarrow> tx_ok (rc_Tx rc) \<and> 0 \<le> CumulativeGasUsed rc"

definition block_ok :: "Block \<Rightarrow> bool" where
  "block_ok b \<longleftrightarrow> header_ok b \<and> list_all header_ok (Uncles b) \<and> list_all receipt_ok (receipts b) \<and> bl_v b \<le> 0x7f \<and>
     length (Block_RlpEncode b) < 2 ^ 64"

text \<open>What comes back: the state has nothing but its root, receipts hold transactions as they come from the wire.\<close>

definition header_wire :: "database \<Rightarrow> Header \<Rightarrow> Header" where
  "header_wire d h = h\<lparr>bl_state := monkstate_New (Trie_New d (canon (GetRoot h)))\<rparr>"

definition receipt_wire :: "Receipt \<Rightarrow> Receipt" where
  "receipt_wire rc = rc\<lparr>rc_Tx := tx_wire (rc_Tx rc)\<rparr>"

definition block_wire :: "database \<Rightarrow> Block \<Rightarrow> Block" where
  "block_wire d b = b\<lparr>bl_state := monkstate_New (Trie_New d (canon (GetRoot b))), Uncles := map (header_wire d) (Uncles b),
     transactions := map (tx_wire \<circ> rc_Tx) (receipts b), receipts := map receipt_wire (receipts b)\<rparr>"

lemma Value_Str_canon_bytes: "Value_Str (canon_bytes s) = s"
proof (cases "length s = 1 \<and> s ! 0 \<le> 0x7f")
  case True
  then obtain b where "s = [b]" by (cases s) auto
  then show ?thesis using True by (simp add: canon_bytes_def Value_Str_def string_of_byte_def)
qed (auto simp: canon_bytes_def Value_Str_def)

lemma decode_each_VList: "decode_each f (VList l) = map f l"
  by (intro nth_equalityI) (simp_all add: decode_each_def Value_Len_def Value_Get_nth)

lemma Value_Byte_canon: "b \<le> 0x7f \<Longrightarrow> Value_Byte (canon (VByte b)) = b"
  by (cases "b = 0") (simp_all add: canon_bytes_def Value_Byte_def big_bytes_byte)

lemma Header_truncate: "Header.truncate (h :: Header) = h"
  by (cases h) (simp add: Header.truncate_def)

lemma NewUncleBlockFromValue_header:
  assumes "header_ok h"
  shows "NewUncleBlockFromValue d (VList (map canon (header h))) = header_wire d (Header.truncate h)"
proof -
  have "int64 (int (big_Uint64 (BigD (big_bytes (int64 (bl_Time h)))))) = bl_Time h"
    using assms by (simp add: header_ok_def int64_id big_Uint64_id)
  then show ?thesis
    using assms by (simp add: NewUncleBlockFromValue_def header_def head_fields_def header_wire_def header_ok_def
        Header.truncate_def GetRoot_def Value_Get_def Value_canon_bytes Value_Str_canon_bytes)
qed

lemma NewRecieptFromValue_RlpData:
  "receipt_ok rc \<Longrightarrow> NewRecieptFromValue (canon (Receipt_RlpData rc)) = receipt_wire rc"
  by (simp add: NewRecieptFromValue_def Receipt_RlpValueDecode_def Receipt_RlpData_def Value_Get_def receipt_ok_def
      NewTransactionFromValue_def Tx_RlpValueDecode_RlpData Value_canon_bytes receipt_wire_def)

lemma Block_RlpValueDecode_Value:
  assumes "block_ok b"
  shows "Block_RlpValueDecode d (canon (Block_Value b)) = block_wire d b"
proof -
  have u: "map (\<lambda>u. NewUncleBlockFromValue d (VList (map canon (header u)))) (Uncles b) = map (header_wire d) (Uncles b)"
    using assms by (auto simp: block_ok_def list_all_iff NewUncleBlockFromValue_header Header_truncate)
  have r: "map (\<lambda>rc. NewRecieptFromValue (canon (Receipt_RlpData rc))) (receipts b) = map receipt_wire (receipts b)"
    using assms NewRecieptFromValue_RlpData by (auto simp: block_ok_def list_all_iff)
  have get: "Value_Get (VList (x0 # xs)) 0 = x0" "Value_Get (VList (x0 # x1 # xs)) 1 = x1"
    "Value_Get (VList (x0 # x1 # x2 # xs)) 2 = x2" "Value_Get (VList (x0 # x1 # x2 # x3 # xs)) 3 = x3" for x0 x1 x2 x3 xs
    by (simp_all add: Value_Get_def)
  have "header_ok b" "bl_v b \<le> 0x7f" using assms by (simp_all add: block_ok_def)
  then show ?thesis
    using u r NewUncleBlockFromValue_header [of b d] Value_Byte_canon [of "bl_v b"]
    by (simp add: Block_RlpValueDecode_def Block_Value_def rlpReceipts_def rlpUncles_def get decode_each_VList comp_def
        Value_IsNil_def Let_def block_wire_def Header.extend_def Block.fields_def Value_canon_bytes header_wire_def
        Header.truncate_def receipt_wire_def GetRoot_def)
qed

lemma Block_Hash_wire:
  assumes "tv (GetRoot h)"
  shows "Block_Hash P (h\<lparr>bl_state := monkstate_New (Trie_New d (canon (GetRoot h)))\<rparr>) = Block_Hash P h"
  using tv_canon(3) [OF assms]
  by (simp add: Block_Hash_def header_def head_fields_def enc_VList GetRoot_def monkstate_New_def Trie_New_def)

lemma Block_Hash_block_wire: "tv (GetRoot b) \<Longrightarrow> Block_Hash P (block_wire d b) = Block_Hash P b"
  using Block_Hash_wire [of b P d] by (simp add: block_wire_def Block_Hash_def header_def head_fields_def GetRoot_def)

lemma Signer_wire: "tv (GetRoot b) \<Longrightarrow> Signer R (block_wire d b) = Signer R b"
  by (simp add: Signer_def Block_PublicKey_def Block_Hash_block_wire) (simp add: block_wire_def)

section \<open>Properties\<close>

text \<open>C7: a block that is encoded for the wire or the database is read back with the same number, parent, coinbase,
  state root, hash and signer, its receipts in order with their post states, their cumulative gas and their transactions as they come from
  the wire, and uncles of the same hashes.\<close>

theorem block_roundtrip:
  assumes "block_ok b"
  shows "\<exists>b'. NewBlockFromBytes d (Block_RlpEncode b) = Some b' \<and> Block_Hash P b' = Block_Hash P b \<and>
    Signer R b' = Signer R b \<and> GetRoot b' = canon (GetRoot b) \<and> bl_Number b' = bl_Number b \<and>
    bl_PrevHash b' = bl_PrevHash b \<and> bl_Coinbase b' = bl_Coinbase b \<and> bl_Difficulty b' = bl_Difficulty b \<and>
    bl_Time b' = bl_Time b \<and> GasUsed b' = GasUsed b \<and> map rc_Tx (receipts b') = transactions b' \<and>
    transactions b' = map (\<lambda>rc. tx_wire (rc_Tx rc)) (receipts b) \<and>
    map PostState (receipts b') = map PostState (receipts b) \<and>
    map CumulativeGasUsed (receipts b') = map CumulativeGasUsed (receipts b) \<and> length (Uncles b') = length (Uncles b) \<and>
    map (Block_Hash P) (Uncles b') = map (Block_Hash P) (Uncles b)"
proof -
  have tv: "tv (GetRoot b)" "\<forall>u \<in> set (Uncles b). tv (GetRoot u)"
    using assms by (auto simp: block_ok_def header_ok_def list_all_iff)
  have "NewBlockFromBytes d (Block_RlpEncode b) = Some (block_wire d b)"
    using assms NewValueFromBytes_Encode [of "Block_Value b"] Block_RlpValueDecode_Value [OF assms, of d]
    by (simp add: NewBlockFromBytes_def Block_RlpEncode_def block_ok_def)
  moreover have "Block_Hash P (block_wire d b) = Block_Hash P b" using tv(1) by (rule Block_Hash_block_wire)
  moreover have "map (Block_Hash P) (Uncles (block_wire d b)) = map (Block_Hash P) (Uncles b)"
    using tv(2) by (simp add: block_wire_def header_wire_def Block_Hash_wire)
  moreover have "GetRoot (block_wire d b) = canon (GetRoot b)"
    by (simp add: block_wire_def GetRoot_def monkstate_New_def Trie_New_def)
  ultimately show ?thesis
    using Signer_wire [OF tv(1)] by (simp add: block_wire_def receipt_wire_def comp_def)
qed

text \<open>A block with a transaction and an uncle.\<close>

definition example_header :: "nat \<Rightarrow> Header" where
  "example_header n =
     \<lparr>bl_PrevHash = ZeroHash256, UncleSha = replicate 32 1, bl_Coinbase = Address [9],
      bl_state = monkstate_New (Trie_New Map.empty (VStr [])), TxSha = replicate 32 2, bl_Difficulty = 64, bl_Number = int n,
      MinGasPrice = 0, GasLimit = 300, GasUsed = 50, bl_Time = 200, Extra = [], bl_Nonce = []\<rparr>"

definition example_block :: Block where
  "example_block = Header.extend (example_header 2)
     (Block.fields [example_header 1] []
        [\<lparr>rc_Tx = NewTransactionMessage (Address [7]) 5 50 1 [], PostState = replicate 32 3, CumulativeGasUsed = 50\<rparr>]
        27 (replicate 32 4) (replicate 32 5))"

lemma example_block_ok: "block_ok example_block"
proof -
  have "length (Block_RlpEncode example_block) < 2000" by code_simp
  moreover have "tv (GetRoot (example_header n))" for n
    by (simp add: example_header_def GetRoot_def monkstate_New_def Trie_New_def)
  ultimately show ?thesis
    by (simp add: block_ok_def header_ok_def receipt_ok_def tx_ok_def NewTransactionMessage_def example_block_def
        Header.extend_def Block.fields_def GetRoot_def) (simp add: example_header_def)
qed

theorem block_roundtrip_witness:
  "\<exists>b'. NewBlockFromBytes Map.empty (Block_RlpEncode example_block) = Some b' \<and> bl_Number b' = 2 \<and>
    Block_Hash example_platform b' = Block_Hash example_platform example_block \<and>
    transactions b' = [NewTransactionMessage (Address [7]) 5 50 1 []]"
proof -
  have "map (\<lambda>rc. tx_wire (rc_Tx rc)) (receipts example_block) = [NewTransactionMessage (Address [7]) 5 50 1 []]"
    "bl_Number example_block = 2"
    by (simp_all add: example_block_def Header.extend_def Block.fields_def example_header_def tx_wire_def
        NewTransactionMessage_def IsContractAddr_def BigD_def Address_def LeftPadBytes_def)
  then show ?thesis
    using block_roundtrip [OF example_block_ok, of Map.empty example_platform example_runtime] by auto
qed

end
