(* ===== verification/State_Transition.thy ===== *)
theory State_Transition
  imports Block Vm_Gas
begin

text \<open>
  Applying a transaction to the state, \<^verbatim>\<open>monkchain/state_transition.go\<close>, and the environment it gives to the
  virtual machine, \<^verbatim>\<open>monkchain/vm_env.go\<close>. The permission model \<open>genDoug\<close> is an interface of the program; its
  methods are the fields of \<open>GenDoug\<close>.

  Code that ends in a panic leaves the changes made before it, so a panic is an outcome that carries the world.
  \<open>TransitionState\<close> takes the fuel of the runs it starts; \<open>None\<close> means that it was too little.
\<close>

section \<open>The permission model\<close>

text \<open>\<open>None\<close> is a panic. The flag of \<open>ValidatePerm\<close> tells whether no error was returned; of the errors of \<open>ValidateTx\<close> the
  block manager tells two types from the others. The model may load accounts into the cache.\<close>

datatype doug_error = NonceErr | GasLimitTxErr | OtherErr

record GenDoug =
  gd_Doug :: bytes
  gd_ValidatePerm :: "bytes \<Rightarrow> bytes \<Rightarrow> World \<Rightarrow> (bool \<times> World) option"
  gd_ValidateTx :: "Transaction \<Rightarrow> World \<Rightarrow> (doug_error option \<times> World) option"

section \<open>The environment of the machine\<close>

text \<open>The sender has been recovered before the environment is made, so the second case does not occur.\<close>

definition NewEnv :: "Runtime \<Rightarrow> GenDoug \<Rightarrow> Transaction \<Rightarrow> Block \<Rightarrow> Environment" where
  "NewEnv R G tx b =
     \<lparr>Origin = (case Tx_Sender R tx of Some a \<Rightarrow> a | None \<Rightarrow> []), BlockNumber = bl_Number b, PrevHash = bl_PrevHash b,
      Coinbase = bl_Coinbase b, Time = bl_Time b, Difficulty = bl_Difficulty b, env_Value = tx_Value tx,
      BlockHash = Block_Hash (platform R) b, Doug = gd_Doug G, DougValidate = gd_ValidatePerm G\<rparr>"

section \<open>Transitions\<close>

text \<open>The price, the value and the receiver's address are those of the transaction throughout.\<close>

record StateTransition =
  tr_coinbase :: bytes
  tr_tx :: Transaction
  tr_gas :: int
  tr_data :: bytes
  tr_block :: Block
  tr_msg :: "nat option"
  tr_cb :: "nat option"
  tr_rec :: "nat option"
  tr_sen :: "nat option"

definition NewStateTransition :: "nat \<Rightarrow> Transaction \<Rightarrow> Block \<Rightarrow> World \<Rightarrow> StateTransition" where
  "NewStateTransition coinbase tx b W =
     \<lparr>tr_coinbase = so_address (object_at W coinbase), tr_tx = tx, tr_gas = 0, tr_data = tx_Data tx, tr_block = b,
      tr_msg = None, tr_cb = Some coinbase, tr_rec = None, tr_sen = None\<rparr>"

definition tr_Coinbase :: "StateTransition \<Rightarrow> World \<Rightarrow> (nat \<times> StateTransition \<times> World) option" where
  "tr_Coinbase T W =
     (case tr_cb T of
        Some r \<Rightarrow> Some (r, T, W)
      | None \<Rightarrow> do { (r, W) \<leftarrow> GetOrNewStateObject (tr_coinbase T) W; Some (r, T\<lparr>tr_cb := Some r\<rparr>, W) })"

definition tr_Sender :: "Runtime \<Rightarrow> StateTransition \<Rightarrow> World \<Rightarrow> (nat \<times> StateTransition \<times> World) option" where
  "tr_Sender R T W =
     (case tr_sen T of
        Some r \<Rightarrow> Some (r, T, W)
      | None \<Rightarrow> do {
          addr \<leftarrow> Tx_Sender R (tr_tx T);
          (r, W) \<leftarrow> GetOrNewStateObject addr W;
          Some (r, T\<lparr>tr_sen := Some r\<rparr>, W) })"

text \<open>Only called for transactions that create no contract, where the Go function returns no nil.\<close>

definition tr_Receiver :: "StateTransition \<Rightarrow> World \<Rightarrow> (nat \<times> StateTransition \<times> World) option" where
  "tr_Receiver T W =
     (case tr_rec T of
        Some r \<Rightarrow> Some (r, T, W)
      | None \<Rightarrow> do { (r, W) \<leftarrow> GetOrNewStateObject (Recipient (tr_tx T)) W; Some (r, T\<lparr>tr_rec := Some r\<rparr>, W) })"

definition tr_UseGas :: "int \<Rightarrow> StateTransition \<Rightarrow> StateTransition option" where
  "tr_UseGas amount T = (if tr_gas T < amount then None else Some (T\<lparr>tr_gas := tr_gas T - amount\<rparr>))"

definition AddGas :: "int \<Rightarrow> StateTransition \<Rightarrow> StateTransition" where
  "AddGas amount T = T\<lparr>tr_gas := tr_gas T + amount\<rparr>"

datatype tr_error =
    Invalid_tx doug_error | Prepay_funds | Gas_limit | Out_of_gas | Value_funds | No_contract
  | Init_failed vm_error | Code_failed vm_error | Transition_panic

datatype 'a tr_step = Proceed 'a | Reject tr_error StateTransition World

abbreviation tr_panic :: "StateTransition \<Rightarrow> World \<Rightarrow> 'a tr_step" where
  "tr_panic \<equiv> Reject Transition_panic"

definition BuyGas :: "Runtime \<Rightarrow> StateTransition \<Rightarrow> World \<Rightarrow> (StateTransition \<times> World) tr_step" where
  "BuyGas R T W =
     (let tx = tr_tx T in
      case tr_Sender R T W of
        None \<Rightarrow> tr_panic T W
      | Some (s, T, W) \<Rightarrow>
          if Balance (object_at W s) < GasValue tx then Reject Prepay_funds T W
          else (case tr_Coinbase T W of
             None \<Rightarrow> tr_panic T W
           | Some (c, T, W) \<Rightarrow>
               (case StateObject_BuyGas (tx_Gas tx) (tx_GasPrice tx) (object_at W c) of
                  None \<Rightarrow> Reject Gas_limit T W
                | Some obj \<Rightarrow>
                    Proceed (AddGas (tx_Gas tx) T,
                      change_object s (SubAmount (GasValue tx)) (change_object c (\<lambda>_. obj) W)))))"

text \<open>Both accounts have been fetched when the deferred call runs, so there is nothing to fetch here.\<close>

definition RefundGas :: "StateTransition \<Rightarrow> World \<Rightarrow> World" where
  "RefundGas T W =
     (case (tr_cb T, tr_sen T) of
        (Some c, Some s) \<Rightarrow>
          change_object s (AddAmount (tr_gas T * tx_GasPrice (tr_tx T)))
            (change_object c (StateObject_RefundGas (tr_gas T) (tx_GasPrice (tr_tx T))) W)
      | _ \<Rightarrow> W)"

definition preCheck :: "Runtime \<Rightarrow> GenDoug \<Rightarrow> StateTransition \<Rightarrow> World \<Rightarrow> (StateTransition \<times> World) tr_step" where
  "preCheck R G T W =
     (case gd_ValidateTx G (tr_tx T) W of
        None \<Rightarrow> tr_panic T W
      | Some (err, W) \<Rightarrow> (case err of Some e \<Rightarrow> Reject (Invalid_tx e) T W | None \<Rightarrow> BuyGas R T W))"

section \<open>Value and new contracts\<close>

text \<open>\<open>NewStateObject\<close> gives the account an empty storage trie already.\<close>

definition MakeContract :: "Runtime \<Rightarrow> Transaction \<Rightarrow> World \<Rightarrow> (nat option \<times> World) option" where
  "MakeContract R tx W =
     (if IsContract tx then do {
        addr \<leftarrow> CreationAddress R tx;
        let (r, W) = State_NewStateObject addr W;
        Some (Some r, change_object r (\<lambda>c. c\<lparr>InitCode := tx_Data tx, so_State := Trie_New (w_db W) (VStr [])\<rparr>) W) }
      else Some (None, W))"

text \<open>Nothing calls it; the transfers below are written out. \<open>None\<close> is the error.\<close>

definition transferValue :: "nat \<Rightarrow> nat \<Rightarrow> StateTransition \<Rightarrow> World \<Rightarrow> World option" where
  "transferValue s r T W =
     (let v = tx_Value (tr_tx T) in
      if Balance (object_at W s) < v then None
      else Some (change_object r (AddAmount v) (change_object s (SubAmount v) W)))"

text \<open>The gas for the transaction and its data, in that order.\<close>

definition charge_tx :: "StateTransition \<Rightarrow> StateTransition \<times> bool" where
  "charge_tx T =
     (case tr_UseGas GasTx T of
        None \<Rightarrow> (T, False)
      | Some T1 \<Rightarrow>
         (case tr_UseGas (int64 (int (length (tr_data T1))) * GasData) T1 of
            None \<Rightarrow> (T1, False) | Some T2 \<Rightarrow> (T2, True)))"

definition place_value :: "Runtime \<Rightarrow> nat \<Rightarrow> StateTransition \<Rightarrow> World \<Rightarrow> (State \<times> nat \<times> StateTransition \<times> World) tr_step" where
  "place_value R s T W =
     (let tx = tr_tx T; v = tx_Value tx in
      if CreatesContract tx then
        let W = change_object s (SubAmount v) W; (snapshot, W) = State_Copy W in
        (case MakeContract R tx W of
           None \<Rightarrow> tr_panic T W
         | Some (None, W) \<Rightarrow> Reject No_contract (T\<lparr>tr_rec := None\<rparr>) W
         | Some (Some r, W) \<Rightarrow> Proceed (snapshot, r, T\<lparr>tr_rec := Some r\<rparr>, change_object r (AddAmount v) W))
      else
        (case tr_Receiver T W of
           None \<Rightarrow> tr_panic T W
         | Some (r, T, W) \<Rightarrow>
             let W = change_object s (SubAmount v) W; W = change_object r (AddAmount v) W; (snapshot, W) = State_Copy W
             in Proceed (snapshot, r, T, W)))"

section \<open>Running code\<close>

text \<open>The loop over the queue of postponed messages; what they queue is appended to the list it walks.\<close>

datatype posts_result = Posted Vm | Posts_Panic Vm | Posts_Stuck stuck

fun exec_posts :: "Runtime \<Rightarrow> Environment \<Rightarrow> nat \<Rightarrow> nat \<Rightarrow> nat \<Rightarrow> Vm \<Rightarrow> posts_result option" where
  "exec_posts R E 0 i transactor V = None"
| "exec_posts R E (Suc n) i transactor V =
     (if i < length (vm_queue V) then
        let msg = vm_queue V ! i in
        (case Exec R E n msg (pm_address msg) transactor V of
           None \<Rightarrow> None
         | Some (Executed ret err refund obj V) \<Rightarrow> exec_posts R E n (i + 1) transactor V
         | Some (Exec_Panic V) \<Rightarrow> Some (Posts_Panic V)
         | Some (Exec_Stuck st) \<Rightarrow> Some (Posts_Stuck st))
      else Some (Posted V))"

datatype eval_result = Evaluated bytes "vm_error option" StateTransition World | Eval_Panic StateTransition World | Eval_Stuck stuck

text \<open>The closure runs on the very number that is the gas of the transition.\<close>

definition Eval :: "Runtime \<Rightarrow> GenDoug \<Rightarrow> nat \<Rightarrow> nat \<Rightarrow> bytes \<Rightarrow> nat \<Rightarrow> nat \<Rightarrow> StateTransition \<Rightarrow> World \<Rightarrow> eval_result option" where
  "Eval R G n msg script context transactor T W =
     (let E = NewEnv R G (tr_tx T) (tr_block T);
          c = NewClosure msg transactor context script (tr_gas T) (tx_GasPrice (tr_tx T));
          V = \<lparr>vm_world = W, vm_queue = [], vm_callStack = []\<rparr> in
      case RunClosure R E n (c\<lparr>Args := tx_Data (tr_tx T)\<rparr>) V of
        None \<Rightarrow> None
      | Some (Run_Stuck st) \<Rightarrow> Some (Eval_Stuck st)
      | Some (Finished ret err g V) \<Rightarrow>
          let T = T\<lparr>tr_gas := g\<rparr> in
          if err \<noteq> None then Some (Evaluated ret err T (vm_world V))
          else (case exec_posts R E n 0 transactor V of
             None \<Rightarrow> None
           | Some (Posts_Stuck st) \<Rightarrow> Some (Eval_Stuck st)
           | Some (Posts_Panic V) \<Rightarrow> Some (Eval_Panic T (vm_world V))
           | Some (Posted V) \<Rightarrow> Some (Evaluated ret err T (vm_world V))))"

section \<open>TransitionState\<close>

datatype tr_result = Applied "tr_error option" StateTransition World | Tr_Stuck stuck

definition tr_message :: "nat \<Rightarrow> nat \<Rightarrow> Runtime \<Rightarrow> StateTransition \<Rightarrow> World \<Rightarrow> Message" where
  "tr_message s r R T W =
     (let b = tr_block T; sender = so_address (object_at W s) in
      \<lparr>msg_To = so_address (object_at W r), msg_From = sender, msg_Input = tx_Data (tr_tx T), msg_Output = [],
       msg_Origin = sender, msg_Timestamp = bl_Time b, msg_Coinbase = bl_Coinbase b, msg_Block = Block_Hash (platform R) b,
       msg_Number = bl_Number b, msg_Value = tx_Value (tr_tx T), ChangedAddresses = []\<rparr>)"

text \<open>What becomes of the result of a run: the new contract takes it as its code, a message has it as its output, and
  after an error the state is the snapshot again. \<open>init\<close> tells the two apart.\<close>

definition settle :: "bool \<Rightarrow> State \<Rightarrow> nat \<Rightarrow> nat \<Rightarrow> eval_result \<Rightarrow> tr_result" where
  "settle init snapshot r i res =
     (case res of
        Eval_Stuck st \<Rightarrow> Tr_Stuck st
      | Eval_Panic T W \<Rightarrow> Applied (Some Transition_panic) T W
      | Evaluated ret err T W \<Rightarrow>
          (case err of
             Some e \<Rightarrow> Applied (Some (if init then Init_failed e else Code_failed e)) T (State_Set snapshot W)
           | None \<Rightarrow>
               let W = (if init then change_object r (\<lambda>c. c\<lparr>Code := ret\<rparr>) W else W)
               in Applied None (T\<lparr>tr_msg := Some i\<rparr>) (set_output i ret W)))"

definition run_receiver :: "Runtime \<Rightarrow> GenDoug \<Rightarrow> nat \<Rightarrow> nat \<Rightarrow> State \<Rightarrow> nat \<Rightarrow> StateTransition \<Rightarrow> World \<Rightarrow> tr_result option" where
  "run_receiver R G n s snapshot r T W =
     (let (i, W) = AddMessage (tr_message s r R T W) W in
      if IsContractAddr (Recipient (tr_tx T)) then
        map_option (settle True snapshot r i) (Eval R G n i (InitCode (object_at W r)) r s (T\<lparr>tr_data := []\<rparr>) W)
      else if length (Code (object_at W r)) > 0 then
        map_option (settle False snapshot r i) (Eval R G n i (Code (object_at W r)) r s T W)
      else Some (Applied None (T\<lparr>tr_msg := Some i\<rparr>) W))"

text \<open>After \<open>preCheck\<close>, up to the deferred refund.\<close>

definition transact :: "Runtime \<Rightarrow> GenDoug \<Rightarrow> nat \<Rightarrow> StateTransition \<Rightarrow> World \<Rightarrow> tr_result option" where
  "transact R G n T W =
     (case tr_Sender R T W of
        None \<Rightarrow> Some (Applied (Some Transition_panic) T W)
      | Some (s, T, W) \<Rightarrow>
          let W = change_object s IncNonce W; (T, paid) = charge_tx T in
          if \<not> paid then Some (Applied (Some Out_of_gas) T W)
          else if Balance (object_at W s) < tx_Value (tr_tx T) then Some (Applied (Some Value_funds) T W)
          else (case place_value R s T W of
             Reject e T W \<Rightarrow> Some (Applied (Some e) T W)
           | Proceed (snapshot, r, T, W) \<Rightarrow> run_receiver R G n s snapshot r T W))"

primrec refunded :: "tr_result \<Rightarrow> tr_result" where
  "refunded (Applied e T W) = Applied e T (RefundGas T W)"
| "refunded (Tr_Stuck st) = Tr_Stuck st"

definition TransitionState :: "Runtime \<Rightarrow> GenDoug \<Rightarrow> nat \<Rightarrow> StateTransition \<Rightarrow> World \<Rightarrow> tr_result option" where
  "TransitionState R G n T W =
     (case preCheck R G T W of
        Reject e T W \<Rightarrow> Some (Applied (Some e) T W)
      | Proceed (T, W) \<Rightarrow> map_option refunded (transact R G n T W))"

lemma refunded_Applied: "refunded res = Applied e T W' \<longleftrightarrow> (\<exists>W. res = Applied e T W \<and> W' = RefundGas T W)"
  by (cases res) auto

section \<open>Gas\<close>

lemma tr_UseGas_Some:
  "tr_UseGas a T = Some T' \<longleftrightarrow> a \<le> tr_gas T \<and> T' = T\<lparr>tr_gas := tr_gas T - a\<rparr>"
  by (auto simp: tr_UseGas_def)

lemma charge_tx_paid:
  assumes "charge_tx T = (T', True)"
  shows "T' = T\<lparr>tr_gas := tr_gas T - (GasTx + int64 (int (length (tr_data T))) * GasData)\<rparr>" "0 \<le> tr_gas T'"
  using assms by (auto simp: charge_tx_def tr_UseGas_Some algebra_simps split: option.splits)

lemma fetch_keeps:
  "tr_Sender R T W = Some (r, T', W') \<Longrightarrow> T' = T\<lparr>tr_sen := Some r\<rparr>"
  "tr_Coinbase T W = Some (r, T', W') \<Longrightarrow> T' = T\<lparr>tr_cb := Some r\<rparr>"
  "tr_Receiver T W = Some (r, T', W') \<Longrightarrow> T' = T\<lparr>tr_rec := Some r\<rparr>"
  by (auto simp: tr_Sender_def tr_Coinbase_def tr_Receiver_def split: option.splits Option.bind_splits)

lemma place_value_keeps:
  assumes "place_value R s T W = Proceed (snapshot, r, T', W')"
  shows "T' = T\<lparr>tr_rec := Some r\<rparr>"
  using assms by (auto simp: place_value_def Let_def split: if_splits option.splits prod.splits dest: fetch_keeps)

lemma Eval_gas:
  assumes "Eval R G n msg script context s T W = Some (Evaluated ret err T' W')"
  shows "tr_gas T' \<le> max 0 (tr_gas T)" "tr_tx T' = tr_tx T"
proof -
  obtain g V where "T' = T\<lparr>tr_gas := g\<rparr>"
    "RunClosure R (NewEnv R G (tr_tx T) (tr_block T)) n
       ((NewClosure msg s context script (tr_gas T) (tx_GasPrice (tr_tx T)))\<lparr>Args := tx_Data (tr_tx T)\<rparr>)
       \<lparr>vm_world = W, vm_queue = [], vm_callStack = []\<rparr> = Some (Finished ret err g V)"
    using assms by (auto simp: Eval_def Let_def split: option.splits run_result.splits posts_result.splits if_splits)
  then show "tr_gas T' \<le> max 0 (tr_gas T)" "tr_tx T' = tr_tx T"
    using run_gas(2) by (fastforce simp: NewClosure_def)+
qed

lemma settle_Applied:
  "settle init snapshot r i res = Applied None T' W' \<Longrightarrow> \<exists>ret T W. res = Evaluated ret None T W \<and> T' = T\<lparr>tr_msg := Some i\<rparr>"
  by (auto simp: settle_def Let_def split: eval_result.splits option.splits)

lemma run_receiver_gas:
  assumes "run_receiver R G n s snapshot r T W = Some (Applied None T' W')"
  shows "tr_gas T' \<le> max 0 (tr_gas T)"
  using assms by (auto simp: run_receiver_def split: if_splits prod.splits dest!: settle_Applied Eval_gas(1))

lemma preCheck_gas:
  assumes "preCheck R G T W = Proceed (T', W')"
  shows "tr_gas T' = tr_gas T + tx_Gas (tr_tx T)" "tr_tx T' = tr_tx T" "tr_data T' = tr_data T"
  using assms by (auto simp: preCheck_def BuyGas_def Let_def AddGas_def split: if_splits option.splits prod.splits dest!: fetch_keeps)

lemma transact_gas:
  assumes "transact R G n T W = Some (Applied None T' W')"
  shows "tr_gas T' + GasTx + int64 (int (length (tr_data T))) * GasData \<le> tr_gas T"
proof -
  obtain s T1 W1 where s: "tr_Sender R T W = Some (s, T1, W1)"
    using assms by (auto simp: transact_def split: option.splits)
  obtain T2 where c: "charge_tx T1 = (T2, True)"
    using assms s by (auto simp: transact_def Let_def split: prod.splits if_splits)
  obtain snapshot r T3 W3 where p: "place_value R s T2 (change_object s IncNonce W1) = Proceed (snapshot, r, T3, W3)"
    and e: "run_receiver R G n s snapshot r T3 W3 = Some (Applied None T' W')"
    using assms s c by (auto simp: transact_def Let_def split: prod.splits if_splits tr_step.splits)
  have "tr_gas T' \<le> tr_gas T2"
    using run_receiver_gas [OF e] charge_tx_paid(2) [OF c] place_value_keeps [OF p] by simp
  then show ?thesis using charge_tx_paid(1) [OF c] fetch_keeps(1) [OF s] by simp
qed

section \<open>Messages between cached accounts\<close>

text \<open>A transaction from the account \<open>s\<close> to the account \<open>r\<close>, mined by \<open>c\<close>, that passes every check before code runs.\<close>

definition passes :: "Runtime \<Rightarrow> GenDoug \<Rightarrow> nat \<Rightarrow> nat \<Rightarrow> nat \<Rightarrow> Transaction \<Rightarrow> World \<Rightarrow> bool" where
  "passes R G c s r tx W \<longleftrightarrow>
     gd_ValidateTx G tx W = Some (None, W) \<and>
     map_option (\<lambda>a. map_of (stateObjects (w_state W)) (Address a)) (Tx_Sender R tx) = Some (Some s) \<and>
     map_of (stateObjects (w_state W)) (Address (Recipient tx)) = Some r \<and>
     \<not> IsContractAddr (Recipient tx) \<and> \<not> CreatesContract tx \<and>
     pointer W s \<and> pointer W r \<and> pointer W c \<and> tx_Gas tx \<le> gasPool (object_at W c) \<and>
     0 \<le> GasValue tx \<and> 0 \<le> tx_Value tx \<and> GasValue tx + tx_Value tx \<le> Balance (object_at W s) \<and>
     GasTx + int (length (tx_Data tx)) * GasData \<le> tx_Gas tx \<and> int (length (tx_Data tx)) < 2 ^ 63"

text \<open>The world when the snapshot is taken: gas bought, nonce counted, value moved.\<close>

definition paid_world :: "nat \<Rightarrow> nat \<Rightarrow> nat \<Rightarrow> Transaction \<Rightarrow> World \<Rightarrow> World" where
  "paid_world c s r tx W =
     change_object r (AddAmount (tx_Value tx)) (change_object s (SubAmount (tx_Value tx)) (change_object s IncNonce
       (change_object s (SubAmount (GasValue tx)) (change_object c (AddAmount (GasValue tx)) W))))"

lemma paid_world_simps [simp]:
  "w_state (paid_world c s r tx W) = w_state W" "length (objects (paid_world c s r tx W)) = length (objects W)"
  "pointer (paid_world c s r tx W) = pointer W"
  by (simp_all add: paid_world_def pointer_def fun_eq_iff)

lemma pointer_change [simp]: "pointer (change_object r f W) = pointer W"
  by (simp add: pointer_def fun_eq_iff)

lemma paid_world_fields:
  assumes "pointer W c" "pointer W s" "pointer W r"
  shows "Balance (object_at (paid_world c s r tx W) q) = Balance (object_at W q) - (if q = s then GasValue tx + tx_Value tx else 0)
      + (if q = r then tx_Value tx else 0) + (if q = c then GasValue tx else 0)"
    and "Nonce (object_at (paid_world c s r tx W) q) = (if q = s then Nonce (IncNonce (object_at W s)) else Nonce (object_at W q))"
    and "Code (object_at (paid_world c s r tx W) q) = Code (object_at W q)"
  using assms by (auto simp: paid_world_def heap.get_change AddAmount_def SubAmount_def IncNonce_def)

lemma GetOrNew_cached:
  "map_of (stateObjects (w_state W)) (Address a) = Some r \<Longrightarrow> GetOrNewStateObject a W = Some (r, W)"
  by (simp add: GetOrNewStateObject_def GetStateObject_def Let_def)

definition paid_transition :: "nat \<Rightarrow> nat \<Rightarrow> nat \<Rightarrow> Transaction \<Rightarrow> Block \<Rightarrow> World \<Rightarrow> StateTransition" where
  "paid_transition c s r tx b W = (NewStateTransition c tx b W)\<lparr>tr_sen := Some s,
     tr_gas := tx_Gas tx - (GasTx + int (length (tx_Data tx)) * GasData), tr_rec := Some r\<rparr>"

lemma new_transition:
  "tr_tx (NewStateTransition c tx b W) = tx" "tr_rec (NewStateTransition c tx b W) = None"
  by (simp_all add: NewStateTransition_def)

text \<open>What a transaction to an account and one that creates a contract have in common: the checks, the gas and the nonce.\<close>

definition affords :: "Runtime \<Rightarrow> GenDoug \<Rightarrow> nat \<Rightarrow> nat \<Rightarrow> Transaction \<Rightarrow> World \<Rightarrow> bool" where
  "affords R G c s tx W \<longleftrightarrow>
     gd_ValidateTx G tx W = Some (None, W) \<and>
     map_option (\<lambda>a. map_of (stateObjects (w_state W)) (Address a)) (Tx_Sender R tx) = Some (Some s) \<and>
     pointer W s \<and> pointer W c \<and> tx_Gas tx \<le> gasPool (object_at W c) \<and>
     0 \<le> GasValue tx \<and> 0 \<le> tx_Value tx \<and> GasValue tx + tx_Value tx \<le> Balance (object_at W s) \<and>
     GasTx + int (length (tx_Data tx)) * GasData \<le> tx_Gas tx \<and> int (length (tx_Data tx)) < 2 ^ 63"

lemma passes_affords: "passes R G c s r tx W \<Longrightarrow> affords R G c s tx W"
  by (simp add: passes_def affords_def)

definition charged_world :: "nat \<Rightarrow> nat \<Rightarrow> Transaction \<Rightarrow> World \<Rightarrow> World" where
  "charged_world c s tx W =
     change_object s IncNonce (change_object s (SubAmount (GasValue tx)) (change_object c (AddAmount (GasValue tx)) W))"

definition charged_transition :: "nat \<Rightarrow> nat \<Rightarrow> Transaction \<Rightarrow> Block \<Rightarrow> World \<Rightarrow> StateTransition" where
  "charged_transition c s tx b W = (NewStateTransition c tx b W)\<lparr>tr_sen := Some s,
     tr_gas := tx_Gas tx - (GasTx + int (length (tx_Data tx)) * GasData)\<rparr>"

lemma TransitionState_affords:
  assumes "affords R G c s tx W"
  shows "TransitionState R G n (NewStateTransition c tx b W) W = map_option refunded
    (case place_value R s (charged_transition c s tx b W) (charged_world c s tx W) of
       Reject e T W \<Rightarrow> Some (Applied (Some e) T W)
     | Proceed (snapshot, r, T, W) \<Rightarrow> run_receiver R G n s snapshot r T W)"
proof -
  let ?T = "NewStateTransition c tx b W"
  let ?W1 = "change_object s (SubAmount (GasValue tx)) (change_object c (AddAmount (GasValue tx)) W)"
  note p = assms(1) [unfolded affords_def]
  obtain a where a: "Tx_Sender R tx = Some a" "map_of (stateObjects (w_state W)) (Address a) = Some s" using p by auto
  have buy: "preCheck R G ?T W = Proceed (?T\<lparr>tr_sen := Some s, tr_gas := tx_Gas tx\<rparr>, ?W1)"
    using p a by (auto simp: preCheck_def BuyGas_def tr_Sender_def tr_Coinbase_def NewStateTransition_def GetOrNew_cached
        StateObject_BuyGas_def AddGas_def change_object_def object_at_def GasValue_def)
  have charge: "charge_tx (?T\<lparr>tr_sen := Some s, tr_gas := tx_Gas tx\<rparr>) =
      (?T\<lparr>tr_sen := Some s, tr_gas := tx_Gas tx - (GasTx + int (length (tx_Data tx)) * GasData)\<rparr>, True)"
    using p by (simp add: charge_tx_def tr_UseGas_def NewStateTransition_def int64_id GasData_def GasTx_def)
  have funds: "\<not> Balance (object_at (change_object s IncNonce ?W1) s) < tx_Value tx"
    using p by (auto simp: heap.get_change AddAmount_def SubAmount_def IncNonce_def)
  show ?thesis
    unfolding TransitionState_def buy using funds
    by (simp add: transact_def tr_Sender_def charge new_transition charged_transition_def charged_world_def del: Let_def)
qed

lemma TransitionState_passes:
  assumes "passes R G c s r tx W" and "State_Copy (paid_world c s r tx W) = (snapshot, W1)"
  shows "TransitionState R G n (NewStateTransition c tx b W) W =
    map_option refunded (run_receiver R G n s snapshot r (paid_transition c s r tx b W) W1)"
proof -
  have "place_value R s (charged_transition c s tx b W) (charged_world c s tx W) =
      Proceed (snapshot, r, paid_transition c s r tx b W, W1)"
    using assms by (simp add: passes_def place_value_def tr_Receiver_def new_transition GetOrNew_cached paid_world_def
        charged_transition_def charged_world_def paid_transition_def)
  then show ?thesis using TransitionState_affords [OF passes_affords [OF assms(1)], of n b] by simp
qed

lemma State_Copy_paid:
  assumes "State_Copy (paid_world c s r tx W) = (snapshot, W1)"
  shows "w_state W1 = w_state W" "pointer W q \<Longrightarrow> object_at W1 q = object_at (paid_world c s r tx W) q"
    "pointer W q \<Longrightarrow> pointer W1 q"
  using copy_objects_frame [OF State_Copy_eq(1) [OF assms]] by (auto simp: pointer_def)

text \<open>The refund of what is left of the gas, when no code has run.\<close>

lemma refund_fields:
  fixes b :: Block and m :: "nat option"
  assumes "pointer W s" "pointer W r" "pointer W c" and "pointer W q"
    and "\<And>q. pointer W q \<Longrightarrow> pointer W2 q" "\<And>q. pointer W q \<Longrightarrow> object_at W2 q = object_at (paid_world c s r tx W) q"
  defines "used \<equiv> GasTx + int (length (tx_Data tx)) * GasData"
  defines "W' \<equiv> RefundGas ((paid_transition c s r tx b W)\<lparr>tr_msg := m\<rparr>) W2"
  shows "Balance (object_at W' q) = Balance (object_at W q) + (if q = r then tx_Value tx else 0)
      + (if q = c then used * tx_GasPrice tx else 0) - (if q = s then tx_Value tx + used * tx_GasPrice tx else 0)"
    and "Nonce (object_at W' q) = (if q = s then Nonce (IncNonce (object_at W s)) else Nonce (object_at W q))"
  using assms(1-6) paid_world_fields [of W c s r tx q]
  by (auto simp: W'_def used_def RefundGas_def paid_transition_def NewStateTransition_def heap.get_change AddAmount_def
      StateObject_RefundGas_def GasValue_def algebra_simps)

section \<open>Failing code\<close>

definition perms_read :: "GenDoug \<Rightarrow> bool" where
  "perms_read G = (\<forall>a role W b W'. gd_ValidatePerm G a role W = Some (b, W') \<longrightarrow> touches {} W W')"

lemma Eval_error:
  assumes "Eval R G n msg script context s T W = Some (Evaluated ret (Some e) T' W')" and "perms_read G"
  shows "\<exists>g. T' = T\<lparr>tr_gas := g\<rparr>" "touches {context} W W'"
proof -
  let ?E = "NewEnv R G (tr_tx T) (tr_block T)"
  obtain g V where g: "T' = T\<lparr>tr_gas := g\<rparr>" "W' = vm_world V"
    "RunClosure R ?E n ((NewClosure msg s context script (tr_gas T) (tx_GasPrice (tr_tx T)))\<lparr>Args := tx_Data (tr_tx T)\<rparr>)
       \<lparr>vm_world = W, vm_queue = [], vm_callStack = []\<rparr> = Some (Finished ret (Some e) g V)"
    using assms(1) by (auto simp: Eval_def Let_def split: option.splits run_result.splits posts_result.splits if_splits)
  have "doug_reads ?E" using assms(2) by (simp add: perms_read_def doug_reads_def NewEnv_def)
  with run_within(2) [OF g(3)] show "touches {context} W W'" using g(2) by (simp add: NewClosure_def)
  show "\<exists>g. T' = T\<lparr>tr_gas := g\<rparr>" using g(1) by blast
qed

lemma settle_failed:
  assumes "settle init snapshot r i res = Applied (Some e) T' W'" and "e \<in> {Code_failed f, Init_failed f}"
  shows "\<exists>ret W. res = Evaluated ret (Some f) T' W \<and> W' = State_Set snapshot W"
  using assms by (auto simp: settle_def Let_def split: eval_result.splits option.splits if_splits)

lemma run_receiver_failed:
  assumes "run_receiver R G n s snapshot r T W = Some (Applied (Some e) T' W')" and "e \<in> {Code_failed f, Init_failed f}"
    and "perms_read G"
  shows "\<exists>W2. W' = State_Set snapshot W2 \<and> touches {r} W W2 \<and> tr_sen T' = tr_sen T \<and> tr_cb T' = tr_cb T"
proof -
  obtain i W1 where am: "AddMessage (tr_message s r R T W) W = (i, W1)" by fastforce
  have t: "touches {r} W W1" using manifest_touches(3) [of "{r}" W "tr_message s r R T W"] am by simp
  obtain init code T1 res where res: "Eval R G n i code r s T1 W1 = Some res"
    "settle init snapshot r i res = Applied (Some e) T' W'" "tr_sen T1 = tr_sen T" "tr_cb T1 = tr_cb T"
    using assms(1) am by (fastforce simp: run_receiver_def split: if_splits)
  obtain ret W2 where W2: "res = Evaluated ret (Some f) T' W2" "W' = State_Set snapshot W2"
    using settle_failed [OF res(2) assms(2)] by blast
  note ev = Eval_error [OF res(1) [unfolded W2(1)] assms(3)]
  have "touches {r} W W2" using touches_trans [OF t ev(2)] .
  moreover have "tr_sen T' = tr_sen T" "tr_cb T' = tr_cb T" using ev(1) res(3,4) by auto
  ultimately show ?thesis using W2(2) by blast
qed

lemma RefundGas_objects:
  "tr_sen T = Some s \<Longrightarrow> tr_cb T = Some c \<Longrightarrow> q \<noteq> s \<Longrightarrow> q \<noteq> c \<Longrightarrow> object_at (RefundGas T W) q = object_at W q"
  "RefundGas T (State_Set st W) = State_Set st (RefundGas T W)"
  by (auto simp: RefundGas_def object_at_def change_object_def State_Set_def set_state_def split: option.split)

text \<open>The refund after an error goes to the accounts from before the snapshot, which the state no longer has.\<close>

lemma refund_after_snapshot:
  assumes "State_Copy P = (snapshot, W1)" and "\<forall>(k, q) \<in> set (stateObjects (w_state P)). pointer P q"
    and "touches {r} W1 W3" and "pointer P r \<or> \<not> pointer W1 r"
    and "tr_sen T = Some s" "tr_cb T = Some c" and "pointer P s" "pointer P c"
  shows "account_view (RefundGas T (State_Set snapshot W3)) k = account_view P k"
proof -
  have "object_at (RefundGas T W3) q = object_at W1 q" if q: "\<not> pointer P q" "pointer W1 q" for q
  proof -
    have "q \<noteq> s" "q \<noteq> c" "q \<noteq> r" using q assms(4,7,8) by auto
    moreover have "q \<notin> refs (w_state W1)"
      using q(1) assms(2) copy_objects_frame [OF State_Copy_eq(1) [OF assms(1)]] by (auto simp: refs_def)
    ultimately show ?thesis
      using assms(3) q(2) RefundGas_objects(1) [OF assms(5,6)] by (simp add: touches_def pointer_def)
  qed
  then show ?thesis using State_Set_restores [OF assms(2,1)] by (simp add: RefundGas_objects(2))
qed

lemma MakeContract_touches:
  assumes "MakeContract R tx W = Some (Some r, W')"
  shows "touches {r} W W'" "\<not> pointer W r"
proof -
  obtain addr f W1 where W1: "State_NewStateObject addr W = (r, W1)" "W' = change_object r f W1"
    using assms by (auto simp: MakeContract_def Let_def split: if_splits Option.bind_splits prod.splits)
  show "touches {r} W W'"
    unfolding W1(2) using State_NewStateObject_touches(1) [OF W1(1)] by (rule touches_trans [OF _ touches_change]) simp
  show "\<not> pointer W r" using W1(1) by (auto simp: State_NewStateObject_def new_object_def pointer_def Let_def)
qed

section \<open>Rejected transactions\<close>

text \<open>Loading an account adds it to the heap and leaves the others.\<close>

lemma GetStateObject_keeps:
  "GetStateObject a W = Some (ob, W') \<Longrightarrow> pointer W q \<Longrightarrow> pointer W' q \<and> object_at W' q = object_at W q"
  by (auto simp: GetStateObject_def Let_def new_object_def cache_object_def object_at_def pointer_def nth_append set_state_def
      split: option.splits if_splits Option.bind_splits)

lemma GetOrNew_keeps:
  assumes "GetOrNewStateObject a W = Some (r, W')" and "pointer W q"
  shows "pointer W' q \<and> object_at W' q = object_at W q"
proof -
  obtain ob W1 where g: "GetStateObject a W = Some (ob, W1)" using assms(1) by (auto simp: GetOrNewStateObject_def split: Option.bind_splits)
  show ?thesis
    using assms(1) g GetStateObject_keeps [OF g assms(2)]
    by (auto simp: GetOrNewStateObject_def State_NewStateObject_def Let_def new_object_def cache_object_def object_at_def
        pointer_def nth_append split: option.splits)
qed

lemma fetch_objects:
  "tr_Sender R T W = Some (r, T', W') \<Longrightarrow> pointer W q \<Longrightarrow> pointer W' q \<and> object_at W' q = object_at W q"
  "tr_Coinbase T W = Some (r, T', W') \<Longrightarrow> pointer W q \<Longrightarrow> pointer W' q \<and> object_at W' q = object_at W q"
  by (auto simp: tr_Sender_def tr_Coinbase_def split: option.splits Option.bind_splits dest: GetOrNew_keeps)

lemma BuyGas_Reject:
  assumes "BuyGas R T W = Reject e T' W'" and "pointer W q"
  shows "object_at W' q = object_at W q"
  using assms by (auto simp: BuyGas_def Let_def split: option.splits if_splits dest!: fetch_objects)

lemma transact_errors:
  assumes "transact R G n T W = Some (Applied (Some e) T' W')"
  shows "e \<notin> range Invalid_tx \<and> e \<noteq> Prepay_funds \<and> e \<noteq> Gas_limit"
proof -
  have settle: "settle init sn r i res = Applied (Some e) T W \<Longrightarrow> e \<notin> range Invalid_tx \<and> e \<noteq> Prepay_funds \<and> e \<noteq> Gas_limit"
    for init sn r i res e T W
    by (auto simp: settle_def Let_def split: eval_result.splits option.splits if_splits)
  have place: "place_value R s T W = Reject e T' W' \<Longrightarrow> e \<notin> range Invalid_tx \<and> e \<noteq> Prepay_funds \<and> e \<noteq> Gas_limit" for s T W e T' W'
    by (auto simp: place_value_def Let_def split: if_splits option.splits prod.splits)
  have run: "run_receiver R G n s sn r T W = Some (Applied (Some e) T' W') \<Longrightarrow> e \<notin> range Invalid_tx \<and> e \<noteq> Prepay_funds \<and> e \<noteq> Gas_limit"
    for s sn r T W e T' W'
    using settle by (fastforce simp: run_receiver_def split: if_splits prod.splits)
  show ?thesis
    using assms by (auto simp: transact_def Let_def split: option.splits prod.splits if_splits tr_step.splits dest: place run)
qed

text \<open>The check of a transaction changes no balance and no nonce.\<close>

definition checks_read :: "GenDoug \<Rightarrow> bool" where
  "checks_read G = (\<forall>tx W v W' q. gd_ValidateTx G tx W = Some (v, W') \<longrightarrow> pointer W q \<longrightarrow>
     pointer W' q \<and> Balance (object_at W' q) = Balance (object_at W q) \<and> Nonce (object_at W' q) = Nonce (object_at W q))"

section \<open>Transfers\<close>

lemma plain_run:
  assumes "passes R G c s r tx W" and "Code (object_at W r) = []"
  obtains T' W' where "TransitionState R G n (NewStateTransition c tx b W) W = Some (Applied None T' W')" "w_state W' = w_state W"
    "\<And>q. pointer W q \<Longrightarrow> Balance (object_at W' q) = Balance (object_at W q) + (if q = r then tx_Value tx else 0)
       + (if q = c then (GasTx + int (length (tx_Data tx)) * GasData) * tx_GasPrice tx else 0)
       - (if q = s then tx_Value tx + (GasTx + int (length (tx_Data tx)) * GasData) * tx_GasPrice tx else 0)"
    "\<And>q. pointer W q \<Longrightarrow> Nonce (object_at W' q) = (if q = s then Nonce (IncNonce (object_at W s)) else Nonce (object_at W q))"
    "\<And>q. pointer W q \<Longrightarrow> pointer W' q"
proof -
  obtain snapshot W1 where cp: "State_Copy (paid_world c s r tx W) = (snapshot, W1)" by fastforce
  let ?T = "(paid_transition c s r tx b W)"
  obtain i W2 where am: "AddMessage (tr_message s r R ?T W1) W1 = (i, W2)" by fastforce
  let ?used = "GasTx + int (length (tx_Data tx)) * GasData"
  note p = assms(1) [unfolded passes_def]
  note cp' = State_Copy_paid [OF cp]
  have W2: "w_state W2 = w_state W" "objects W2 = objects W1" using am cp'(1) by (auto simp: AddMessage_def)
  have o2: "object_at W2 q = object_at W1 q" "pointer W2 q = pointer W1 q" for q by (simp_all add: object_at_def pointer_def W2)
  let ?W' = "RefundGas (?T\<lparr>tr_msg := Some i\<rparr>) W2"
  have run: "TransitionState R G n (NewStateTransition c tx b W) W = Some (Applied None (?T\<lparr>tr_msg := Some i\<rparr>) ?W')"
    using TransitionState_passes [OF assms(1) cp, of n b] am p assms(2) cp'(2) [of r] paid_world_fields(3) [of W c s r tx r]
    by (simp add: run_receiver_def o2 paid_transition_def NewStateTransition_def)
  have W': "w_state ?W' = w_state W"
    by (simp add: RefundGas_def paid_transition_def NewStateTransition_def W2)
  have bal: "Balance (object_at ?W' q) = Balance (object_at W q) + (if q = r then tx_Value tx else 0)
         + (if q = c then ?used * tx_GasPrice tx else 0) - (if q = s then tx_Value tx + ?used * tx_GasPrice tx else 0)"
    and non: "Nonce (object_at ?W' q) = (if q = s then Nonce (IncNonce (object_at W s)) else Nonce (object_at W q))"
    if "pointer W q" for q
    using p that cp'(2,3) by (intro refund_fields; simp add: o2)+
  have "pointer ?W' q" if "pointer W q" for q
    using cp'(3) [OF that] by (simp add: RefundGas_def paid_transition_def NewStateTransition_def o2)
  with that [OF run W'] bal non show ?thesis by blast
qed

section \<open>Properties\<close>

text \<open>C11: a transaction that succeeds has paid at least the price of a transaction and of its data, whatever code
  it ran, and what is refunded is at most the rest of the gas it bought.\<close>

theorem transition_gas:
  assumes "TransitionState R G n (NewStateTransition c tx b W) W = Some (Applied None T' W')"
    and "int (length (tx_Data tx)) < 2 ^ 63"
  shows "tr_gas T' + GasTx + int (length (tx_Data tx)) * GasData \<le> tx_Gas tx"
proof -
  obtain T1 W1 W2 where p: "preCheck R G (NewStateTransition c tx b W) W = Proceed (T1, W1)"
    and t: "transact R G n T1 W1 = Some (Applied None T' W2)"
    using assms(1) by (auto simp: TransitionState_def refunded_Applied split: tr_step.splits)
  show ?thesis
    using transact_gas [OF t] preCheck_gas [OF p] assms(2) by (simp add: NewStateTransition_def int64_id)
qed

text \<open>C2: a transaction to an account without code moves the value from the sender to the receiver and the price of the
  gas used, 500 and 5 per byte of data, from the sender to the miner, counts the nonce of the sender and leaves everything else,
  so that the sum of the balances stays. Sender, receiver and miner may be the same account.\<close>

theorem plain_transfer:
  assumes "passes R G c s r tx W" and "Code (object_at W r) = []"
  shows "\<exists>T' W'. TransitionState R G n (NewStateTransition c tx b W) W = Some (Applied None T' W') \<and>
    w_state W' = w_state W \<and>
    (\<forall>q. pointer W q \<longrightarrow>
       Balance (object_at W' q) = Balance (object_at W q) + (if q = r then tx_Value tx else 0)
         + (if q = c then (GasTx + int (length (tx_Data tx)) * GasData) * tx_GasPrice tx else 0)
         - (if q = s then tx_Value tx + (GasTx + int (length (tx_Data tx)) * GasData) * tx_GasPrice tx else 0)) \<and>
    (\<forall>q. pointer W q \<longrightarrow> Nonce (object_at W' q) = (if q = s then Nonce (IncNonce (object_at W s)) else Nonce (object_at W q))) \<and>
    (\<Sum>q<length (objects W). Balance (object_at W' q)) = (\<Sum>q<length (objects W). Balance (object_at W q))"
proof (rule plain_run [OF assms, of n b])
  fix T' W'
  assume run: "TransitionState R G n (NewStateTransition c tx b W) W = Some (Applied None T' W')" "w_state W' = w_state W"
    "\<And>q. pointer W q \<Longrightarrow> Balance (object_at W' q) = Balance (object_at W q) + (if q = r then tx_Value tx else 0)
       + (if q = c then (GasTx + int (length (tx_Data tx)) * GasData) * tx_GasPrice tx else 0)
       - (if q = s then tx_Value tx + (GasTx + int (length (tx_Data tx)) * GasData) * tx_GasPrice tx else 0)"
    "\<And>q. pointer W q \<Longrightarrow> Nonce (object_at W' q) = (if q = s then Nonce (IncNonce (object_at W s)) else Nonce (object_at W q))"
  let ?used = "GasTx + int (length (tx_Data tx)) * GasData"
  have "(\<Sum>q<length (objects W). Balance (object_at W' q)) = (\<Sum>q<length (objects W). Balance (object_at W q)
      + (if q = r then tx_Value tx else 0) + (if q = c then ?used * tx_GasPrice tx else 0)
      - (if q = s then tx_Value tx + ?used * tx_GasPrice tx else 0))"
    by (intro sum.cong refl run(3)) (simp add: pointer_def)
  also have "\<dots> = (\<Sum>q<length (objects W). Balance (object_at W q))"
    using assms(1) by (simp add: passes_def sum.distrib sum_subtractf pointer_def)
  finally show ?thesis using run by blast
qed

text \<open>C12: when the code of the receiver fails, the sender gets no gas back and the value stays with the receiver. The
  snapshot that is put back was taken after the transfer and holds copies of the accounts, and the refund goes to the objects that
  are no longer in the state. So every account shows the balance it had when the code began to run, however much gas was left.\<close>

theorem failed_code_keeps_gas:
  assumes "passes R G c s r tx W" and "perms_read G"
    and "\<forall>(k, q) \<in> set (stateObjects (w_state W)). pointer W q"
    and "TransitionState R G n (NewStateTransition c tx b W) W = Some (Applied (Some (Code_failed e)) T' W')"
  shows "map_option fst (account_view W' k) = map_option
    (\<lambda>q. Balance (object_at W q) - (if q = s then GasValue tx + tx_Value tx else 0) + (if q = r then tx_Value tx else 0)
       + (if q = c then GasValue tx else 0)) (map_of (stateObjects (w_state W)) k)"
proof -
  let ?P = "paid_world c s r tx W" and ?T = "paid_transition c s r tx b W"
  obtain snapshot W1 where cp: "State_Copy ?P = (snapshot, W1)" by fastforce
  obtain W2 where run: "run_receiver R G n s snapshot r ?T W1 = Some (Applied (Some (Code_failed e)) T' W2)"
    and W': "W' = RefundGas T' W2"
    using assms(4) unfolding TransitionState_passes [OF assms(1) cp] by (auto simp: refunded_Applied)
  obtain W3 where W2: "W2 = State_Set snapshot W3" and t: "touches {r} W1 W3"
    and T': "tr_sen T' = tr_sen ?T" "tr_cb T' = tr_cb ?T"
    using run_receiver_failed [OF run _ assms(2), of e] by blast
  have ptrs: "pointer W s" "pointer W r" "pointer W c" using assms(1) by (simp_all add: passes_def)
  have "account_view W' k = account_view ?P k"
    unfolding W' W2 using assms(3) ptrs
    by (intro refund_after_snapshot [OF cp _ t, where s = s and c = c])
      (simp_all add: T' paid_transition_def NewStateTransition_def)
  then show ?thesis
    by (simp add: account_view_def Let_def option.map_comp comp_def paid_world_fields(1) [OF ptrs(3,1,2)])
qed

text \<open>C13: a transaction that creates a contract loses its value when the code of the contract fails. The snapshot is taken after
  the sender has paid and before there is an account to receive the value, so the state that is put back has
  the value nowhere: the sender has paid it and all the gas, the miner has the price of the gas, and every other account is as it was. The new account
  is gone.\<close>

theorem failed_creation_burns_value:
  assumes "affords R G c s tx W" and "CreatesContract tx" and "perms_read G"
    and "\<forall>(k, q) \<in> set (stateObjects (w_state W)). pointer W q"
    and "TransitionState R G n (NewStateTransition c tx b W) W = Some (Applied (Some (Init_failed e)) T' W')"
  shows "map_option fst (account_view W' k) = map_option
    (\<lambda>q. Balance (object_at W q) - (if q = s then GasValue tx + tx_Value tx else 0) + (if q = c then GasValue tx else 0))
    (map_of (stateObjects (w_state W)) k)"
proof -
  let ?P = "change_object s (SubAmount (tx_Value tx)) (charged_world c s tx W)" and ?T = "charged_transition c s tx b W"
  have P: "w_state ?P = w_state W" "pointer ?P = pointer W" by (simp_all add: charged_world_def)
  have ptrs: "pointer W s" "pointer W c" using assms(1) by (simp_all add: affords_def)
  obtain snapshot W1 where cp: "State_Copy ?P = (snapshot, W1)" by fastforce
  obtain r W2 W3 where mk: "MakeContract R tx W1 = Some (Some r, W2)" and W': "W' = RefundGas T' W3"
    and run: "run_receiver R G n s snapshot r (?T\<lparr>tr_rec := Some r\<rparr>) (change_object r (AddAmount (tx_Value tx)) W2) =
      Some (Applied (Some (Init_failed e)) T' W3)"
    using assms(5) cp unfolding TransitionState_affords [OF assms(1)] place_value_def
    by (auto simp: assms(2) charged_transition_def new_transition refunded_Applied split: option.splits)
  obtain W4 where W3: "W3 = State_Set snapshot W4"
    and t: "touches {r} (change_object r (AddAmount (tx_Value tx)) W2) W4"
    and T': "tr_sen T' = Some s" "tr_cb T' = Some c"
    using run_receiver_failed [OF run _ assms(3), of e] by (auto simp: charged_transition_def NewStateTransition_def)
  note made = MakeContract_touches [OF mk]
  have "touches {r} W1 W4"
    using touches_trans [OF touches_trans [OF made(1) touches_change [of r W2 "{r}"]] t] by simp
  then have "account_view W' k = account_view ?P k"
    unfolding W' W3 using assms(4) ptrs made(2) P
    by (intro refund_after_snapshot [OF cp _ _ disjI2 T']) simp_all
  then show ?thesis using ptrs
    by (auto simp: account_view_def P(1) Let_def option.map_comp comp_def charged_world_def heap.get_change
        AddAmount_def SubAmount_def IncNonce_def intro!: option.map_cong0)
qed

text \<open>C15: a transaction that is refused because it is invalid, because the sender cannot pay for the gas, or because
  the gas is above the limit of the block, costs nobody anything and does not count the nonce. The transaction check is part of the protocol model and
  must not change balances and nonces itself (\<open>checks_read\<close>); the model whose check runs a contract may do so.\<close>

theorem rejected_tx_changes_nothing:
  assumes "checks_read G" and "e \<in> insert Prepay_funds (insert Gas_limit (range Invalid_tx))"
    and "TransitionState R G n T W = Some (Applied (Some e) T' W')" and "pointer W q"
  shows "Balance (object_at W' q) = Balance (object_at W q) \<and> Nonce (object_at W' q) = Nonce (object_at W q)"
proof -
  have p: "preCheck R G T W = Reject e T' W'"
  proof (cases "preCheck R G T W")
    case (Proceed TW)
    then obtain W1 where "transact R G n (fst TW) (snd TW) = Some (Applied (Some e) T' W1)"
      using assms(3) by (auto simp: TransitionState_def refunded_Applied split: prod.splits)
    from transact_errors [OF this] show ?thesis using assms(2) by simp
  next
    case (Reject e' T1 W1)
    then show ?thesis using assms(3) by (simp add: TransitionState_def)
  qed
  then obtain v W1 where v: "gd_ValidateTx G (tr_tx T) W = Some (v, W1)"
    and b: "if v = None then BuyGas R T W1 = Reject e T' W' else W' = W1"
    using assms(2) by (cases "gd_ValidateTx G (tr_tx T) W") (auto simp: preCheck_def split: option.splits)
  have "pointer W1 q" "Balance (object_at W1 q) = Balance (object_at W q)" "Nonce (object_at W1 q) = Nonce (object_at W q)"
    using v assms(1,4) by (auto simp: checks_read_def)
  then show ?thesis using b BuyGas_Reject [of R T W1 e T' W' q] by (simp split: if_splits)
qed

end
