(* ===== verification/Chain_Manager.thy ===== *)
theory Chain_Manager
  imports Block
begin

text \<open>
  The canonical chain and the tree of forks, \<^verbatim>\<open>monkchain/chain_manager.go\<close>. Blocks of the canonical chain are stored in the
  database under their hash; forks are kept in memory as links. The database is an argument; \<open>None\<close> is a panic.

  The nil of a pointer is an \<open>option\<close>. The children of a link are only written, so a link has none here.
  Processing a block against its parent is an interface of the program, the argument \<open>process\<close>; \<open>None\<close> is its error.
\<close>

section \<open>The manager\<close>

datatype link = Link (lk_block: Block) (lk_td: "int option") (lk_parent: "link option")

record ChainManager =
  genesisBlock :: Block
  TD :: int
  currentBlockNumber :: nat
  currentBlock :: Block
  currentBlockHash :: bytes
  workingTree :: "(bytes \<times> link) list"
  workingChain :: "link list option"
  latestCheckPointHash :: bytes
  latestCheckPointBlock :: "Block option"
  latestCheckPointNumber :: nat
  waitingForCheckPoint :: bool

definition CalcDifficulty :: "Block \<Rightarrow> Block \<Rightarrow> int" where
  "CalcDifficulty b parent =
     (let adjust = drop_bit 10 (bl_Difficulty parent) in
      if bl_Time b \<ge> int64 (bl_Time parent + 5) then bl_Difficulty parent - adjust else bl_Difficulty parent + adjust)"

definition db_data :: "database \<Rightarrow> bytes \<Rightarrow> bytes" where
  "db_data d k = (case d k of Some v \<Rightarrow> v | None \<Rightarrow> [])"

section \<open>Finding blocks\<close>

definition HasBlock :: "database \<Rightarrow> bytes \<Rightarrow> bool" where
  "HasBlock d hash = (length (db_data d hash) \<noteq> 0)"

definition GetBlockCanonical :: "database \<Rightarrow> bytes \<Rightarrow> Block option option" where
  "GetBlockCanonical d hash =
     (let data = db_data d hash in
      if length data = 0 then Some None else map_option Some (NewBlockFromBytes d data))"

definition GetBlockWorking :: "Platform \<Rightarrow> ChainManager \<Rightarrow> bytes \<Rightarrow> Block option" where
  "GetBlockWorking P cm hash =
     (case map_of (workingTree cm) hash of
        Some l \<Rightarrow> Some (lk_block l)
      | None \<Rightarrow>
         (case workingChain cm of
            None \<Rightarrow> None
          | Some chain \<Rightarrow> map_option lk_block (find (\<lambda>l. Block_Hash P (lk_block l) = hash) chain)))"

definition GetBlock :: "Platform \<Rightarrow> database \<Rightarrow> ChainManager \<Rightarrow> bytes \<Rightarrow> Block option option" where
  "GetBlock P d cm hash = do {
     b \<leftarrow> GetBlockCanonical d hash;
     Some (case b of Some b \<Rightarrow> Some b | None \<Rightarrow> GetBlockWorking P cm hash) }"

text \<open>The walks towards the genesis block. A walk over blocks that form a cycle has no end; it is \<open>None\<close> as well.\<close>

partial_function (option) has_prev_hash :: "Platform \<Rightarrow> database \<Rightarrow> ChainManager \<Rightarrow> bytes \<Rightarrow> Block option \<Rightarrow> bool option" where
  "has_prev_hash P d cm hash block =
     (case block of
        None \<Rightarrow> Some False
      | Some b \<Rightarrow>
          if hash = bl_PrevHash b then Some True
          else do { block \<leftarrow> GetBlock P d cm (bl_PrevHash b); has_prev_hash P d cm hash block })"

definition HasBlockWithPrevHash :: "Platform \<Rightarrow> database \<Rightarrow> ChainManager \<Rightarrow> bytes \<Rightarrow> bool option" where
  "HasBlockWithPrevHash P d cm hash = has_prev_hash P d cm hash (Some (currentBlock cm))"

fun chain_hashes :: "Platform \<Rightarrow> database \<Rightarrow> ChainManager \<Rightarrow> nat \<Rightarrow> Block \<Rightarrow> bytes list option" where
  "chain_hashes P d cm 0 b = Some []"
| "chain_hashes P d cm (Suc n) b =
     (if bl_Number b \<le> 0 then Some [Block_Hash P b]
      else do {
        block \<leftarrow> GetBlock P d cm (bl_PrevHash b);
        if n = 0 then Some [Block_Hash P b]
        else (case block of
           None \<Rightarrow> None
         | Some b' \<Rightarrow> do { hs \<leftarrow> chain_hashes P d cm n b'; Some (Block_Hash P b # hs) }) })"

definition GetChainHashesFromHash :: "Platform \<Rightarrow> database \<Rightarrow> ChainManager \<Rightarrow> bytes \<Rightarrow> nat \<Rightarrow> bytes list option" where
  "GetChainHashesFromHash P d cm hash n = do {
     block \<leftarrow> GetBlock P d cm hash;
     case block of None \<Rightarrow> Some [] | Some b \<Rightarrow> chain_hashes P d cm n b }"

partial_function (option) find_number :: "Platform \<Rightarrow> database \<Rightarrow> ChainManager \<Rightarrow> nat \<Rightarrow> Block option \<Rightarrow> Block option option" where
  "find_number P d cm num block =
     (case block of
        None \<Rightarrow> Some None
      | Some b \<Rightarrow>
          if big_Uint64 (bl_Number b) = num then Some (Some b)
          else do { block \<leftarrow> GetBlock P d cm (bl_PrevHash b); find_number P d cm num block })"

definition GetBlockByNumber :: "Platform \<Rightarrow> database \<Rightarrow> ChainManager \<Rightarrow> nat \<Rightarrow> Block option option" where
  "GetBlockByNumber P d cm num = do {
     block \<leftarrow> find_number P d cm num (Some (currentBlock cm));
     Some (case block of
             None \<Rightarrow> None
           | Some b \<Rightarrow> if big_Uint64 (bl_Number b) = 0 \<and> num \<noteq> 0 then None else Some b) }"

fun block_back :: "Platform \<Rightarrow> database \<Rightarrow> ChainManager \<Rightarrow> nat \<Rightarrow> Block option \<Rightarrow> Block option option" where
  "block_back P d cm 0 block = Some block"
| "block_back P d cm (Suc num) block =
     (case block of
        None \<Rightarrow> Some None
      | Some b \<Rightarrow> do { block \<leftarrow> GetBlock P d cm (bl_PrevHash b); block_back P d cm num block })"

definition GetBlockBack :: "Platform \<Rightarrow> database \<Rightarrow> ChainManager \<Rightarrow> nat \<Rightarrow> Block option option" where
  "GetBlockBack P d cm num = block_back P d cm num (Some (currentBlock cm))"

section \<open>Block info and difficulty\<close>

definition info_key :: "bytes \<Rightarrow> bytes" where
  "info_key hash = hash @ lit ''Info''"

definition BlockInfoByHash :: "database \<Rightarrow> bytes \<Rightarrow> BlockInfo option" where
  "BlockInfoByHash d hash = BlockInfo_RlpDecode (db_data d (info_key hash))"

text \<open>A link whose total difficulty is still nil gives \<open>None\<close>: the nil panics where it is added.\<close>

definition link_info :: "Platform \<Rightarrow> link \<Rightarrow> BlockInfo option" where
  "link_info P l =
     (let b = lk_block l in
      map_option (\<lambda>td. \<lparr>bi_Number = big_Uint64 (bl_Number b), bi_Hash = Block_Hash P b, bi_Parent = bl_PrevHash b, bi_TD = td\<rparr>) (lk_td l))"

definition cm_BlockInfo :: "Platform \<Rightarrow> database \<Rightarrow> ChainManager \<Rightarrow> Block \<Rightarrow> BlockInfo option" where
  "cm_BlockInfo P d cm b =
     (let hash = Block_Hash P b; data = db_data d (info_key hash);
          chain = (case workingChain cm of None \<Rightarrow> [] | Some chain \<Rightarrow> chain) in
      if length data = 0 then
        (case map_of (workingTree cm) hash of
           Some l \<Rightarrow> link_info P l
         | None \<Rightarrow>
            (case find (\<lambda>l. Block_Hash P (lk_block l) = hash) chain of
               Some l \<Rightarrow> link_info P l
             | None \<Rightarrow> BlockInfo_RlpDecode data))
      else BlockInfo_RlpDecode data)"

definition uncle_diff :: "Block \<Rightarrow> int" where
  "uncle_diff b = sum_list (map bl_Difficulty (Uncles b))"

definition CalculateBlockTD :: "Block \<Rightarrow> int" where
  "CalculateBlockTD b = uncle_diff b + bl_Difficulty b"

text \<open>\<open>Some None\<close> is the error about an unknown parent.\<close>

definition CalcTotalDiff :: "Platform \<Rightarrow> database \<Rightarrow> ChainManager \<Rightarrow> Block \<Rightarrow> int option option" where
  "CalcTotalDiff P d cm b = do {
     parent \<leftarrow> GetBlock P d cm (bl_PrevHash b);
     case parent of
       None \<Rightarrow> Some None
     | Some p \<Rightarrow> do { bi \<leftarrow> cm_BlockInfo P d cm p; Some (Some (bi_TD bi + uncle_diff b + bl_Difficulty b)) } }"

section \<open>The canonical chain\<close>

definition SetTotalDifficulty :: "int \<Rightarrow> ChainManager \<times> database \<Rightarrow> ChainManager \<times> database" where
  "SetTotalDifficulty td = (\<lambda>(cm, d). (cm\<lparr>TD := td\<rparr>, d(lit ''LTD'' \<mapsto> big_bytes td)))"

definition writeBlockInfo :: "Platform \<Rightarrow> Block \<Rightarrow> ChainManager \<times> database \<Rightarrow> ChainManager \<times> database" where
  "writeBlockInfo P b = (\<lambda>(cm, d).
     let cm = (if bl_Number b \<noteq> 0 then cm\<lparr>currentBlockNumber := (currentBlockNumber cm + 1) mod 2 ^ 64\<rparr> else cm);
         hash = Block_Hash P b;
         bi = \<lparr>bi_Number = currentBlockNumber cm, bi_Hash = hash, bi_Parent = bl_PrevHash b, bi_TD = TD cm\<rparr>
     in (cm, d(info_key hash \<mapsto> BlockInfo_RlpEncode bi)))"

definition cm_add :: "Platform \<Rightarrow> Block \<Rightarrow> ChainManager \<times> database \<Rightarrow> ChainManager \<times> database" where
  "cm_add P b cd =
     (let (cm, d) = writeBlockInfo P b cd; enc = Block_RlpEncode b in
      (cm\<lparr>currentBlock := b, currentBlockHash := Block_Hash P b\<rparr>,
       d(Block_Hash P b \<mapsto> enc, lit ''LastBlock'' \<mapsto> enc)))"

definition cm_Reset :: "Platform \<Rightarrow> ChainManager \<times> database \<Rightarrow> ChainManager \<times> database" where
  "cm_Reset P cd =
     (let (cm, d) = cm_add P (genesisBlock (fst cd)) cd; g = genesisBlock cm in
      (cm\<lparr>currentBlock := g, currentBlockHash := Block_Hash P g, currentBlockNumber := big_Uint64 (bl_Number g)\<rparr>, d))"

section \<open>Checkpoints\<close>

definition updateCheckpoint :: "Platform \<Rightarrow> bytes \<Rightarrow> ChainManager \<times> database \<Rightarrow> (ChainManager \<times> database) option" where
  "updateCheckpoint P checkPoint = (\<lambda>(cm, d). do {
     let cm = cm\<lparr>latestCheckPointHash := checkPoint\<rparr>;
     b \<leftarrow> GetBlock P d cm checkPoint;
     Some (case b of
       Some b \<Rightarrow>
         (cm\<lparr>waitingForCheckPoint := False, latestCheckPointBlock := Some b, latestCheckPointNumber := big_Uint64 (bl_Number b)\<rparr>,
          d(lit ''LatestCheckPoint'' \<mapsto> Block_Hash P b))
     | None \<Rightarrow> (cm\<lparr>waitingForCheckPoint := True\<rparr>, d)) })"

definition IsCheckpoint :: "bytes \<Rightarrow> ChainManager \<Rightarrow> bool" where
  "IsCheckpoint hash cm = (hash = latestCheckPointHash cm)"

text \<open>\<open>accept\<close> is the check of the protocol. A nil proposal is no call here.\<close>

definition CheckPoint :: "Platform \<Rightarrow> (bytes \<Rightarrow> ChainManager \<Rightarrow> bool) \<Rightarrow> bytes \<Rightarrow> ChainManager \<times> database \<Rightarrow> (ChainManager \<times> database) option" where
  "CheckPoint P accept proposed cd =
     (let cm = fst cd in
      if latestCheckPointHash cm = Block_Hash P (genesisBlock cm) then updateCheckpoint P proposed cd
      else if accept proposed cm then updateCheckpoint P proposed cd
      else Some cd)"

definition ReceiveCheckPointBlock :: "Platform \<Rightarrow> Block \<Rightarrow> ChainManager \<times> database \<Rightarrow> (bool \<times> ChainManager \<times> database) option" where
  "ReceiveCheckPointBlock P b cd =
     (if IsCheckpoint (Block_Hash P b) (fst cd)
      then map_option (\<lambda>cd. (True, cd)) (updateCheckpoint P (Block_Hash P b) (cm_add P b cd))
      else Some (False, cd))"

definition loadCheckpoint :: "Platform \<Rightarrow> ChainManager \<times> database \<Rightarrow> (ChainManager \<times> database) option" where
  "loadCheckpoint P cd =
     (let data = db_data (snd cd) (lit ''LatestCheckPoint'') in
      updateCheckpoint P (if length data \<noteq> 0 then data else Block_Hash P (genesisBlock (fst cd))) cd)"

section \<open>Extending the chain\<close>

definition NewChain :: "Block list \<Rightarrow> link list" where
  "NewChain bs = map (\<lambda>b. Link b None None) bs"

text \<open>A link without a difficulty would make the client panic here.\<close>

fun insertChain :: "Platform \<Rightarrow> link list \<Rightarrow> ChainManager \<times> database \<Rightarrow> (ChainManager \<times> database) option" where
  "insertChain P [] cd = Some cd"
| "insertChain P (l # ls) cd = do {
     td \<leftarrow> lk_td l;
     insertChain P ls (cm_add P (lk_block l) (SetTotalDifficulty td cd)) }"

section \<open>Forks\<close>

definition detectFork :: "Platform \<Rightarrow> database \<Rightarrow> ChainManager \<Rightarrow> link list \<Rightarrow> (Block option \<times> bool) option" where
  "detectFork P d cm chain =
     (case chain of
        [] \<Rightarrow> None
      | l # ls \<Rightarrow> do {
          branchParent \<leftarrow> GetBlock P d cm (bl_PrevHash (lk_block l));
          Some (case branchParent of
             None \<Rightarrow> (None, False)
           | Some b \<Rightarrow> (Some b, Block_Hash P (currentBlock cm) \<noteq> Block_Hash P b)) })"

text \<open>The links before the first one whose block is in the tree. Removing that one from the list ends the loop over it.\<close>

fun fresh_links :: "Platform \<Rightarrow> bytes list \<Rightarrow> link list \<Rightarrow> link list" where
  "fresh_links P known [] = []"
| "fresh_links P known (l # ls) =
     (let h = Block_Hash P (lk_block l) in if h \<in> set known then [] else l # fresh_links P (h # known) ls)"

text \<open>The parent of the first new link, and the two numbers that are added for it: the total difficulty of the parent and, in a fork that is
  extended, the difficulty of the block, but off the canonical chain the difficulty of the parent once more. \<open>Some None\<close>: the parent is
  unknown.\<close>

definition fork_base :: "Platform \<Rightarrow> database \<Rightarrow> ChainManager \<Rightarrow> Block \<Rightarrow> (link option \<times> int \<times> int) option option" where
  "fork_base P d cm b =
     (case map_of (workingTree cm) (bl_PrevHash b) of
        Some p \<Rightarrow> do { td \<leftarrow> lk_td p; Some (Some (Some p, td, bl_Difficulty b)) }
      | None \<Rightarrow> do {
          pb \<leftarrow> GetBlockCanonical d (bl_PrevHash b);
          (case pb of
             None \<Rightarrow> Some None
           | Some pb \<Rightarrow> do {
               bi \<leftarrow> BlockInfoByHash d (Block_Hash P pb);
               Some (Some (None, bi_TD bi, bl_Difficulty pb)) }) })"

text \<open>The loop works on pointers to numbers. \<open>numbers\<close> is the memory they point into; \<open>Add\<close> stores the sum where its receiver points to and
  returns the receiver. The loop has one number, \<open>base\<close>, as the receiver of all its additions, so that every
  link gets a pointer to it, and a later addition changes what the links before it show.\<close>

type_synonym numbers = "int list"

definition big_Add :: "nat \<Rightarrow> int \<Rightarrow> int \<Rightarrow> numbers \<Rightarrow> nat \<times> numbers" where
  "big_Add z x y m = (z, m[z := x + y])"

text \<open>The links after the first: the difficulty of a block is added to what the link before it points to.\<close>

fun add_links :: "nat \<Rightarrow> nat \<Rightarrow> link list \<Rightarrow> numbers \<Rightarrow> nat list \<times> numbers" where
  "add_links base prev [] m = ([], m)"
| "add_links base prev (l # ls) m =
     (let (td, m) = big_Add base (m ! prev) (bl_Difficulty (lk_block l)) m;
          (tds, m) = add_links base td ls m
      in (td # tds, m))"

text \<open>The links as they are after the loop, with what their pointers show then.\<close>

fun hang_links :: "numbers \<Rightarrow> link option \<Rightarrow> (link \<times> nat) list \<Rightarrow> link list" where
  "hang_links m parent [] = []"
| "hang_links m parent ((l, td) # ls) =
     (let k = Link (lk_block l) (Some (m ! td)) parent in k # hang_links m (Some k) ls)"

definition addChainToWorkingTree :: "Platform \<Rightarrow> database \<Rightarrow> link list \<Rightarrow> ChainManager \<Rightarrow> (link list \<times> ChainManager) option" where
  "addChainToWorkingTree P d chain cm =
     (let base = 0; m = [0] in
      case fresh_links P (map fst (workingTree cm)) chain of
        [] \<Rightarrow> Some (tl chain, cm)
      | l # ls \<Rightarrow> do {
          start \<leftarrow> fork_base P d cm (lk_block l);
          Some (case start of
             None \<Rightarrow> (chain, cm)
           | Some (parent, x, y) \<Rightarrow>
               let (td, m) = big_Add base x y m;
                   (tds, m) = add_links base td ls m;
                   new = hang_links m parent (zip (l # ls) (td # tds));
                   tree = foldl (\<lambda>t l. AList.update (Block_Hash P (lk_block l)) l t) (workingTree cm) new
               in (new @ drop (Suc (length new)) chain, cm\<lparr>workingTree := tree\<rparr>)) })"

section \<open>Testing and inserting chains\<close>

datatype chain_error = Chain_broken | Process_failed | TDError

type_synonym processor = "ChainManager \<Rightarrow> database \<Rightarrow> Block \<Rightarrow> Block \<Rightarrow> int option \<times> database"

text \<open>The error about an unknown parent quotes four bytes of its hash, which panics for a shorter one.\<close>

fun test_links :: "Platform \<Rightarrow> processor \<Rightarrow> ChainManager \<Rightarrow> link list \<Rightarrow> link list \<Rightarrow> int \<Rightarrow> database
    \<Rightarrow> (chain_error option \<times> int \<times> link list \<times> database) option" where
  "test_links P process cm tested [] td d = Some (None, td, tested, d)"
| "test_links P process cm tested (l # ls) td d = do {
     let chain = tested @ l # ls;
     let cm' = cm\<lparr>workingChain := Some chain\<rparr>;
     let b = lk_block l;
     parent \<leftarrow> GetBlock P d cm' (bl_PrevHash b);
     case parent of
       None \<Rightarrow> do { slice_go (bl_PrevHash b) 0 4; Some (Some Chain_broken, td, chain, d) }
     | Some p \<Rightarrow>
        (case process cm' d b p of
           (None, d) \<Rightarrow> Some (Some Process_failed, td, chain, d)
         | (Some t, d) \<Rightarrow> test_links P process cm (tested @ [Link b (Some t) (lk_parent l)]) ls t d) }"

definition TestChain :: "Platform \<Rightarrow> processor \<Rightarrow> link list \<Rightarrow> ChainManager \<times> database
    \<Rightarrow> (chain_error option \<times> link list \<times> ChainManager \<times> database) option" where
  "TestChain P process chain = (\<lambda>(cm, d). do {
     (parent, fork) \<leftarrow> detectFork P d (cm\<lparr>workingChain := Some chain\<rparr>) chain;
     (err, td, chain, d) \<leftarrow> test_links P process cm [] chain 0 d;
     let cm = cm\<lparr>workingChain := None\<rparr>;
     if err \<noteq> None then Some (err, chain, cm, d)
     else do {
       (chain, cm) \<leftarrow> (if fork then addChainToWorkingTree P d chain cm else Some (chain, cm));
       Some (if td \<le> TD cm then Some TDError else None, chain, cm, d) } })"

text \<open>The blocks from the branch point up to a link.\<close>

fun lineage :: "link \<Rightarrow> Block list" where
  "lineage (Link b td None) = [b]"
| "lineage (Link b td (Some p)) = lineage p @ [b]"

text \<open>The blocks of the old canonical chain above the ancestor.\<close>

partial_function (option) old_blocks :: "Platform \<Rightarrow> database \<Rightarrow> ChainManager \<Rightarrow> bytes \<Rightarrow> Block \<Rightarrow> Block list \<Rightarrow> Block list option" where
  "old_blocks P d cm ancestorHash b acc =
     (if Block_Hash P b = ancestorHash then Some acc
      else do {
        p \<leftarrow> GetBlock P d cm (bl_PrevHash b);
        (case p of None \<Rightarrow> None | Some p \<Rightarrow> old_blocks P d cm ancestorHash p (b # acc)) })"

text \<open>The first half of \<open>reOrg\<close>: take the new chain out of the tree, go back to the branch point and test the chain there. The flag
  tells whether the test failed, and the old head is put back.\<close>

definition reorg_switch :: "Platform \<Rightarrow> processor \<Rightarrow> link list \<Rightarrow> ChainManager \<times> database
    \<Rightarrow> (bool \<times> bytes \<times> Block \<times> link list \<times> ChainManager \<times> database) option" where
  "reorg_switch P process chain = (\<lambda>(cm, d). do {
     let bs = lineage (last chain);
     let cm = cm\<lparr>workingTree := foldl (\<lambda>t b. AList.delete (Block_Hash P b) t) (workingTree cm) bs\<rparr>;
     let ancestorHash = bl_PrevHash (hd bs);
     anc \<leftarrow> GetBlockCanonical d ancestorHash;
     let oldHeadHash = currentBlockHash cm;
     old \<leftarrow> GetBlockCanonical d oldHeadHash;
     (case (anc, old) of
        (Some ancestor, Some oldHead) \<Rightarrow> do {
          (err, bchain, cm, d) \<leftarrow>
            TestChain P process (NewChain bs) (cm\<lparr>currentBlock := ancestor, currentBlockHash := ancestorHash\<rparr>, d);
          Some (if err \<noteq> None
            then (True, ancestorHash, oldHead, bchain, cm\<lparr>currentBlock := oldHead, currentBlockHash := oldHeadHash\<rparr>, d)
            else (False, ancestorHash, oldHead, bchain, cm, d)) }
      | _ \<Rightarrow> None) })"

text \<open>The second half: put the old canonical chain into the tree. Whatever the test says, nothing more happens.\<close>

definition reorg_return :: "Platform \<Rightarrow> processor \<Rightarrow> bytes \<Rightarrow> Block \<Rightarrow> ChainManager \<times> database \<Rightarrow> (ChainManager \<times> database) option" where
  "reorg_return P process ancestorHash oldHead = (\<lambda>(cm, d). do {
     bs \<leftarrow> old_blocks P d cm ancestorHash oldHead [];
     (err, chain, cd) \<leftarrow> TestChain P process (NewChain bs) (cm, d);
     Some cd })"

partial_function (option) InsertChain :: "Platform \<Rightarrow> processor \<Rightarrow> link list \<Rightarrow> ChainManager \<times> database \<Rightarrow> (ChainManager \<times> database) option" where
  "InsertChain P process chain cd =
     (case chain of
        [] \<Rightarrow> None
      | l # ls \<Rightarrow> do {
          branchParent \<leftarrow> GetBlock P (snd cd) (fst cd) (bl_PrevHash (lk_block l));
          (case branchParent of
             None \<Rightarrow> None
           | Some p \<Rightarrow>
               if Block_Hash P (currentBlock (fst cd)) = Block_Hash P p then insertChain P chain cd
               else do {
                 td \<leftarrow> lk_td (last chain);
                 if td > TD (fst cd) then do {
                   (failed, ancestorHash, oldHead, bchain, cd) \<leftarrow> reorg_switch P process chain cd;
                   if failed then Some cd
                   else do {
                     cd \<leftarrow> InsertChain P process bchain cd;
                     reorg_return P process ancestorHash oldHead cd } }
                 else Some cd }) })"

section \<open>What the database holds\<close>

text \<open>Keys are kept apart by their length: a hash has 32 bytes, the key of a block info 36.\<close>

lemma key_apart:
  assumes "length h = 32"
  shows "info_key h' \<noteq> lit ''LTD''" "info_key h' \<noteq> lit ''LastBlock''" "h \<noteq> lit ''LTD''" "h \<noteq> lit ''LastBlock''"
    "length h' = 32 \<Longrightarrow> h \<noteq> info_key h'" "length h' = 32 \<Longrightarrow> info_key h' \<noteq> h"
proof -
  have "last (info_key h') = 0x6f" "last (lit ''LTD'') = 0x44" "last (lit ''LastBlock'') = 0x6b"
    by (simp_all add: info_key_def lit_def)
  then show "info_key h' \<noteq> lit ''LTD''" "info_key h' \<noteq> lit ''LastBlock''" by force+
  show "h \<noteq> lit ''LTD''" "h \<noteq> lit ''LastBlock''" "length h' = 32 \<Longrightarrow> h \<noteq> info_key h'"
    "length h' = 32 \<Longrightarrow> info_key h' \<noteq> h"
    using assms by (auto simp: info_key_def)
qed

lemma info_key_inject [simp]: "info_key h = info_key h' \<longleftrightarrow> h = h'"
  by (simp add: info_key_def)

lemma cm_add_db:
  assumes "length (Block_Hash P b) = 32" and "cm_add P b (SetTotalDifficulty td (cm, d)) = (cm', d')" and "length k = 32"
  shows "d' k = (if k = Block_Hash P b then Some (Block_RlpEncode b) else d k)"
    and "d' (info_key k) = (if k = Block_Hash P b
      then Some (BlockInfo_RlpEncode \<lparr>bi_Number = currentBlockNumber cm', bi_Hash = k, bi_Parent = bl_PrevHash b, bi_TD = td\<rparr>)
      else d (info_key k))"
    and "currentBlock cm' = b" "currentBlockHash cm' = Block_Hash P b" "TD cm' = td"
    "workingTree cm' = workingTree cm" "workingChain cm' = workingChain cm"
  using assms(2) key_apart [OF assms(1)] key_apart [OF assms(3)] assms(1,3)
  by (auto simp: cm_add_def writeBlockInfo_def SetTotalDifficulty_def Let_def)

lemma insertChain_Cons:
  assumes "insertChain P (l # ls) (cm, d) = Some r"
  obtains td cm1 d1 where "lk_td l = Some td" "cm_add P (lk_block l) (SetTotalDifficulty td (cm, d)) = (cm1, d1)"
    "insertChain P ls (cm1, d1) = Some r"
proof (cases "lk_td l")
  case (Some td)
  obtain cm1 d1 where "cm_add P (lk_block l) (SetTotalDifficulty td (cm, d)) = (cm1, d1)" by fastforce
  then show ?thesis using assms Some that by simp
qed (use assms in simp)

abbreviation link_hash :: "Platform \<Rightarrow> link \<Rightarrow> bytes" where
  "link_hash P l \<equiv> Block_Hash P (lk_block l)"

abbreviation hash32 :: "Platform \<Rightarrow> bool" where
  "hash32 P \<equiv> (\<forall>x. length (sha3 P x) = 32)"

lemma length_Block_Hash: "hash32 P \<Longrightarrow> length (Block_Hash P b) = 32"
  by (simp add: Block_Hash_def)

lemma insertChain_frame:
  "insertChain P ls (cm, d) = Some (cm', d') \<Longrightarrow> hash32 P \<Longrightarrow> length k = 32 \<Longrightarrow> k \<notin> link_hash P ` set ls \<Longrightarrow>
    d' k = d k \<and> d' (info_key k) = d (info_key k)"
proof (induction ls arbitrary: cm d)
  case (Cons l ls)
  obtain td cm1 d1 where c: "cm_add P (lk_block l) (SetTotalDifficulty td (cm, d)) = (cm1, d1)"
    and rest: "insertChain P ls (cm1, d1) = Some (cm', d')" using Cons.prems(1) by (rule insertChain_Cons)
  show ?case
    using Cons.IH [OF rest] Cons.prems cm_add_db(1,2) [OF length_Block_Hash c, of k] by simp
qed simp

lemma insertChain_manager:
  "insertChain P ls (cm, d) = Some (cm', d') \<Longrightarrow> hash32 P \<Longrightarrow> workingTree cm' = workingTree cm \<and> workingChain cm' = workingChain cm \<and>
    (ls \<noteq> [] \<longrightarrow> currentBlock cm' = lk_block (last ls) \<and> currentBlockHash cm' = link_hash P (last ls) \<and> lk_td (last ls) = Some (TD cm'))"
proof (induction ls arbitrary: cm d)
  case (Cons l ls)
  obtain td cm1 d1 where td: "lk_td l = Some td" and c: "cm_add P (lk_block l) (SetTotalDifficulty td (cm, d)) = (cm1, d1)"
    and rest: "insertChain P ls (cm1, d1) = Some (cm', d')" using Cons.prems(1) by (rule insertChain_Cons)
  note add = cm_add_db(3-7) [OF length_Block_Hash c length_Block_Hash, OF Cons.prems(2,2)]
  show ?case using Cons.IH [OF rest Cons.prems(2)] td add rest by (cases "ls = []") auto
qed simp

lemma insertChain_stored:
  "insertChain P ls (cm, d) = Some (cm', d') \<Longrightarrow> hash32 P \<Longrightarrow> distinct (map (link_hash P) ls) \<Longrightarrow> l \<in> set ls \<Longrightarrow>
    d' (link_hash P l) = Some (Block_RlpEncode (lk_block l)) \<and>
    (\<exists>n td. lk_td l = Some td \<and> d' (info_key (link_hash P l)) = Some (BlockInfo_RlpEncode
       \<lparr>bi_Number = n, bi_Hash = link_hash P l, bi_Parent = bl_PrevHash (lk_block l), bi_TD = td\<rparr>))"
proof (induction ls arbitrary: cm d)
  case (Cons a ls)
  obtain td cm1 d1 where td: "lk_td a = Some td" and c: "cm_add P (lk_block a) (SetTotalDifficulty td (cm, d)) = (cm1, d1)"
    and rest: "insertChain P ls (cm1, d1) = Some (cm', d')" using Cons.prems(1) by (rule insertChain_Cons)
  note len = length_Block_Hash [OF Cons.prems(2)]
  show ?case
  proof (cases "l \<in> set ls")
    case True
    then show ?thesis using Cons.IH [OF rest Cons.prems(2)] Cons.prems(3) by simp
  next
    case False
    then have "l = a" using Cons.prems(4) by simp
    then show ?thesis
      using insertChain_frame [OF rest Cons.prems(2) len, of "lk_block a"] Cons.prems(3) cm_add_db(1,2) [OF len c len, of "lk_block a"] td
      by auto
  qed
qed simp

lemma insertChain_total: "\<forall>l \<in> set ls. lk_td l \<noteq> None \<Longrightarrow> \<exists>r. insertChain P ls cd = Some r"
proof (induction ls arbitrary: cd)
  case (Cons l ls)
  then obtain td where "lk_td l = Some td" by auto
  then show ?case using Cons.IH [of "cm_add P (lk_block l) (SetTotalDifficulty td cd)"] Cons.prems by simp
qed simp

section \<open>Walking a stored chain\<close>

text \<open>The blocks of a list follow one another, the first one the block with the hash \<open>h\<close>.\<close>

fun linked :: "Platform \<Rightarrow> bytes \<Rightarrow> Block list \<Rightarrow> bool" where
  "linked P h [] = True"
| "linked P h (b # bs) = (bl_PrevHash b = h \<and> linked P (Block_Hash P b) bs)"

lemma linked_snoc: "linked P h (bs @ [b]) \<longleftrightarrow> linked P h bs \<and> bl_PrevHash b = (if bs = [] then h else Block_Hash P (last bs))"
  by (induction bs arbitrary: h) auto

lemma stored_block:
  assumes "block_ok b" and "d (Block_Hash P b) = Some (Block_RlpEncode b)"
  shows "GetBlockCanonical d (Block_Hash P b) = Some (Some (block_wire d b))"
    "GetBlock P d cm (Block_Hash P b) = Some (Some (block_wire d b))"
proof -
  have "NewBlockFromBytes d (Block_RlpEncode b) = Some (block_wire d b)"
    using assms(1) NewValueFromBytes_Encode [of "Block_Value b"] Block_RlpValueDecode_Value [OF assms(1), of d]
    by (simp add: NewBlockFromBytes_def Block_RlpEncode_def block_ok_def)
  moreover have "Block_RlpEncode b \<noteq> []"
    by (simp add: Block_RlpEncode_def Block_Value_def Value_Encode_def Encode_def)
  ultimately show "GetBlockCanonical d (Block_Hash P b) = Some (Some (block_wire d b))"
    using assms(2) by (simp add: GetBlockCanonical_def db_data_def)
  then show "GetBlock P d cm (Block_Hash P b) = Some (Some (block_wire d b))" by (simp add: GetBlock_def)
qed

lemma block_back_0: "block_back P d cm 0 = Some"
  by (simp add: fun_eq_iff)

text \<open>Walking back from a block of a stored, linked chain.\<close>

lemma block_back_linked:
  assumes "linked P h bs" and "\<forall>b \<in> set bs. block_ok b \<and> d (Block_Hash P b) = Some (Block_RlpEncode b)"
    and "bs \<noteq> []" and "bl_PrevHash x = bl_PrevHash (last bs)" and "Block_Hash P x = Block_Hash P (last bs)"
  shows "i < length bs \<Longrightarrow> \<exists>y. block_back P d cm i (Some x) = Some (Some y) \<and> Block_Hash P y = Block_Hash P (rev bs ! i)"
    and "block_back P d cm (length bs) (Some x) = GetBlock P d cm h"
proof -
  have "(i < length bs \<longrightarrow> (\<exists>y. block_back P d cm i (Some x) = Some (Some y) \<and> Block_Hash P y = Block_Hash P (rev bs ! i))) \<and>
      block_back P d cm (length bs) (Some x) = GetBlock P d cm h"
    using assms
  proof (induction bs arbitrary: x i rule: rev_induct)
    case (snoc b bs)
    show ?case
    proof (cases "bs = []")
      case True
      then show ?thesis using snoc.prems by (cases i) (auto simp: linked_snoc block_back_0)
    next
      case False
      let ?y = "block_wire d (last bs)"
      have ok: "block_ok (last bs)" "d (Block_Hash P (last bs)) = Some (Block_RlpEncode (last bs))" using snoc.prems(2) False by auto
      then have y: "GetBlock P d cm (bl_PrevHash x) = Some (Some ?y)" "Block_Hash P ?y = Block_Hash P (last bs)"
        "bl_PrevHash ?y = bl_PrevHash (last bs)"
        using snoc.prems(1,4) False stored_block(2) [of "last bs" d P cm, OF ok] Block_Hash_block_wire [of "last bs" P d]
        by (auto simp: linked_snoc block_ok_def header_ok_def block_wire_def)
      have "linked P h bs" using snoc.prems(1) by (simp add: linked_snoc)
      note IH = snoc.IH [OF this _ False y(3,2)]
      show ?thesis using IH [of "i - 1"] snoc.prems(2,5) y(1) by (cases i) auto
    qed
  qed simp
  then show "i < length bs \<Longrightarrow> \<exists>y. block_back P d cm i (Some x) = Some (Some y) \<and> Block_Hash P y = Block_Hash P (rev bs ! i)"
    and "block_back P d cm (length bs) (Some x) = GetBlock P d cm h" by blast+
qed

section \<open>Forks in the tree\<close>

lemma add_links_shared:
  "add_links base base ls m = (tds, m') \<Longrightarrow> base < length m \<Longrightarrow>
    tds = replicate (length ls) base \<and> m' ! base = m ! base + sum_list (map (bl_Difficulty \<circ> lk_block) ls)"
proof (induction ls arbitrary: m tds m')
  case (Cons l ls)
  obtain tds1 where "add_links base base ls (m[base := m ! base + bl_Difficulty (lk_block l)]) = (tds1, m')" "tds = base # tds1"
    using Cons.prems(1) by (auto simp: big_Add_def split: prod.splits)
  then show ?case using Cons.IH Cons.prems(2) by simp
qed simp

lemma hang_links_simps:
  "map lk_block (hang_links m par ks) = map (lk_block \<circ> fst) ks" "length (hang_links m par ks) = length ks"
  "hang_links m par ks = [] \<longleftrightarrow> ks = []" "map lk_td (hang_links m par ks) = map (\<lambda>(l, td). Some (m ! td)) ks"
  by (induction m par ks rule: hang_links.induct) (auto simp: Let_def)

lemma lineage_hang: "ks \<noteq> [] \<Longrightarrow>
  lineage (last (hang_links m par ks)) = (case par of None \<Rightarrow> [] | Some p \<Rightarrow> lineage p) @ map (lk_block \<circ> fst) ks"
proof (induction m par ks rule: hang_links.induct)
  case (2 m par l td ks)
  then show ?case
    by (cases "ks = []"; cases par) (auto simp: Let_def hang_links_simps(3))
qed simp

text \<open>All links of a new piece of a fork show the sum of all additions.\<close>

lemma addChain_shared:
  assumes "fresh_links P (map fst (workingTree cm)) (l # ls) = l # ls" and "fork_base P d cm (lk_block l) = Some (Some (par, x, y))"
  obtains new cm' where "addChainToWorkingTree P d (l # ls) cm = Some (new, cm')" "map lk_block new = map lk_block (l # ls)"
    "lineage (last new) = (case par of None \<Rightarrow> [] | Some p \<Rightarrow> lineage p) @ map lk_block (l # ls)"
    "map lk_td new = replicate (length (l # ls)) (Some (x + y + sum_list (map (bl_Difficulty \<circ> lk_block) ls)))"
proof -
  obtain tds m where add: "add_links 0 0 ls [x + y] = (tds, m)" by fastforce
  have m: "tds = replicate (length ls) 0" "m ! 0 = x + y + sum_list (map (bl_Difficulty \<circ> lk_block) ls)"
    using add_links_shared [OF add] by simp_all
  let ?ks = "zip (l # ls) (0 # tds)" and ?new = "hang_links m par (zip (l # ls) (0 # tds))"
  have ks: "map (lk_block \<circ> fst) ?ks = map lk_block (l # ls)" "?ks \<noteq> []" "length ?ks = length (l # ls)"
    using m(1) by (simp_all flip: map_map)
  have "map (\<lambda>(l, td). Some (m ! td)) ?ks = replicate (length (l # ls)) (Some (m ! 0))"
    using m(1) by (auto simp: list_eq_iff_nth_eq nth_Cons split: nat.split)
  then show ?thesis
    using assms add m hang_links_simps [of m par ?ks] lineage_hang [OF ks(2), of m par] ks
    by (intro that [of ?new "cm\<lparr>workingTree := foldl (\<lambda>t l. AList.update (link_hash P l) l t) (workingTree cm) ?new\<rparr>"])
      (simp_all add: addChainToWorkingTree_def big_Add_def Let_def del: hang_links.simps zip.simps)
qed

lemma sum_list_split:
  fixes f :: "'a \<Rightarrow> int"
  shows "sum_list (map f xs) = sum_list (map f (take i xs)) + sum_list (map f (drop i xs))"
  by (metis append_take_drop_id map_append sum_list_append)

lemma BlockInfo_roundtrip:
  assumes "bi_Number bi < 2 ^ 63" and "0 \<le> bi_TD bi" and "length (BlockInfo_RlpEncode bi) < 2 ^ 64"
  shows "BlockInfo_RlpDecode (BlockInfo_RlpEncode bi) = Some bi"
proof -
  let ?v = "VList [VUint (bi_Number bi), VBytes (bi_Hash bi), VBytes (bi_Parent bi), VBig (bi_TD bi)]"
  have "NewValueFromBytes (BlockInfo_RlpEncode bi) = Some (canon ?v)"
    using NewValueFromBytes_Encode [of ?v] assms(3) by (simp add: BlockInfo_RlpEncode_def Value_Encode_def)
  moreover have "length (be_bytes (bi_Number bi)) \<le> 8" using assms(1) by (intro length_be_bytes_64) simp
  ultimately show ?thesis
    using assms(1,2) by (simp add: BlockInfo_RlpDecode_def Value_Get_def Value_canon_bytes int64_id)
qed

section \<open>Properties\<close>

text \<open>C30: inserting a chain of blocks that follow one another makes its last block the head and its difficulty the total
  difficulty, and the chain can be walked: going back any number of blocks up to its length finds the block with the right hash,
  and after all of them the block the chain was attached to. Blocks that were in the database before are still there.\<close>

theorem insert_chain_walk:
  assumes "hash32 P" and "ls \<noteq> []" and "\<forall>l \<in> set ls. lk_td l \<noteq> None \<and> block_ok (lk_block l)"
    and "distinct (map (link_hash P) ls)" and "linked P h (map lk_block ls)"
  shows "\<exists>cm' d'. insertChain P ls (cm, d) = Some (cm', d') \<and>
    currentBlock cm' = lk_block (last ls) \<and> currentBlockHash cm' = link_hash P (last ls) \<and> lk_td (last ls) = Some (TD cm') \<and>
    (\<forall>i < length ls. \<exists>y. GetBlockBack P d' cm' i = Some (Some y) \<and> Block_Hash P y = link_hash P (rev ls ! i)) \<and>
    GetBlockBack P d' cm' (length ls) = GetBlock P d' cm' h \<and>
    (\<forall>k. length k = 32 \<longrightarrow> k \<notin> link_hash P ` set ls \<longrightarrow> d' k = d k)"
proof -
  obtain cm' d' where ins: "insertChain P ls (cm, d) = Some (cm', d')" using insertChain_total [of ls P "(cm, d)"] assms(3) by force
  note m = insertChain_manager [OF ins assms(1)]
  have "\<forall>b \<in> set (map lk_block ls). block_ok b \<and> d' (Block_Hash P b) = Some (Block_RlpEncode b)"
    using insertChain_stored [OF ins assms(1,4)] assms(3) by auto
  note walk = block_back_linked [OF assms(5) this, of "currentBlock cm'"]
  have "currentBlock cm' = last (map lk_block ls)" using m assms(2) by (simp add: last_map)
  then show ?thesis
    using ins m assms(2) walk insertChain_frame [OF ins assms(1)]
    by (simp add: GetBlockBack_def rev_map)
qed

definition example_chain :: ChainManager where
  "example_chain =
     \<lparr>genesisBlock = example_block, TD = 3, currentBlockNumber = 2, currentBlock = example_block,
      currentBlockHash = Block_Hash example_platform example_block, workingTree = [], workingChain = None,
      latestCheckPointHash = [], latestCheckPointBlock = None, latestCheckPointNumber = 0, waitingForCheckPoint = False\<rparr>"

lemma hash32_example: "hash32 example_platform"
  by (simp add: example_platform_def)

theorem insert_chain_walk_witness:
  "\<exists>cm' d'. insertChain example_platform [Link example_block (Some 5) None] (example_chain, Map.empty) = Some (cm', d') \<and>
    TD cm' = 5 \<and> GetBlockBack example_platform d' cm' 1 = GetBlock example_platform d' cm' ZeroHash256"
proof -
  have "bl_PrevHash example_block = ZeroHash256"
    by (simp add: example_block_def example_header_def Header.extend_def Block.fields_def)
  then show ?thesis
    using insert_chain_walk [OF hash32_example, of "[Link example_block (Some 5) None]" ZeroHash256 example_chain Map.empty]
      example_block_ok by (simp del: insertChain.simps) blast
qed

text \<open>C31: a new fork off the canonical chain gets the wrong difficulties. The total difficulty of its block \<open>i\<close> should be that of the parent
  and the difficulties of the blocks up to \<open>i\<close> and of their uncles. The link has the parent's difficulty in place of that of the first
  block, no uncles, and the difficulties of all blocks after \<open>i\<close> as well, since all links share one number; the chain of links is right.\<close>

theorem fork_difficulties:
  assumes "map_of (workingTree cm) (bl_PrevHash (lk_block l)) = None"
    and "GetBlockCanonical d (bl_PrevHash (lk_block l)) = Some (Some pb)"
    and "BlockInfoByHash d (Block_Hash P pb) = Some bi"
    and "fresh_links P (map fst (workingTree cm)) (l # ls) = l # ls" and "bs = map lk_block (l # ls)"
  shows "\<exists>new cm'. addChainToWorkingTree P d (l # ls) cm = Some (new, cm') \<and>
    map lk_block new = bs \<and> lineage (last new) = bs \<and>
    (\<forall>i < length bs. lk_td (new ! i) = Some (bi_TD bi + sum_list (map CalculateBlockTD (take (Suc i) bs))
       + bl_Difficulty pb - bl_Difficulty (hd bs) - sum_list (map uncle_diff (take (Suc i) bs))
       + sum_list (map bl_Difficulty (drop (Suc i) bs))))"
proof -
  have "fork_base P d cm (lk_block l) = Some (Some (None, bi_TD bi, bl_Difficulty pb))"
    using assms by (simp add: fork_base_def)
  then show ?thesis
  proof (rule addChain_shared [OF assms(4)])
    fix new cm'
    assume new: "addChainToWorkingTree P d (l # ls) cm = Some (new, cm')" "map lk_block new = map lk_block (l # ls)"
      "lineage (last new) = (case None of None \<Rightarrow> [] | Some p \<Rightarrow> lineage p) @ map lk_block (l # ls)"
      "map lk_td new = replicate (length (l # ls)) (Some (bi_TD bi + bl_Difficulty pb + sum_list (map (bl_Difficulty \<circ> lk_block) ls)))"
    have len: "length new = length bs" using new(2) assms(5) by (metis length_map)
    have td: "lk_td (new ! i) = Some (bi_TD bi + bl_Difficulty pb + sum_list (map (bl_Difficulty \<circ> lk_block) ls))" if "i < length bs" for i
    proof -
      have "lk_td (new ! i) = map lk_td new ! i" using that len by simp
      then show ?thesis using that assms(5) unfolding new(4) by (auto simp: nth_Cons split: nat.split)
    qed
    have rest: "sum_list (map (bl_Difficulty \<circ> lk_block) ls) = sum_list (map CalculateBlockTD (take j bs))
        - bl_Difficulty (hd bs) - sum_list (map uncle_diff (take j bs)) + sum_list (map bl_Difficulty (drop j bs))" for j
    proof -
      have "sum_list (map bl_Difficulty bs) = bl_Difficulty (hd bs) + sum_list (map (bl_Difficulty \<circ> lk_block) ls)"
        by (simp add: assms(5) flip: map_map)
      moreover have "sum_list (map CalculateBlockTD xs) = sum_list (map uncle_diff xs) + sum_list (map bl_Difficulty xs)" for xs
        by (induction xs) (simp_all add: CalculateBlockTD_def)
      ultimately show ?thesis using sum_list_split [of bl_Difficulty bs j] by simp
    qed
    have "lk_td (new ! i) = Some (bi_TD bi + sum_list (map CalculateBlockTD (take (Suc i) bs))
       + bl_Difficulty pb - bl_Difficulty (hd bs) - sum_list (map uncle_diff (take (Suc i) bs))
       + sum_list (map bl_Difficulty (drop (Suc i) bs)))" if "i < length bs" for i
      using td [OF that] rest [of "Suc i"] by simp
    then show ?thesis using new(1-3) unfolding assms(5) [symmetric] by (intro exI conjI) auto
  qed
qed

text \<open>A database with the parent, total difficulty 7 and difficulty 64, and a fork of two blocks of difficulties 1 and 2.\<close>

definition fork_db :: database where
  "fork_db = (let h = Block_Hash example_platform example_block in
     [h \<mapsto> Block_RlpEncode example_block,
      info_key h \<mapsto> BlockInfo_RlpEncode \<lparr>bi_Number = 2, bi_Hash = h, bi_Parent = [], bi_TD = 7\<rparr>])"

definition fork_chain :: "link list" where
  "fork_chain = NewChain
     [example_block\<lparr>bl_PrevHash := Block_Hash example_platform example_block, bl_Difficulty := 1\<rparr>,
      example_block\<lparr>bl_PrevHash := replicate 32 9, bl_Difficulty := 2\<rparr>]"

lemma fork_db_data:
  "fork_db (Block_Hash example_platform example_block) = Some (Block_RlpEncode example_block)"
  "db_data fork_db (info_key (Block_Hash example_platform example_block)) =
     BlockInfo_RlpEncode \<lparr>bi_Number = 2, bi_Hash = Block_Hash example_platform example_block, bi_Parent = [], bi_TD = 7\<rparr>"
proof -
  have len: "length (Block_Hash example_platform example_block) = 32" using hash32_example by (rule length_Block_Hash)
  show "fork_db (Block_Hash example_platform example_block) = Some (Block_RlpEncode example_block)"
    "db_data fork_db (info_key (Block_Hash example_platform example_block)) =
     BlockInfo_RlpEncode \<lparr>bi_Number = 2, bi_Hash = Block_Hash example_platform example_block, bi_Parent = [], bi_TD = 7\<rparr>"
    using key_apart(5) [OF len len] by (simp_all add: fork_db_def Let_def db_data_def)
qed

lemma fork_db_parent:
  "GetBlockCanonical fork_db (Block_Hash example_platform example_block) = Some (Some (block_wire fork_db example_block))"
  using stored_block(1) [of example_block fork_db example_platform, OF example_block_ok fork_db_data(1)] .

theorem fork_difficulties_witness:
  "\<exists>new cm'. addChainToWorkingTree example_platform fork_db fork_chain example_chain = Some (new, cm') \<and>
    map lk_td new = [Some (7 + 64 + 2), Some (7 + 64 + 2)]"
proof -
  let ?P = example_platform and ?h = "Block_Hash example_platform example_block"
  let ?bi = "\<lparr>bi_Number = 2, bi_Hash = ?h, bi_Parent = [], bi_TD = 7\<rparr>"
  obtain l k where lk: "fork_chain = [l, k]" "bl_PrevHash (lk_block l) = ?h" "bl_Difficulty (lk_block k) = 2"
    by (simp add: fork_chain_def NewChain_def)
  note db = fork_db_data(2) and can = fork_db_parent
  have "length (BlockInfo_RlpEncode ?bi) < 100" by code_simp
  then have bi: "BlockInfoByHash fork_db ?h = Some ?bi" using BlockInfo_roundtrip [of ?bi] db by (simp add: BlockInfoByHash_def)
  have "map (link_hash ?P) fork_chain ! 0 \<noteq> map (link_hash ?P) fork_chain ! 1" by code_simp
  then have "fresh_links ?P (map fst (workingTree example_chain)) [l, k] = [l, k]" by (simp add: lk(1) example_chain_def Let_def)
  moreover have "map_of (workingTree example_chain) (bl_PrevHash (lk_block l)) = None" by (simp add: example_chain_def)
  moreover have "BlockInfoByHash fork_db (Block_Hash ?P (block_wire fork_db example_block)) = Some ?bi"
    using Block_Hash_block_wire [of example_block ?P fork_db] example_block_ok bi by (simp add: block_ok_def header_ok_def)
  ultimately obtain new cm' where new: "addChainToWorkingTree ?P fork_db [l, k] example_chain = Some (new, cm')"
    "map lk_block new = map lk_block [l, k]" "\<forall>i < length (map lk_block [l, k]). lk_td (new ! i) =
       Some (bi_TD ?bi + sum_list (map CalculateBlockTD (take (Suc i) (map lk_block [l, k])))
         + bl_Difficulty (block_wire fork_db example_block) - bl_Difficulty (hd (map lk_block [l, k]))
         - sum_list (map uncle_diff (take (Suc i) (map lk_block [l, k]))) + sum_list (map bl_Difficulty (drop (Suc i) (map lk_block [l, k]))))"
    using fork_difficulties [of example_chain l fork_db "block_wire fork_db example_block" ?P ?bi "[k]", OF _ _ _ _ refl] can
    unfolding lk(2) by blast
  have diff: "bl_Difficulty (block_wire fork_db example_block) = 64"
    by (simp add: block_wire_def example_block_def example_header_def Header.extend_def Block.fields_def)
  obtain n1 n2 where "new = [n1, n2]" using new(2) by auto
  then show ?thesis
    using new(1) spec [OF new(3), of 0] spec [OF new(3), of 1] lk(3) diff unfolding lk(1) by (simp add: CalculateBlockTD_def)
qed

end
