(* ===== verification/Block_Manager.thy ===== *)
theory Block_Manager
  imports State_Transition Chain_Manager "HOL-Library.Sublist"
begin

text \<open>
  Processing of blocks, \<^verbatim>\<open>monkchain/block_manager.go\<close>, and the bloom filter of \<^verbatim>\<open>bloom.go\<close>. The state that a block is applied
  to is the state of the world; the chain manager is only read. Events posted to the reactor are left out.
\<close>

section \<open>Transactions of a block\<close>

text \<open>The errors the loop tells apart. The gas limit error of an account is a type of \<^verbatim>\<open>monkstate\<close>; the test here is for a
  type of the same name in \<^verbatim>\<open>monkchain\<close>, which nothing ever returns.\<close>

fun IsNonceErr :: "tr_error \<Rightarrow> bool" where
  "IsNonceErr (Invalid_tx NonceErr) = True"
| "IsNonceErr e = False"

fun IsGasLimitTxErr :: "tr_error \<Rightarrow> bool" where
  "IsGasLimitTxErr (Invalid_tx GasLimitTxErr) = True"
| "IsGasLimitTxErr e = False"

definition IsGasLimitErr :: "tr_error \<Rightarrow> bool" where
  "IsGasLimitErr e = False"

text \<open>Receipts, handled transactions and gas; at the gas limit also the unhandled transactions, with an error.\<close>

datatype processed =
    Processed "Receipt list" "Transaction list" int World
  | Limit_reached "Receipt list" "Transaction list" "Transaction list" int World
  | Receipt_failed World
  | Process_panic World
  | Process_stuck stuck

text \<open>The receipt of a transaction after the state has been updated; a root that is no byte slice panics.\<close>

definition tx_receipt :: "Runtime \<Rightarrow> Transaction \<Rightarrow> int \<Rightarrow> World \<Rightarrow> (Receipt \<times> World) option" where
  "tx_receipt R tx used W = do {
     W \<leftarrow> State_Update (platform R) W;
     case Root (st_Trie (w_state W)) of
       VBytes root \<Rightarrow> Some (\<lparr>rc_Tx = tx, PostState = root, CumulativeGasUsed = used\<rparr>, W)
     | _ \<Rightarrow> None }"

definition receipt_matches :: "Block \<Rightarrow> nat \<Rightarrow> Receipt \<Rightarrow> bool" where
  "receipt_matches b i rc = (i < length (receipts b) \<longrightarrow> Receipt_Cmp (receipts b ! i) rc)"

text \<open>The error about a receipt that does not match quotes four bytes of the post states and of the hash of the transaction, which
  panics if one of them is shorter.\<close>

definition receipt_error :: "Runtime \<Rightarrow> Receipt \<Rightarrow> Receipt \<Rightarrow> World \<Rightarrow> processed" where
  "receipt_error R original rc W =
     (case do { slice_go (PostState original) 0 4; slice_go (PostState rc) 0 4; slice_go (Tx_Hash (platform R) (rc_Tx rc)) 0 4 } of
        None \<Rightarrow> Process_panic W
      | Some _ \<Rightarrow> Receipt_failed W)"

fun process_txs :: "Runtime \<Rightarrow> GenDoug \<Rightarrow> nat \<Rightarrow> bytes \<Rightarrow> Block \<Rightarrow> nat \<Rightarrow> Transaction list \<Rightarrow> Receipt list \<Rightarrow> Transaction list
    \<Rightarrow> int \<Rightarrow> World \<Rightarrow> processed option" where
  "process_txs R G n coinbase b i [] rcs handled used W = Some (Processed rcs handled used W)"
| "process_txs R G n coinbase b i (tx # txs) rcs handled used W =
     (case GetStateObject coinbase W of
        None \<Rightarrow> Some (Process_panic W)
      | Some (None, W) \<Rightarrow> Some (Process_panic W)
      | Some (Some cb, W) \<Rightarrow>
         (case TransitionState R G n (NewStateTransition cb tx b W) W of
            None \<Rightarrow> None
          | Some (Tr_Stuck st) \<Rightarrow> Some (Process_stuck st)
          | Some (Applied err T W) \<Rightarrow>
              if (case err of None \<Rightarrow> False | Some e \<Rightarrow> IsNonceErr e \<or> IsGasLimitTxErr e)
              then process_txs R G n coinbase b (i + 1) txs rcs handled used W
              else if (case err of None \<Rightarrow> False | Some e \<Rightarrow> IsGasLimitErr e)
              then Some (Limit_reached rcs handled (tx # txs) used W)
              else
                let used = used + (tx_Gas tx - tr_gas T) in
                (case tx_receipt R tx used W of
                   None \<Rightarrow> Some (Process_panic W)
                 | Some (rc, W) \<Rightarrow>
                     if \<not> receipt_matches b i rc then Some (receipt_error R (receipts b ! i) rc W)
                     else process_txs R G n coinbase b (i + 1) txs (rcs @ [rc]) (handled @ [tx]) used W)))"

text \<open>The total is also assigned to \<open>GasUsed\<close> of the block passed as the parent.\<close>

definition ProcessTransactions :: "Runtime \<Rightarrow> GenDoug \<Rightarrow> nat \<Rightarrow> bytes \<Rightarrow> Block \<Rightarrow> Block \<Rightarrow> Transaction list \<Rightarrow> World
    \<Rightarrow> (processed \<times> Block) option" where
  "ProcessTransactions R G n coinbase b parent txs W =
     map_option (\<lambda>res. (res, case res of
         Processed rcs h used W \<Rightarrow> parent\<lparr>GasUsed := used\<rparr>
       | Limit_reached rcs h u used W \<Rightarrow> parent\<lparr>GasUsed := used\<rparr>
       | _ \<Rightarrow> parent))
       (process_txs R G n coinbase b 0 txs [] [] 0 W)"

definition ApplyDiff :: "Runtime \<Rightarrow> GenDoug \<Rightarrow> nat \<Rightarrow> Block \<Rightarrow> Block \<Rightarrow> World \<Rightarrow> (processed \<times> Block) option" where
  "ApplyDiff R G n parent b W =
     (case GetOrNewStateObject (bl_Coinbase b) W of
        None \<Rightarrow> Some (Process_panic W, parent)
      | Some (cb, W) \<Rightarrow>
          let W = change_object cb (SetGasPool (CalcGasLimit b parent)) W in
          ProcessTransactions R G n (so_address (object_at W cb)) b parent (transactions b) W)"

section \<open>Rewards\<close>

definition BlockReward :: int where "BlockReward = 1500000000000000000"

definition uncle_reward :: int where "uncle_reward = BlockReward * 15 div 16"
definition inclusion_reward :: int where "inclusion_reward = BlockReward div 32"

datatype uncle_error = Uncle_not_unique | Uncle_parent_unknown | Uncle_too_old | Uncle_in_chain

text \<open>The loop over the uncles; \<open>None\<close> is a panic.\<close>

fun reward_uncles :: "Platform \<Rightarrow> ChainManager \<Rightarrow> Block \<Rightarrow> bytes list \<Rightarrow> Header list \<Rightarrow> int \<Rightarrow> World
    \<Rightarrow> ((uncle_error + int) \<times> World) option" where
  "reward_uncles P cm parent nonces [] reward W = Some (Inr reward, W)"
| "reward_uncles P cm parent nonces (u # us) reward W =
     (if bl_Nonce u \<in> set nonces then Some (Inl Uncle_not_unique, W)
      else do {
        uncleParent \<leftarrow> GetBlock P (w_db W) cm (bl_PrevHash u);
        case uncleParent of
          None \<Rightarrow> Some (Inl Uncle_parent_unknown, W)
        | Some up \<Rightarrow>
            if bl_Number up < bl_Number parent - 6 then Some (Inl Uncle_too_old, W)
            else if Block_Hash P u \<in> Block_Hash P ` set (Uncles parent) then Some (Inl Uncle_in_chain, W)
            else do {
              (r, W) \<leftarrow> GetOrNewStateObject (bl_Coinbase u) W;
              reward_uncles P cm parent (bl_Nonce u # nonces) us (reward + inclusion_reward)
                (change_object r (AddAmount uncle_reward) W) } })"

definition AccumelateRewards :: "Platform \<Rightarrow> ChainManager \<Rightarrow> Block \<Rightarrow> Block \<Rightarrow> World \<Rightarrow> (uncle_error option \<times> World) option" where
  "AccumelateRewards P cm b parent W = do {
     (res, W) \<leftarrow> reward_uncles P cm parent [bl_Nonce b] (Uncles b) BlockReward W;
     case res of
       Inl e \<Rightarrow> Some (Some e, W)
     | Inr reward \<Rightarrow> do {
         (r, W) \<leftarrow> GetOrNewStateObject (bl_Coinbase b) W;
         Some (None, change_object r (AddAmount reward) W) } }"

section \<open>Blocks\<close>

text \<open>The second result tells whether the block has the highest total difficulty; without a known parent there is none.\<close>

definition CalculateTD :: "Platform \<Rightarrow> database \<Rightarrow> ChainManager \<Rightarrow> Block \<Rightarrow> (int option \<times> bool) option" where
  "CalculateTD P d cm b = do {
     td \<leftarrow> CalcTotalDiff P d cm b;
     Some (case td of None \<Rightarrow> (None, False) | Some td \<Rightarrow> (Some td, td > TD cm)) }"

record BlockManager =
  transState :: "State option"
  lastAttemptedBlock :: "Block option"
  bm_state :: State

datatype block_error = Apply_failed | Tx_sha_mismatch | Invalid_block | Bad_uncle uncle_error | Root_mismatch

datatype block_result =
    Accepted "int option" BlockManager World
  | Refused block_error BlockManager World
  | Block_panic
  | Block_stuck stuck

text \<open>The copy of a state has a manifest of its own, which is empty.\<close>

definition copy_state :: "State \<Rightarrow> World \<Rightarrow> State \<times> World" where
  "copy_state s W = (let (s', W) = State_Copy (set_state s W) in (s', Manifest_Reset W))"

text \<open>After the transactions: the checks of the block, the rewards and the comparison of the roots. \<open>valid\<close> is the block
  validation of the protocol.\<close>

definition check_block :: "Platform \<Rightarrow> (Block \<Rightarrow> ChainManager \<Rightarrow> World \<Rightarrow> (bool \<times> World) option) \<Rightarrow> ChainManager \<Rightarrow> Block \<Rightarrow> Block
    \<Rightarrow> Receipt list \<Rightarrow> World \<Rightarrow> (block_error option \<times> World) option" where
  "check_block P valid cm b parent rcs W = do {
     txSha \<leftarrow> CreateTxSha P (w_db W) rcs;
     if txSha \<noteq> TxSha b then Some (Some Tx_sha_mismatch, W)
     else do {
       (ok, W) \<leftarrow> valid b cm W;
       if \<not> ok then Some (Some Invalid_block, W)
       else do {
         (err, W) \<leftarrow> AccumelateRewards P cm b parent W;
         case err of
           Some e \<Rightarrow> Some (Some (Bad_uncle e), W)
         | None \<Rightarrow> do {
             W \<leftarrow> State_Update P W;
             Some (if State_Cmp (bl_state b) (w_state W) then None else Some Root_mismatch, W) } } } }"

text \<open>Taking over the new state: it is written to the database if the block has the highest total difficulty.\<close>

definition adopt_block :: "Platform \<Rightarrow> ChainManager \<Rightarrow> Block \<Rightarrow> BlockManager \<Rightarrow> World \<Rightarrow> block_result" where
  "adopt_block P cm b bm W =
     (case CalculateTD P (w_db W) cm b of
        None \<Rightarrow> Block_panic
      | Some (td, True) \<Rightarrow>
          let W = Manifest_Reset (State_Sync W); (s, W) = copy_state (w_state W) W
          in Accepted td (bm\<lparr>transState := None, bm_state := s\<rparr>) W
      | Some (td, False) \<Rightarrow> Accepted td (bm\<lparr>transState := Some (w_state W)\<rparr>) W)"

definition start_state :: "Platform \<Rightarrow> BlockManager \<Rightarrow> Block \<Rightarrow> World \<Rightarrow> (State \<times> World) option" where
  "start_state P bm parent W =
     (case transState bm of
        None \<Rightarrow> Some (copy_state (bl_state parent) W)
      | Some s \<Rightarrow>
         (case lastAttemptedBlock bm of
            None \<Rightarrow> None
          | Some b \<Rightarrow> Some (if Block_Hash P b = Block_Hash P parent then (s, W) else copy_state (bl_state parent) W)))"

text \<open>The second result is the parent, whose \<open>GasUsed\<close> has changed.\<close>

definition ProcessWithParent :: "Runtime \<Rightarrow> GenDoug \<Rightarrow> (Block \<Rightarrow> ChainManager \<Rightarrow> World \<Rightarrow> (bool \<times> World) option) \<Rightarrow> nat
    \<Rightarrow> ChainManager \<Rightarrow> Block \<Rightarrow> Block \<Rightarrow> BlockManager \<Rightarrow> World \<Rightarrow> (block_result \<times> Block) option" where
  "ProcessWithParent R G valid n cm b parent bm W =
     (case start_state (platform R) bm parent W of
        None \<Rightarrow> Some (Block_panic, parent)
      | Some (s, W) \<Rightarrow>
          let bm = bm\<lparr>lastAttemptedBlock := Some b\<rparr>; failed = bm\<lparr>transState := None\<rparr> in
          map_option
            (\<lambda>(res, parent).
               (case res of
                  Process_stuck st \<Rightarrow> Block_stuck st
                | Process_panic W \<Rightarrow> Block_panic
                | Receipt_failed W \<Rightarrow> Refused Apply_failed failed W
                | Limit_reached rcs handled unhandled used W \<Rightarrow> Refused Apply_failed failed W
                | Processed rcs handled used W \<Rightarrow>
                   (case check_block (platform R) valid cm b parent rcs W of
                      None \<Rightarrow> Block_panic
                    | Some (Some e, W) \<Rightarrow> Refused e failed W
                    | Some (None, W) \<Rightarrow> adopt_block (platform R) cm b bm W), parent))
            (ApplyDiff R G n parent b (set_state s W)))"

datatype messages_result =
    Got "Message list" BlockManager World
  | Parent_unknown
  | Messages_panic
  | Messages_stuck stuck

text \<open>Errors of the transactions and of the rewards are ignored here; the state is reset at the end. The parent is in the
  database, so it is decoded anew, and nothing else sees that it changes.\<close>

definition GetMessages :: "Runtime \<Rightarrow> GenDoug \<Rightarrow> nat \<Rightarrow> ChainManager \<Rightarrow> Block \<Rightarrow> BlockManager \<Rightarrow> World \<Rightarrow> messages_result option" where
  "GetMessages R G n cm b bm W =
     (let P = platform R in
      if \<not> HasBlock (w_db W) (bl_PrevHash b) then Some Parent_unknown
      else (case GetBlock P (w_db W) cm (bl_PrevHash b) of
         Some (Some parent) \<Rightarrow>
           let (s, W) = copy_state (bl_state parent) W in
           map_option
             (\<lambda>(res, parent).
                let finish = (\<lambda>W. case AccumelateRewards P cm b parent W of
                      None \<Rightarrow> Messages_panic
                    | Some (err, W) \<Rightarrow> Got (Messages W) (bm\<lparr>lastAttemptedBlock := Some b\<rparr>) (State_Reset W)) in
                case res of
                  Process_stuck st \<Rightarrow> Messages_stuck st
                | Process_panic W \<Rightarrow> Messages_panic
                | Receipt_failed W \<Rightarrow> finish W
                | Limit_reached rcs handled unhandled used W \<Rightarrow> finish W
                | Processed rcs handled used W \<Rightarrow> finish W)
             (ApplyDiff R G n parent b (set_state s W))
       | _ \<Rightarrow> Some Messages_panic))"

section \<open>The bloom filter\<close>

type_synonym BloomFilter = "byte list"

definition NewBloomFilter :: "byte list option \<Rightarrow> BloomFilter" where
  "NewBloomFilter bin = (case bin of None \<Rightarrow> replicate 256 0 | Some b \<Rightarrow> b)"

definition last8 :: "bytes \<Rightarrow> bytes" where
  "last8 addr = drop (length addr - 8) addr"

fun set_bins :: "bytes \<Rightarrow> BloomFilter \<Rightarrow> BloomFilter option" where
  "set_bins [] bin = Some bin"
| "set_bins (i # is) bin = (if unat i < length bin then set_bins is (bin[unat i := 1]) else None)"

definition Bloom_Set :: "bytes \<Rightarrow> BloomFilter \<Rightarrow> BloomFilter option" where
  "Bloom_Set addr bin = (if length addr < 8 then Some bin else set_bins (last8 addr) bin)"

fun search_bins :: "bytes \<Rightarrow> BloomFilter \<Rightarrow> bool option" where
  "search_bins [] bin = Some True"
| "search_bins (i # is) bin =
     (if unat i < length bin then if bin ! unat i = 0 then Some False else search_bins is bin else None)"

definition Bloom_Search :: "bytes \<Rightarrow> BloomFilter \<Rightarrow> bool option" where
  "Bloom_Search addr bin = (if length addr < 8 then Some False else search_bins (last8 addr) bin)"

fun bloom_messages :: "Message list \<Rightarrow> BloomFilter \<Rightarrow> BloomFilter option" where
  "bloom_messages [] bin = Some bin"
| "bloom_messages (m # ms) bin = do {
     bin \<leftarrow> Bloom_Set (msg_To m) bin;
     bin \<leftarrow> Bloom_Set (msg_From m) bin;
     bloom_messages ms bin }"

text \<open>The only call, in the processing of a block, is commented out, and so is the code that stores the filter.\<close>

definition createBloomFilter :: "World \<Rightarrow> BloomFilter option" where
  "createBloomFilter W = bloom_messages (Messages W) (NewBloomFilter None)"

section \<open>Gas of rejected transactions\<close>

lemma charge_tx_le:
  assumes "charge_tx T = (T', p)" "int (length (tr_data T)) < 2 ^ 63"
  shows "tr_gas T' \<le> tr_gas T" "p \<Longrightarrow> 0 \<le> tr_gas T'"
  using assms by (auto simp: charge_tx_def tr_UseGas_Some GasTx_def GasData_def int64_id split: option.splits)

lemma place_value_gas:
  "place_value R s T W = Reject e T' W' \<Longrightarrow> tr_gas T' = tr_gas T"
  by (auto simp: place_value_def Let_def split: if_splits option.splits prod.splits dest!: fetch_keeps)

lemma Eval_panic_gas:
  assumes "Eval R G n msg script context s T W = Some (Eval_Panic T' W')"
  shows "tr_gas T' \<le> max 0 (tr_gas T)"
proof -
  obtain ret err V where "T' = T\<lparr>tr_gas := tr_gas T'\<rparr>"
    "RunClosure R (NewEnv R G (tr_tx T) (tr_block T)) n
       ((NewClosure msg s context script (tr_gas T) (tx_GasPrice (tr_tx T)))\<lparr>Args := tx_Data (tr_tx T)\<rparr>)
       \<lparr>vm_world = W, vm_queue = [], vm_callStack = []\<rparr> = Some (Finished ret err (tr_gas T') V)"
    using assms by (auto simp: Eval_def Let_def split: option.splits run_result.splits posts_result.splits if_splits)
  then show ?thesis using run_gas(2) by (fastforce simp: NewClosure_def)
qed

lemma settle_gas:
  assumes "map_option (settle init snapshot r i) (Eval R G n msg script context s T W) = Some (Applied e T' W')"
  shows "tr_gas T' \<le> max 0 (tr_gas T)"
proof -
  obtain res where res: "Eval R G n msg script context s T W = Some res" "settle init snapshot r i res = Applied e T' W'"
    using assms by auto
  show ?thesis
  proof (cases res)
    case (Evaluated ret err T1 W1)
    then have "tr_gas T' = tr_gas T1" using res(2) by (auto simp: settle_def Let_def split: option.splits)
    then show ?thesis using Eval_gas(1) res(1) Evaluated by metis
  qed (use res Eval_panic_gas in \<open>auto simp: settle_def\<close>)
qed

lemma run_receiver_le:
  assumes "run_receiver R G n s snapshot r T W = Some (Applied e T' W')"
  shows "tr_gas T' \<le> max 0 (tr_gas T)"
proof -
  obtain j W1 where m: "AddMessage (tr_message s r R T W) W = (j, W1)" by fastforce
  show ?thesis
    using assms settle_gas by (fastforce simp: run_receiver_def m split: if_splits)
qed

lemma transact_le:
  assumes "transact R G n T W = Some (Applied e T' W')" "int (length (tr_data T)) < 2 ^ 63"
  shows "tr_gas T' \<le> tr_gas T"
proof (cases "tr_Sender R T W")
  case (Some a)
  obtain s T1 W1 T2 paid where s: "a = (s, T1, W1)" and c: "charge_tx T1 = (T2, paid)" by (metis surj_pair)
  have T1: "T1 = T\<lparr>tr_sen := Some s\<rparr>" using fetch_keeps(1) Some s by blast
  then have le: "tr_gas T2 \<le> tr_gas T1" "paid \<Longrightarrow> 0 \<le> tr_gas T2" using charge_tx_le [OF c] assms(2) by simp_all
  have body: "(if \<not> paid then Some (Applied (Some Out_of_gas) T2 (change_object s IncNonce W1))
     else if Balance (object_at (change_object s IncNonce W1) s) < tx_Value (tr_tx T2)
     then Some (Applied (Some Value_funds) T2 (change_object s IncNonce W1))
     else (case place_value R s T2 (change_object s IncNonce W1) of
        Reject e T W \<Rightarrow> Some (Applied (Some e) T W)
      | Proceed (snapshot, r, T, W) \<Rightarrow> run_receiver R G n s snapshot r T W)) = Some (Applied e T' W')"
    using assms(1) unfolding transact_def Some s option.case prod.case c Let_def .
  have "tr_gas T' \<le> tr_gas T2"
  proof (cases "place_value R s T2 (change_object s IncNonce W1)")
    case (Proceed x)
    then obtain snapshot r T3 W3 where x: "place_value R s T2 (change_object s IncNonce W1) = Proceed (snapshot, r, T3, W3)"
      by (metis surj_pair)
    show ?thesis using body x le place_value_keeps [OF x] run_receiver_le by (fastforce split: if_splits)
  next
    case (Reject e' T3 W3)
    show ?thesis using body Reject place_value_gas [OF Reject] by (auto split: if_splits)
  qed
  then show ?thesis using le T1 by simp
qed (use assms in \<open>simp add: transact_def\<close>)

lemma preCheck_reject_gas: "preCheck R G T W = Reject e T' W' \<Longrightarrow> tr_gas T' = tr_gas T"
  by (auto simp: preCheck_def BuyGas_def Let_def split: if_splits option.splits prod.splits dest!: fetch_keeps)

lemma transition_gas_le:
  assumes "TransitionState R G n (NewStateTransition c tx b W0) W = Some (Applied e T' W')" "0 \<le> tx_Gas tx"
    "int (length (tx_Data tx)) < 2 ^ 63"
  shows "tr_gas T' \<le> tx_Gas tx"
proof (cases "preCheck R G (NewStateTransition c tx b W0) W")
  case (Reject e1 T1 W1)
  then show ?thesis using assms preCheck_reject_gas [OF Reject] by (simp add: TransitionState_def NewStateTransition_def)
next
  case (Proceed x)
  obtain T1 W1 where x: "x = (T1, W1)" by fastforce
  obtain res where res: "transact R G n T1 W1 = Some res" "refunded res = Applied e T' W'"
    using assms Proceed x by (auto simp: TransitionState_def)
  then obtain W2 where "transact R G n T1 W1 = Some (Applied e T' W2)" by (auto simp: refunded_Applied)
  from transact_le [OF this] show ?thesis
    using preCheck_gas(1,3) [OF Proceed [unfolded x]] assms(3) by (simp add: NewStateTransition_def)
qed

section \<open>Receipts\<close>

lemma receipt_error_simps [simp]:
  "receipt_error R o1 rc W \<noteq> Processed rcs handled used W'" "receipt_error R o1 rc W \<noteq> Limit_reached rcs handled unhandled used W'"
  by (simp_all add: receipt_error_def split: option.split)

lemma process_txs_Cons:
  assumes "process_txs R G n coinbase b i (tx # txs) rcs handled used W = Some (Processed rcs' handled' used' W')"
  obtains
    (skipped) W1 where "process_txs R G n coinbase b (i + 1) txs rcs handled used W1 = Some (Processed rcs' handled' used' W')"
  | (counted) c W0 e T W1 rc W2
    where "TransitionState R G n (NewStateTransition c tx b W0) W0 = Some (Applied e T W1)"
      "tx_receipt R tx (used + (tx_Gas tx - tr_gas T)) W1 = Some (rc, W2)"
      "process_txs R G n coinbase b (i + 1) txs (rcs @ [rc]) (handled @ [tx]) (used + (tx_Gas tx - tr_gas T)) W2 =
         Some (Processed rcs' handled' used' W')"
proof -
  obtain c W0 where cb: "GetStateObject coinbase W = Some (Some c, W0)"
    using assms by (auto split: option.splits prod.splits)
  obtain e T W1 where tr: "TransitionState R G n (NewStateTransition c tx b W0) W0 = Some (Applied e T W1)"
    using assms cb by (auto split: option.splits tr_result.splits)
  show thesis
  proof (cases "case e of None \<Rightarrow> False | Some e \<Rightarrow> IsNonceErr e \<or> IsGasLimitTxErr e")
    case True
    then show thesis using skipped assms cb tr by simp
  next
    case False
    have "\<not> (case e of None \<Rightarrow> False | Some e \<Rightarrow> IsGasLimitErr e)" by (auto simp: IsGasLimitErr_def split: option.splits)
    then obtain rc W2 where "tx_receipt R tx (used + (tx_Gas tx - tr_gas T)) W1 = Some (rc, W2)" "receipt_matches b i rc"
      using assms cb tr False by (auto simp: Let_def split: option.splits if_splits)
    then show thesis using counted assms cb tr False
      by (auto simp: Let_def IsGasLimitErr_def split: option.splits)
  qed
qed

lemma tx_receipt_fields:
  "tx_receipt R tx used W = Some (rc, W') \<Longrightarrow> rc_Tx rc = tx \<and> CumulativeGasUsed rc = used"
  by (auto simp: tx_receipt_def split: Option.bind_splits gval.splits)

definition receipts_ok :: "Receipt list \<Rightarrow> Transaction list \<Rightarrow> int \<Rightarrow> bool" where
  "receipts_ok rcs handled used \<longleftrightarrow>
     map rc_Tx rcs = handled \<and> sorted (0 # map CumulativeGasUsed rcs) \<and> used = last (0 # map CumulativeGasUsed rcs)"

lemma sorted_snoc: "sorted zs \<Longrightarrow> zs \<noteq> [] \<Longrightarrow> last zs \<le> y \<Longrightarrow> sorted (zs @ [y])"
  for y :: "'a :: linorder"
  by (induction zs) (auto simp: sorted_append split: if_splits, meson last_in_set order_trans)

lemma receipts_ok_step:
  assumes "receipts_ok rcs handled used" "rc_Tx rc = tx" "CumulativeGasUsed rc = used'" "used \<le> used'"
  shows "receipts_ok (rcs @ [rc]) (handled @ [tx]) used'"
  using assms sorted_snoc [of "0 # map CumulativeGasUsed rcs" used']
  by (simp add: receipts_ok_def del: sorted_wrt.simps)

lemma process_txs_receipts:
  assumes "process_txs R G n coinbase b i txs rcs handled used W = Some (Processed rcs' handled' used' W')"
    and "\<And>tx. tx \<in> set txs \<Longrightarrow> 0 \<le> tx_Gas tx \<and> int (length (tx_Data tx)) < 2 ^ 63" and "receipts_ok rcs handled used"
  shows "receipts_ok rcs' handled' used' \<and> (\<exists>new. handled' = handled @ new \<and> subseq new txs)"
  using assms
proof (induction txs arbitrary: i rcs handled used W)
  case (Cons tx txs)
  from Cons.prems(1) show ?case
  proof (cases rule: process_txs_Cons)
    case (skipped W1)
    from Cons.IH [OF this] Cons.prems(2,3) show ?thesis by auto
  next
    case (counted c W0 e T W1 rc W2)
    have "tr_gas T \<le> tx_Gas tx" using transition_gas_le [OF counted(1)] Cons.prems(2) by simp
    then have "receipts_ok (rcs @ [rc]) (handled @ [tx]) (used + (tx_Gas tx - tr_gas T))"
      using receipts_ok_step [OF Cons.prems(3)] tx_receipt_fields [OF counted(2)] by simp
    from Cons.IH [OF counted(3) _ this] Cons.prems(2)
    obtain new where "receipts_ok rcs' handled' used'" "handled' = (handled @ [tx]) @ new" "subseq new txs" by auto
    then show ?thesis by (auto intro!: exI [of _ "tx # new"])
  qed
qed (auto simp: receipts_ok_def)

lemma process_txs_no_limit:
  "process_txs R G n coinbase b i txs rcs handled used W \<noteq> Some (Limit_reached rcs' handled' unhandled used' W')"
proof (induction txs arbitrary: i rcs handled used W)
  case (Cons tx txs)
  then show ?case
    by (auto simp: IsGasLimitErr_def Let_def split: option.splits prod.splits tr_result.splits if_splits)
qed simp

section \<open>Coins issued by a block\<close>

definition coins :: "World \<Rightarrow> int" where
  "coins W = (\<Sum>q<length (objects W). Balance (object_at W q))"

lemma coins_AddAmount:
  assumes "pointer W r"
  shows "coins (change_object r (AddAmount v) W) = coins W + v"
proof -
  have "Balance (object_at (change_object r (AddAmount v) W) q) = Balance (object_at W q) + (if q = r then v else 0)"
    if "q < length (objects W)" for q
    using assms that by (auto simp: heap.get_change AddAmount_def)
  then have "coins (change_object r (AddAmount v) W) = (\<Sum>q<length (objects W). Balance (object_at W q) + (if q = r then v else 0))"
    by (simp add: coins_def)
  then show ?thesis using assms by (simp add: coins_def sum.distrib pointer_def)
qed

lemma reward_uncles_issue:
  assumes "reward_uncles P cm parent nonces us reward W = Some (Inr reward', W')"
    and "\<And>u. u \<in> set us \<Longrightarrow> \<exists>r. map_of (stateObjects (w_state W)) (Address (bl_Coinbase u)) = Some r \<and> pointer W r"
  shows "coins W' = coins W + int (length us) * uncle_reward \<and> reward' = reward + int (length us) * inclusion_reward \<and>
    w_state W' = w_state W \<and> pointer W' = pointer W \<and> distinct (map bl_Nonce us) \<and> set nonces \<inter> bl_Nonce ` set us = {}"
  using assms
proof (induction us arbitrary: nonces reward W)
  case (Cons u us)
  obtain r where r: "map_of (stateObjects (w_state W)) (Address (bl_Coinbase u)) = Some r" "pointer W r"
    using Cons.prems(2) [of u] by auto
  let ?W = "change_object r (AddAmount uncle_reward) W"
  have "bl_Nonce u \<notin> set nonces"
    "reward_uncles P cm parent (bl_Nonce u # nonces) us (reward + inclusion_reward) ?W = Some (Inr reward', W')"
    using Cons.prems(1) GetOrNew_cached [OF r(1)] by (auto split: if_splits Option.bind_splits option.splits)
  then show ?case
    using Cons.IH [of "bl_Nonce u # nonces" "reward + inclusion_reward" ?W] Cons.prems(2) coins_AddAmount [OF r(2)]
    by (auto simp: algebra_simps)
qed simp

section \<open>The bloom filter\<close>

text \<open>Both loops of \<^verbatim>\<open>bloom.go\<close> stay within the 256 bins.\<close>

lemma set_bins_Some:
  assumes "length bin = 256"
  shows "\<exists>bin'. set_bins is bin = Some bin' \<and> length bin' = 256 \<and>
    (\<forall>j < 256. bin' ! j = (if j \<in> unat ` set is then 1 else bin ! j))"
  using assms
proof (induction "is" arbitrary: bin)
  case (Cons i "is")
  then have "length (bin[unat i := 1]) = 256" by simp
  from Cons.IH [OF this] obtain bin' where b: "set_bins is (bin[unat i := 1]) = Some bin'" "length bin' = 256"
    "\<And>j. j < 256 \<Longrightarrow> bin' ! j = (if j \<in> unat ` set is then 1 else bin[unat i := 1] ! j)"
    by blast
  have "bin' ! j = (if j \<in> unat ` set (i # is) then 1 else bin ! j)" if "j < 256" for j
    using b(3) [OF that] that Cons.prems by (auto simp: nth_list_update)
  then show ?case using b(1,2) Cons.prems unat_byte_less [of i] by auto
qed simp

lemma search_bins_True:
  "length bin = 256 \<Longrightarrow> search_bins is bin = Some (\<forall>i\<in>set is. bin ! unat i \<noteq> 0)"
proof (induction "is")
  case (Cons i "is")
  then show ?case using unat_byte_less [of i] by simp
qed simp

lemma Bloom_Set_grows:
  assumes "length bin = 256"
  obtains bin' where "Bloom_Set addr bin = Some bin'" "length bin' = 256"
    "\<And>a. Bloom_Search a bin = Some True \<Longrightarrow> Bloom_Search a bin' = Some True"
    "8 \<le> length addr \<Longrightarrow> Bloom_Search addr bin' = Some True"
proof (cases "length addr < 8")
  case True
  then show ?thesis using that assms by (simp add: Bloom_Set_def)
next
  case False
  obtain bin' where b: "set_bins (last8 addr) bin = Some bin'" "length bin' = 256"
    "\<And>j. j < 256 \<Longrightarrow> bin' ! j = (if j \<in> unat ` set (last8 addr) then 1 else bin ! j)"
    using set_bins_Some [OF assms] by blast
  have bin': "bin' ! unat i = (if unat i \<in> unat ` set (last8 addr) then 1 else bin ! unat i)" for i :: byte
    using b(3) unat_byte_less by simp
  show ?thesis
    by (rule that [of bin']) (use False b(1,2) assms in \<open>auto simp: Bloom_Set_def Bloom_Search_def search_bins_True bin' split: if_splits\<close>)
qed

lemma bloom_messages_finds:
  assumes "length bin = 256"
  shows "\<exists>bin'. bloom_messages ms bin = Some bin' \<and> length bin' = 256 \<and>
    (\<forall>a. Bloom_Search a bin = Some True \<or> 8 \<le> length a \<and> a \<in> msg_To ` set ms \<union> msg_From ` set ms \<longrightarrow>
       Bloom_Search a bin' = Some True)"
  using assms
proof (induction ms arbitrary: bin)
  case (Cons m ms)
  obtain b1 where b1: "Bloom_Set (msg_To m) bin = Some b1" "length b1 = 256"
    "\<And>a. Bloom_Search a bin = Some True \<Longrightarrow> Bloom_Search a b1 = Some True"
    "8 \<le> length (msg_To m) \<Longrightarrow> Bloom_Search (msg_To m) b1 = Some True"
    using Bloom_Set_grows [OF Cons.prems] by metis
  obtain b2 where b2: "Bloom_Set (msg_From m) b1 = Some b2" "length b2 = 256"
    "\<And>a. Bloom_Search a b1 = Some True \<Longrightarrow> Bloom_Search a b2 = Some True"
    "8 \<le> length (msg_From m) \<Longrightarrow> Bloom_Search (msg_From m) b2 = Some True"
    using Bloom_Set_grows [OF b1(2)] by metis
  obtain b3 where b3: "bloom_messages ms b2 = Some b3" "length b3 = 256"
    "\<And>a. Bloom_Search a b2 = Some True \<or> 8 \<le> length a \<and> a \<in> msg_To ` set ms \<union> msg_From ` set ms \<Longrightarrow>
       Bloom_Search a b3 = Some True"
    using Cons.IH [OF b2(2)] by blast
  show ?case
  proof (intro exI [of _ b3] conjI allI impI)
    show "bloom_messages (m # ms) bin = Some b3" "length b3 = 256" using b1(1) b2(1) b3(1,2) by simp_all
    fix a assume "Bloom_Search a bin = Some True \<or> 8 \<le> length a \<and> a \<in> msg_To ` set (m # ms) \<union> msg_From ` set (m # ms)"
    then show "Bloom_Search a b3 = Some True" using b1(3,4) b2(3,4) b3(3) by auto
  qed
qed simp

section \<open>Properties\<close>

text \<open>C32: The receipts of a processed block belong to the handled transactions, which are some of the transactions in
  their order. The cumulative gas never falls, and the last one is the gas charged for the block, which is written into
  the parent. Processing never stops at the gas limit, since the gas limit error of an account is not recognised.\<close>

theorem block_receipts:
  assumes "ProcessTransactions R G n coinbase b parent txs W = Some (res, parent')"
    and "\<forall>tx\<in>set txs. 0 \<le> tx_Gas tx \<and> int (length (tx_Data tx)) < 2 ^ 63"
  shows "(\<forall>rcs handled used W'. res = Processed rcs handled used W' \<longrightarrow>
      map rc_Tx rcs = handled \<and> subseq handled txs \<and> sorted (0 # map CumulativeGasUsed rcs) \<and>
      used = last (0 # map CumulativeGasUsed rcs) \<and> parent' = parent\<lparr>GasUsed := used\<rparr>) \<and>
    \<not> (\<exists>rcs handled unhandled used W'. res = Limit_reached rcs handled unhandled used W')"
proof (intro conjI allI impI)
  have run: "process_txs R G n coinbase b 0 txs [] [] 0 W = Some res" using assms(1) by (auto simp: ProcessTransactions_def)
  then show "\<not> (\<exists>rcs handled unhandled used W'. res = Limit_reached rcs handled unhandled used W')"
    using process_txs_no_limit by blast
  fix rcs handled used W' assume res: "res = Processed rcs handled used W'"
  have "receipts_ok [] [] 0" by (simp add: receipts_ok_def)
  with process_txs_receipts [of R G n coinbase b 0 txs "[]" "[]" 0 W rcs handled used W'] run res assms(2)
  show "map rc_Tx rcs = handled" "subseq handled txs" "sorted (0 # map CumulativeGasUsed rcs)"
    "used = last (0 # map CumulativeGasUsed rcs)" by (auto simp: receipts_ok_def)
  show "parent' = parent\<lparr>GasUsed := used\<rparr>" using assms(1) res by (auto simp: ProcessTransactions_def)
qed

text \<open>C33: The rewards of a block whose miners are cached accounts add a fixed amount per block and per uncle to the
  balances: nothing is lost or counted twice. The nonces of the block and its uncles differ.\<close>

theorem rewards_issued:
  assumes "AccumelateRewards P cm b parent W = Some (None, W')"
    and "\<forall>a\<in>insert (bl_Coinbase b) (bl_Coinbase ` set (Uncles b)).
      \<exists>r. map_of (stateObjects (w_state W)) (Address a) = Some r \<and> pointer W r"
  shows "coins W' = coins W + BlockReward + int (length (Uncles b)) * (BlockReward * 15 div 16 + BlockReward div 32) \<and>
    distinct (bl_Nonce b # map bl_Nonce (Uncles b))"
proof -
  obtain reward W1 where u: "reward_uncles P cm parent [bl_Nonce b] (Uncles b) BlockReward W = Some (Inr reward, W1)"
    using assms(1) by (auto simp: AccumelateRewards_def split: Option.bind_splits sum.splits)
  note i = reward_uncles_issue [OF u]
  obtain r where r: "map_of (stateObjects (w_state W)) (Address (bl_Coinbase b)) = Some r" "pointer W r"
    using assms(2) by auto
  have c: "coins W1 = coins W + int (length (Uncles b)) * uncle_reward" "reward = BlockReward + int (length (Uncles b)) * inclusion_reward"
    "w_state W1 = w_state W" "pointer W1 = pointer W" "distinct (bl_Nonce b # map bl_Nonce (Uncles b))"
    using i assms(2) by auto
  have "W' = change_object r (AddAmount reward) W1"
    using assms(1) u GetOrNew_cached [of W1 "bl_Coinbase b" r] r(1) c(3) by (simp add: AccumelateRewards_def)
  then show ?thesis
    using coins_AddAmount [of W1 r reward] r(2) c by (simp add: uncle_reward_def inclusion_reward_def algebra_simps)
qed

text \<open>The bloom filter of a state has no false negatives: it can be built for any messages, and every address of at
  least eight bytes that sent or received one is found.\<close>

theorem bloom_complete:
  "\<exists>bin. createBloomFilter W = Some bin \<and> length bin = 256 \<and>
     (\<forall>a. 8 \<le> length a \<and> a \<in> msg_To ` set (Messages W) \<union> msg_From ` set (Messages W) \<longrightarrow> Bloom_Search a bin = Some True)"
  using bloom_messages_finds [OF length_replicate, of "Messages W" "0 :: byte"]
  unfolding createBloomFilter_def NewBloomFilter_def option.case by blast

end
