(* ===== verification/Chain_Examples.thy ===== *)
theory Chain_Examples
  imports State_Transition "HOL-Library.Code_Target_Nat"
begin

text \<open>
  Transactions on a concrete world, evaluated in the logic: witnesses for the theorems of \<^theory_text>\<open>State_Transition\<close>, and
  transactions that show what goes wrong.
\<close>

section \<open>A world with a sender, a contract and a miner\<close>

definition chain_runtime :: Runtime where
  "chain_runtime = example_runtime\<lparr>RecoverPubkey := \<lambda>hash sig. Some [4, 8]\<rparr>"

definition free_doug :: GenDoug where
  "free_doug = \<lparr>gd_Doug = [], gd_ValidatePerm = (\<lambda>addr role W. Some (True, W)), gd_ValidateTx = (\<lambda>tx W. Some (None, W))\<rparr>"

definition chain_world :: "bytes \<Rightarrow> Message list \<Rightarrow> World" where
  "chain_world code ms =
     \<lparr>w_state = \<lparr>st_Trie = Trie_New Map.empty (VStr []),
        stateObjects = [(replicate 20 1, 0), (Address [7], 1), (Address [9], 2)]\<rparr>,
      objects = [AddAmount 10000 (NewStateObject Map.empty (replicate 20 1)),
        (NewStateObject Map.empty [7])\<lparr>Code := code\<rparr>, SetGasPool 5000 (NewStateObject Map.empty [9])],
      w_db = Map.empty, Messages = ms\<rparr>"

text \<open>\<open>post_code\<close> posts a message to its own account and stops.\<close>

definition post_code :: bytes where
  "post_code = [0x60, 0, 0x60, 0, 0x60, 0, 0x60, 7, 0x60, 100, 0xf3, 0x00]"

abbreviation call_tx :: Transaction where
  "call_tx \<equiv> NewTransactionMessage (Address [7]) 30 1000 2 []"

abbreviation transition :: "nat \<Rightarrow> Transaction \<Rightarrow> bytes \<Rightarrow> tr_result option" where
  "transition n tx code \<equiv>
     TransitionState chain_runtime free_doug n (NewStateTransition 2 tx example_block (chain_world code [])) (chain_world code [])"

lemma free_doug_reads: "perms_read free_doug" "checks_read free_doug"
  by (simp_all add: perms_read_def checks_read_def free_doug_def)

lemma Tx_Sender_chain: "Tx_Sender chain_runtime tx = Some (replicate 20 1)"
proof -
  have "key_address (platform chain_runtime) [4, 8] = Some (replicate 20 1)" by code_simp
  then show ?thesis by (simp add: Tx_Sender_def Tx_PublicKey_def chain_runtime_def)
qed

lemma call_tx_passes: "passes chain_runtime free_doug 2 0 1 call_tx (chain_world code ms)"
proof -
  have "Address (replicate 20 1) = replicate 20 1" "Address (Address [7]) = Address [7]" "Address [7] \<noteq> replicate 20 1"
    by code_simp+
  then show ?thesis
    by (simp add: passes_def Tx_Sender_chain) (simp add: chain_world_def free_doug_def NewTransactionMessage_def IsContractAddr_def
        CreatesContract_def pointer_def object_at_def SetGasPool_def GasValue_def AddAmount_def NewStateObject_def GasTx_def
        Address_def LeftPadBytes_def)
qed

section \<open>Witnesses\<close>

theorem transition_gas_witness:
  "\<exists>T' W'. transition 9 call_tx [] = Some (Applied None T' W') \<and> tr_gas T' + 500 \<le> 1000"
proof -
  have "case transition 9 call_tx [] of Some (Applied None T' W') \<Rightarrow> True | _ \<Rightarrow> False" by code_simp
  then obtain T' W' where r: "transition 9 call_tx [] = Some (Applied None T' W')"
    by (auto split: option.splits tr_result.splits)
  from transition_gas [OF r] show ?thesis using r by (auto simp: NewTransactionMessage_def GasTx_def)
qed

theorem plain_transfer_witness:
  "\<exists>T' W'. transition 0 call_tx [] = Some (Applied None T' W') \<and>
    Balance (object_at W' 0) = 8970 \<and> Balance (object_at W' 1) = 30 \<and> Balance (object_at W' 2) = 1000"
proof -
  have b: "Code (object_at (chain_world [] []) 1) = []" "pointer (chain_world [] []) 0" "pointer (chain_world [] []) 1"
    "pointer (chain_world [] []) 2" "Balance (object_at (chain_world [] []) 0) = 10000"
    "Balance (object_at (chain_world [] []) 1) = 0" "Balance (object_at (chain_world [] []) 2) = 0"
    by (simp_all add: chain_world_def pointer_def object_at_def AddAmount_def NewStateObject_def SetGasPool_def)
  have t: "tx_Value call_tx = 30" "tx_Data call_tx = []" "tx_GasPrice call_tx = 2" by (simp_all add: NewTransactionMessage_def)
  from plain_transfer [OF call_tx_passes b(1), of 0 example_block] b(2-) t show ?thesis
    by (auto simp: GasTx_def)
qed

theorem failed_code_keeps_gas_witness:
  "\<exists>T' W'. transition 9 call_tx [0xef, 0] = Some (Applied (Some (Code_failed (Invalid_opcode (Undefined 0xef)))) T' W') \<and>
    tr_gas T' = 499 \<and> map_option fst (account_view W' (replicate 20 1)) = Some 7970"
proof -
  let ?W = "chain_world [0xef, 0] []"
  have "case transition 9 call_tx [0xef, 0] of
      Some (Applied (Some (Code_failed (Invalid_opcode (Undefined k)))) T' W') \<Rightarrow> k = 0xef \<and> tr_gas T' = 499 | _ \<Rightarrow> False" by code_simp
  then obtain T' W' where r: "transition 9 call_tx [0xef, 0] = Some (Applied (Some (Code_failed (Invalid_opcode (Undefined 0xef)))) T' W')"
    "tr_gas T' = 499" by (auto split: option.splits tr_result.splits tr_error.splits vm_error.splits OpCode.splits)
  have p: "\<forall>(k, q) \<in> set (stateObjects (w_state ?W)). pointer ?W q" "map_of (stateObjects (w_state ?W)) (replicate 20 1) = Some 0"
    "Balance (object_at ?W 0) = 10000"
    by (auto simp: chain_world_def pointer_def object_at_def AddAmount_def NewStateObject_def)
  from failed_code_keeps_gas [OF call_tx_passes free_doug_reads(1) p(1) r(1), of "replicate 20 1"] r p(2,3) show ?thesis
    by (auto simp: GasValue_def NewTransactionMessage_def)
qed

theorem rejected_tx_witness:
  "\<exists>T' W'. transition 9 (NewTransactionMessage (Address [7]) 30 1000 11 []) [] = Some (Applied (Some Prepay_funds) T' W') \<and>
    Balance (object_at W' 0) = 10000 \<and> Nonce (object_at W' 0) = 0"
proof -
  let ?tx = "NewTransactionMessage (Address [7]) 30 1000 11 []"
  have "case transition 9 ?tx [] of Some (Applied (Some Prepay_funds) T' W') \<Rightarrow> True | _ \<Rightarrow> False" by code_simp
  then obtain T' W' where r: "transition 9 ?tx [] = Some (Applied (Some Prepay_funds) T' W')"
    by (auto split: option.splits tr_result.splits tr_error.splits)
  have "pointer (chain_world [] []) 0" "Balance (object_at (chain_world [] []) 0) = 10000" "Nonce (object_at (chain_world [] []) 0) = 0"
    by (simp_all add: chain_world_def pointer_def object_at_def AddAmount_def NewStateObject_def)
  with rejected_tx_changes_nothing [OF free_doug_reads(2) _ r, of 0] r show ?thesis by auto
qed

abbreviation create_tx :: Transaction where
  "create_tx \<equiv> NewContractCreationTx 30 1000 2 [0xef, 0]"

theorem failed_creation_burns_value_witness:
  "\<exists>T' W'. transition 40 create_tx [] = Some (Applied (Some (Init_failed (Invalid_opcode (Undefined 0xef)))) T' W') \<and>
    tr_gas T' = 489 \<and> map_option fst (account_view W' (replicate 20 1)) = Some 7970 \<and>
    map_option fst (account_view W' (Address [9])) = Some 2000"
proof -
  let ?W = "chain_world [] []"
  have "case transition 40 create_tx [] of
      Some (Applied (Some (Init_failed (Invalid_opcode (Undefined k)))) T' W') \<Rightarrow> k = 0xef \<and> tr_gas T' = 489 | _ \<Rightarrow> False" by code_simp
  then obtain T' W' where r: "transition 40 create_tx [] = Some (Applied (Some (Init_failed (Invalid_opcode (Undefined 0xef)))) T' W')"
    "tr_gas T' = 489" by (auto split: option.splits tr_result.splits tr_error.splits vm_error.splits OpCode.splits)
  have p: "\<forall>(k, q) \<in> set (stateObjects (w_state ?W)). pointer ?W q" "map_of (stateObjects (w_state ?W)) (replicate 20 1) = Some 0"
    "Balance (object_at ?W 0) = 10000" "Balance (object_at ?W 2) = 0"
    by (auto simp: chain_world_def pointer_def object_at_def AddAmount_def SetGasPool_def NewStateObject_def)
  have k: "map_of (stateObjects (w_state ?W)) (Address [9]) = Some 2" "Address (replicate 20 1) = replicate 20 1" by code_simp+
  have f: "affords chain_runtime free_doug 2 0 create_tx ?W"
    using k(2) p(3) by (simp add: affords_def Tx_Sender_chain p(2))
      (simp add: chain_world_def pointer_def object_at_def free_doug_def SetGasPool_def NewContractCreationTx_def GasValue_def
        GasTx_def GasData_def)
  have c: "CreatesContract create_tx" by (simp add: CreatesContract_def NewContractCreationTx_def)
  have "map_option fst (account_view W' (replicate 20 1)) = Some 7970" "map_option fst (account_view W' (Address [9])) = Some 2000"
    unfolding failed_creation_burns_value [OF f c free_doug_reads(1) p(1) r(1)] using p(2-4) k(1)
    by (simp_all add: GasValue_def NewContractCreationTx_def)
  with r show ?thesis by blast
qed

section \<open>A message that posts itself\<close>

definition loop_env :: Environment where
  "loop_env = NewEnv chain_runtime free_doug call_tx example_block"

definition loop_world :: "Message list \<Rightarrow> World" where
  "loop_world ms = (snd (State_Copy (paid_world 2 0 1 call_tx (chain_world post_code []))))\<lparr>Messages := ms\<rparr>"

definition loop_vm :: "Message list \<Rightarrow> VmMessage list \<Rightarrow> bytes list \<Rightarrow> Vm" where
  "loop_vm ms q cs = \<lparr>vm_world = loop_world ms, vm_queue = q, vm_callStack = cs\<rparr>"

definition post_msg :: VmMessage where
  "post_msg = \<lparr>pm_address = [7], pm_input = [], pm_view = None, pm_gas = 100, pm_price = 2, pm_value = 0\<rparr>"

text \<open>One execution of the message adds the message to the queue and an entry to the manifest, nothing else.\<close>

definition next_messages :: "Message list \<Rightarrow> Message list" where
  "next_messages ms = Messages (set_output (length ms) [] (snd (AddMessage (new_message loop_env post_msg 0 (loop_world ms)) (loop_world ms))))"

lemma post_msg_exec:
  fixes P :: "exec_result option \<Rightarrow> bool"
  shows
  "P (Exec chain_runtime loop_env 20 post_msg [7] 0 (loop_vm ms q [replicate 20 1])) =
   P (Some (Executed [] None 94 (Some 1) (loop_vm (next_messages ms) (q @ [post_msg]) [replicate 20 1])))"
  by (code_simp, simp?)

lemma post_code_run:
  fixes P :: "run_result option \<Rightarrow> bool"
  shows
  "P (RunClosure chain_runtime loop_env 20 ((NewClosure i 0 1 post_code 500 2)\<lparr>Args := []\<rparr>) (loop_vm ms [] [])) =
   P (Some (Finished [] None 494 (loop_vm ms [post_msg] [replicate 20 1])))"
  by (code_simp, simp?)

lemma post_msg_Exec:
  assumes "Exec chain_runtime loop_env n post_msg [7] 0 (loop_vm ms q [replicate 20 1]) = Some res"
  shows "res = Executed [] None 94 (Some 1) (loop_vm (next_messages ms) (q @ [post_msg]) [replicate 20 1])"
proof -
  let ?V = "loop_vm ms q [replicate 20 1]"
  have "Exec chain_runtime loop_env 20 post_msg [7] 0 ?V =
      Some (Executed [] None 94 (Some 1) (loop_vm (next_messages ms) (q @ [post_msg]) [replicate 20 1]))"
    using post_msg_exec [of "\<lambda>r. Exec chain_runtime loop_env 20 post_msg [7] 0 ?V = r"] by blast
  from fuel_mono(3) [OF max.cobounded2 this, of n] fuel_mono(3) [OF max.cobounded1 assms, of 20] show ?thesis by simp
qed

lemma post_code_Run:
  assumes "RunClosure chain_runtime loop_env n ((NewClosure i 0 1 post_code 500 2)\<lparr>Args := []\<rparr>) (loop_vm ms [] []) = Some res"
  shows "res = Finished [] None 494 (loop_vm ms [post_msg] [replicate 20 1])"
proof -
  let ?c = "(NewClosure i 0 1 post_code 500 2)\<lparr>Args := []\<rparr>"
  have "RunClosure chain_runtime loop_env 20 ?c (loop_vm ms [] []) = Some (Finished [] None 494 (loop_vm ms [post_msg] [replicate 20 1]))"
    using post_code_run [of "\<lambda>r. RunClosure chain_runtime loop_env 20 ?c (loop_vm ms [] []) = r"] by blast
  from fuel_mono(2) [OF max.cobounded2 this, of n] fuel_mono(2) [OF max.cobounded1 assms, of 20] show ?thesis by simp
qed

lemma posts_never_end:
  "i < length q \<Longrightarrow> list_all (\<lambda>m. m = post_msg) q \<Longrightarrow>
     exec_posts chain_runtime loop_env n i 0 (loop_vm ms q [replicate 20 1]) = None"
proof (induction n arbitrary: i q ms)
  case (Suc n)
  have q: "vm_queue (loop_vm ms q [replicate 20 1]) = q" "q ! i = post_msg" "pm_address post_msg = [7]"
    using Suc.prems by (simp_all add: loop_vm_def list_all_length post_msg_def)
  have later: "exec_posts chain_runtime loop_env n (Suc i) 0 (loop_vm (next_messages ms) (q @ [post_msg]) [replicate 20 1]) = None"
    using Suc.IH [of "Suc i" "q @ [post_msg]"] Suc.prems by simp
  show ?case
  proof (cases "Exec chain_runtime loop_env n post_msg [7] 0 (loop_vm ms q [replicate 20 1])")
    case None
    then show ?thesis using Suc.prems by (simp add: q del: Exec.simps)
  next
    case (Some res)
    then show ?thesis using Suc.prems later post_msg_Exec [OF Some] by (simp add: q del: Exec.simps)
  qed
qed simp

text \<open>C16: a transaction can keep the node busy for ever. The contract posts a message to itself; a posted message is not
  charged to the transaction, each execution queues the next one, and the loop over the queue never ends: no amount of fuel is enough.\<close>

theorem post_loops_forever:
  "transition n call_tx post_code = None"
proof -
  obtain snapshot W1 where cp: "State_Copy (paid_world 2 0 1 call_tx (chain_world post_code [])) = (snapshot, W1)" by fastforce
  let ?T = "paid_transition 2 0 1 call_tx example_block (chain_world post_code [])"
  have W1: "Messages W1 = []"
    using copy_objects_frame [OF State_Copy_eq(1) [OF cp]] by (simp add: paid_world_def chain_world_def)
  have T: "tr_tx ?T = call_tx" "tr_block ?T = example_block" "tr_gas ?T = 500" "tr_data ?T = []"
    by (simp_all add: paid_transition_def NewStateTransition_def NewTransactionMessage_def GasTx_def)
  have tx: "\<not> IsContractAddr (Recipient call_tx)" "tx_GasPrice call_tx = 2" "tx_Data call_tx = []"
    using call_tx_passes [of post_code "[]"] by (simp_all add: passes_def NewTransactionMessage_def)
  obtain i W2 where am: "AddMessage (tr_message 0 1 chain_runtime ?T W1) W1 = (i, W2)" by fastforce
  then have W2: "W2 = loop_world (Messages W2)" using cp W1 by (auto simp: loop_world_def AddMessage_def)
  have "Code (object_at W1 1) = post_code"
    using State_Copy_paid(2) [OF cp, of 1] paid_world_fields(3) [of "chain_world post_code []" 2 0 1 call_tx 1]
    by (simp add: pointer_def chain_world_def object_at_def)
  then have code: "Code (object_at W2 1) = post_code" "post_code \<noteq> []"
    using am by (auto simp: AddMessage_def object_at_def post_code_def)
  let ?V = "\<lparr>vm_world = W2, vm_queue = [], vm_callStack = []\<rparr>"
  have "?V = loop_vm (Messages W2) [] []" using W2 by (simp add: loop_vm_def)
  note V = post_code_Run [where ms = "Messages W2", folded this, unfolded loop_env_def] posts_never_end [of 0 "[post_msg]", unfolded loop_env_def]
  have "Eval chain_runtime free_doug n i post_code 1 0 ?T W2 = None"
    using V(2)
    by (auto simp: Eval_def T tx Let_def split: option.split dest!: V(1) simp del: RunClosure.simps exec_posts.simps One_nat_def)
  then show ?thesis
    using TransitionState_passes [OF call_tx_passes cp, of n example_block] am code tx
    by (simp add: run_receiver_def T del: One_nat_def)
qed

end
