(* ===== verification/Block_Examples.thy ===== *)
theory Block_Examples
  imports Block_Manager Chain_Examples
begin

text \<open>
  Blocks on concrete worlds: witnesses for the theorems of \<^theory_text>\<open>Block_Manager\<close>.
\<close>

section \<open>Transactions of one account\<close>

definition lone_block :: Block where
  "lone_block = example_block\<lparr>receipts := [], bl_Coinbase := replicate 20 1\<rparr>"

definition lone_world :: World where
  "lone_world =
     \<lparr>w_state = \<lparr>st_Trie = Trie_New Map.empty (VStr []), stateObjects = [(replicate 20 1, 0)]\<rparr>,
      objects = [SetGasPool 5000 (AddAmount 10000 (NewStateObject Map.empty (replicate 20 1)))],
      w_db = Map.empty, Messages = []\<rparr>"

text \<open>Permission to all transactions but those of price 3, which have a wrong nonce.\<close>

definition nonce_doug :: GenDoug where
  "nonce_doug = free_doug\<lparr>gd_ValidateTx := \<lambda>tx W. Some (if tx_GasPrice tx = 3 then Some NonceErr else None, W)\<rparr>"

abbreviation self_tx :: "int \<Rightarrow> Transaction" where
  "self_tx gasprice \<equiv> NewTransactionMessage (replicate 20 1) 30 1000 gasprice []"

abbreviation two_txs :: "(processed \<times> Block) option" where
  "two_txs \<equiv> ProcessTransactions chain_runtime nonce_doug 9 (replicate 20 1) lone_block lone_block [self_tx 3, self_tx 2] lone_world"

lemma two_txs_processed:
  "case two_txs of Some (Processed rcs handled used W', parent) \<Rightarrow> map CumulativeGasUsed rcs = [500] | _ \<Rightarrow> False"
  by code_simp

theorem block_receipts_witness:
  "\<exists>rcs handled W' parent'. two_txs = Some (Processed rcs handled 500 W', parent') \<and> map rc_Tx rcs = handled \<and>
    subseq handled [self_tx 3, self_tx 2] \<and> GasUsed parent' = 500"
proof -
  obtain rcs handled used W' parent' where r: "two_txs = Some (Processed rcs handled used W', parent')"
    "map CumulativeGasUsed rcs = [500]"
    using two_txs_processed by (auto split: option.splits processed.splits prod.splits)
  have "\<forall>tx \<in> set [self_tx 3, self_tx 2]. 0 \<le> tx_Gas tx \<and> int (length (tx_Data tx)) < 2 ^ 63"
    by (simp add: NewTransactionMessage_def)
  from block_receipts [OF r(1) this] r show ?thesis by auto
qed

section \<open>Rewards with an uncle\<close>

text \<open>A block with one uncle, whose parent is in the database.\<close>

definition uncle_header :: Header where
  "uncle_header = (example_header 0)\<lparr>bl_PrevHash := Block_Hash example_platform example_block, bl_Nonce := [5], bl_Coinbase := [7]\<rparr>"

definition uncle_block :: Block where
  "uncle_block = lone_block\<lparr>Uncles := [uncle_header], bl_Nonce := [6]\<rparr>"

definition reward_world :: World where
  "reward_world = (chain_world [] [])\<lparr>w_db := fork_db\<rparr>"

lemma uncle_rewarded:
  "\<exists>W'. AccumelateRewards example_platform example_chain uncle_block (lone_block\<lparr>Uncles := []\<rparr>) reward_world = Some (None, W')"
proof -
  let ?P = example_platform and ?W = reward_world
  have c: "Address [7] \<noteq> replicate 20 1" "Address (replicate 20 1) = replicate 20 1" by code_simp+
  have W: "map_of (stateObjects (w_state ?W)) (Address [7]) = Some 1"
    "map_of (stateObjects (w_state ?W)) (Address (replicate 20 1)) = Some 0" "w_db ?W = fork_db"
    using c by (simp_all add: reward_world_def chain_world_def)
  have up: "GetBlock ?P fork_db example_chain (bl_PrevHash uncle_header) = Some (Some (block_wire fork_db example_block))"
    using fork_db_parent by (simp add: GetBlock_def uncle_header_def)
  have n: "bl_Number (block_wire fork_db example_block) = bl_Number lone_block" "bl_Nonce uncle_header = [5]"
    "bl_Coinbase uncle_header = [7]" "bl_Coinbase uncle_block = replicate 20 1" "bl_Nonce uncle_block = [6]"
    "Uncles uncle_block = [uncle_header]"
    by (simp_all add: block_wire_def uncle_header_def uncle_block_def lone_block_def)
  have "reward_uncles ?P example_chain (lone_block\<lparr>Uncles := []\<rparr>) [bl_Nonce uncle_block] (Uncles uncle_block) BlockReward ?W =
      Some (Inr (BlockReward + inclusion_reward), change_object 1 (AddAmount uncle_reward) ?W)"
    using up n W GetOrNew_cached [of ?W "[7]" 1] by simp
  then show ?thesis
    using n W GetOrNew_cached [of "change_object 1 (AddAmount uncle_reward) ?W" "replicate 20 1" 0]
    by (simp add: AccumelateRewards_def)
qed

theorem rewards_issued_witness:
  "\<exists>W'. AccumelateRewards example_platform example_chain uncle_block (lone_block\<lparr>Uncles := []\<rparr>) reward_world = Some (None, W') \<and>
    coins W' = coins reward_world + 1500000000000000000 + 1406250000000000000 + 46875000000000000"
proof -
  obtain W' where r: "AccumelateRewards example_platform example_chain uncle_block (lone_block\<lparr>Uncles := []\<rparr>) reward_world = Some (None, W')"
    using uncle_rewarded by blast
  have "Address [7] \<noteq> replicate 20 1" "Address (replicate 20 1) = replicate 20 1" by code_simp+
  then have "\<forall>a\<in>insert (bl_Coinbase uncle_block) (bl_Coinbase ` set (Uncles uncle_block)).
      \<exists>r. map_of (stateObjects (w_state reward_world)) (Address a) = Some r \<and> pointer reward_world r"
    by (simp add: uncle_block_def lone_block_def uncle_header_def reward_world_def chain_world_def pointer_def)
  from rewards_issued [OF r this] r show ?thesis by (simp add: BlockReward_def uncle_block_def)
qed

end
