(* ===== verification/Message_Filter.thy ===== *)
theory Message_Filter
  imports Block_Manager
begin

text \<open>
  Searching for messages, \<^verbatim>\<open>monkchain/filter.go\<close>. A block is skipped if its bloom filter, which is read from the database,
  does not have the addresses that are searched for.
\<close>

section \<open>The filter\<close>

record data =
  dt_id :: bytes
  dt_address :: bytes

record Filter =
  earliest :: int
  latest :: int
  fl_skip :: int
  fl_from :: "bytes list"
  fl_to :: "bytes list"
  fl_max :: int
  altered :: "data list"


definition AddAltered :: "bytes \<Rightarrow> bytes \<Rightarrow> Filter \<Rightarrow> Filter" where
  "AddAltered ident address f = f\<lparr>altered := altered f @ [\<lparr>dt_id = ident, dt_address = address\<rparr>]\<rparr>"

definition AddFrom :: "bytes \<Rightarrow> Filter \<Rightarrow> Filter" where
  "AddFrom addr f = f\<lparr>fl_from := fl_from f @ [addr]\<rparr>"

definition AddTo :: "bytes \<Rightarrow> Filter \<Rightarrow> Filter" where
  "AddTo addr f = f\<lparr>fl_to := fl_to f @ [addr]\<rparr>"

text \<open>The dynamic values an \<open>altered\<close> entry is made from.\<close>

datatype altered_value = AString bytes | AObject "bytes option" "bytes option" | ASlice "altered_value list" | AOther

definition mapToData :: "bytes option \<Rightarrow> bytes option \<Rightarrow> data" where
  "mapToData ident at =
     \<lparr>dt_id = (case ident of Some s \<Rightarrow> Hex2Bytes s | None \<Rightarrow> []), dt_address = (case at of Some s \<Rightarrow> Hex2Bytes s | None \<Rightarrow> [])\<rparr>"

fun makeAltered :: "altered_value \<Rightarrow> data list option" where
  "makeAltered (AString s) = Some [\<lparr>dt_id = Hex2Bytes s, dt_address = []\<rparr>]"
| "makeAltered (AObject ident at) = Some [mapToData ident at]"
| "makeAltered (ASlice vs) = map_option concat (those (map makeAltered vs))"
| "makeAltered AOther = None"

section \<open>Messages\<close>

definition includes_addr :: "bytes list \<Rightarrow> bytes \<Rightarrow> bool" where
  "includes_addr addresses a = list_ex (\<lambda>addr. addr = a) addresses"

definition altered_match :: "data list \<Rightarrow> Message \<Rightarrow> bool" where
  "altered_match items m =
     (items = [] \<or> list_ex (\<lambda>item.
        \<not> (length (dt_id item) > 0 \<and> msg_To m \<noteq> dt_id item) \<and>
        \<not> (length (dt_address item) > 0 \<and> \<not> includes_addr (ChangedAddresses m) (dt_address item))) items)"

fun FilterMessages :: "Filter \<Rightarrow> Message list \<Rightarrow> Message list" where
  "FilterMessages f [] = []"
| "FilterMessages f (m # ms) =
     (if length (fl_to f) > 0 \<and> \<not> includes_addr (fl_to f) (msg_To m) then FilterMessages f ms
      else if length (fl_from f) > 0 \<and> \<not> includes_addr (fl_from f) (msg_From m) then FilterMessages f ms
      else if \<not> altered_match (altered f) m then FilterMessages f ms
      else m # FilterMessages f ms)"

section \<open>Blocks\<close>

fun search_any :: "bytes list \<Rightarrow> BloomFilter \<Rightarrow> bool option" where
  "search_any [] bloom = Some False"
| "search_any (a # as) bloom =
     (case Bloom_Search a bloom of None \<Rightarrow> None | Some True \<Rightarrow> Some True | Some False \<Rightarrow> search_any as bloom)"

definition bloom_key :: "bytes \<Rightarrow> bytes" where
  "bloom_key hash = [98, 108, 111, 111, 109] @ hash"

text \<open>A missing entry is an error of the database on disk, and the error a panic.\<close>

definition bloomFilter :: "Platform \<Rightarrow> database \<Rightarrow> Filter \<Rightarrow> Block \<Rightarrow> bool option" where
  "bloomFilter P d f b = do {
     bin \<leftarrow> d (bloom_key (Block_Hash P b));
     fromIncluded \<leftarrow> (if length (fl_from f) > 0 then search_any (fl_from f) (NewBloomFilter (Some bin)) else Some True);
     toIncluded \<leftarrow> (if length (fl_to f) > 0 then search_any (fl_to f) (NewBloomFilter (Some bin)) else Some True);
     Some (fromIncluded \<and> toIncluded) }"





section \<open>What the filter finds\<close>

definition wanted :: "Filter \<Rightarrow> Message \<Rightarrow> bool" where
  "wanted f m \<longleftrightarrow>
     (fl_to f = [] \<or> msg_To m \<in> set (fl_to f)) \<and> (fl_from f = [] \<or> msg_From m \<in> set (fl_from f)) \<and>
     altered_match (altered f) m"

lemma FilterMessages_wanted: "FilterMessages f ms = filter (wanted f) ms"
  by (induction ms) (auto simp: wanted_def includes_addr_def list_ex_iff)

lemma search_any_found:
  assumes "length bin = 256" "a \<in> set as" "Bloom_Search a bin = Some True"
  shows "search_any as bin = Some True"
  using assms(2)
proof (induction as)
  case (Cons b as)
  have "Bloom_Search b bin = Some (8 \<le> length b \<and> (\<forall>i\<in>set (last8 b). bin ! unat i \<noteq> 0))"
    using assms(1) by (auto simp: Bloom_Search_def search_bins_True)
  then show ?case using Cons assms(3) by (cases "b = a") (auto split: option.splits bool.splits)
qed simp

text \<open>The bloom filter never hides a message. If the filter stored for a block were the one of its messages, a block with
  a message that passes the filter, with addresses of at least eight bytes, is searched, and the search returns exactly the
  messages asked for, in their order.\<close>

lemma filter_finds:
  assumes "createBloomFilter W = Some bin" and "d (bloom_key (Block_Hash P b)) = Some bin"
    and "m \<in> set (Messages W)" and "wanted f m" and "8 \<le> length (msg_To m)" and "8 \<le> length (msg_From m)"
  shows "bloomFilter P d f b = Some True \<and> m \<in> set (FilterMessages f (Messages W)) \<and>
    FilterMessages f (Messages W) = filter (wanted f) (Messages W)"
proof -
  obtain bin' where b: "createBloomFilter W = Some bin'" "length bin' = 256"
    "\<And>a. 8 \<le> length a \<and> a \<in> msg_To ` set (Messages W) \<union> msg_From ` set (Messages W) \<Longrightarrow> Bloom_Search a bin' = Some True"
    using bloom_complete [of W] by blast
  then have s: "length bin = 256" "Bloom_Search (msg_To m) bin = Some True" "Bloom_Search (msg_From m) bin = Some True"
    using assms by auto
  have "search_any (fl_from f) bin = Some True" if "fl_from f \<noteq> []"
    using search_any_found [OF s(1) _ s(3)] assms(4) that by (auto simp: wanted_def)
  moreover have "search_any (fl_to f) bin = Some True" if "fl_to f \<noteq> []"
    using search_any_found [OF s(1) _ s(2)] assms(4) that by (auto simp: wanted_def)
  ultimately have "bloomFilter P d f b = Some True" using assms(2) by (simp add: bloomFilter_def NewBloomFilter_def)
  then show ?thesis using assms(3,4) by (simp add: FilterMessages_wanted)
qed

section \<open>No filter is stored\<close>




section \<open>Properties\<close>



end
