(* ===== verification/Wire.thy ===== *)
theory Wire
  imports Transaction
begin

text \<open>
  The framing of network messages, \<^verbatim>\<open>monkwire/messaging.go\<close> and the reader of \<^verbatim>\<open>monkwire/messages2.go\<close>: a magic token,
  the length of the payload, and the payload, an RLP list of the message type and the data. A connection is the list of
  what its \<open>Read\<close> returns, one entry for each call; an empty entry is a read that timed out.
\<close>

section \<open>Messages\<close>

definition MagicToken :: bytes where
  "MagicToken = [34, 64, 8, 145]"

record Msg =
  wm_Type :: byte
  wm_Data :: gval

definition msgTypeToString :: "byte \<Rightarrow> string option" where
  "msgTypeToString = map_of
     [(0x00, ''Handshake''), (0x01, ''Disconnect''), (0x02, ''Ping''), (0x03, ''Pong''), (0x04, ''Get peers''),
      (0x10, ''Status''), (0x05, ''Peers''), (0x12, ''Transactions''), (0x16, ''Blocks''), (0x11, ''Get Txs''),
      (0x13, ''Get block hashes''), (0x14, ''Block hashes''), (0x15, ''Get blocks''), (0x20, ''Get state''), (0x21, ''State'')]"

text \<open>A missing entry of a Go map is the empty string.\<close>

definition MsgType_String :: "byte \<Rightarrow> string" where
  "MsgType_String mt = (case msgTypeToString mt of Some s \<Rightarrow> s | None \<Rightarrow> [])"

text \<open>\<open>NumberToBytes\<close> on a number of a type of \<open>k\<close> bytes; more bits than the type has are a panic.\<close>

definition NumberToBytes :: "nat \<Rightarrow> nat \<Rightarrow> nat \<Rightarrow> bytes option" where
  "NumberToBytes k num bits =
     (let buf = LeftPadBytes (be_bytes (num mod 256 ^ k)) k
      in if length buf < bits div 8 then None else Some (drop (length buf - bits div 8) buf))"

section \<open>Writing\<close>

definition msg_payload :: "Msg \<Rightarrow> bytes" where
  "msg_payload m = Value_Encode (VList (VByte (wm_Type m) # Value_Slice (wm_Data m)))"

definition WriteMessage :: "Msg \<Rightarrow> bytes option" where
  "WriteMessage m = do {
     payloadLength \<leftarrow> NumberToBytes 4 (length (msg_payload m)) 32;
     Some (MagicToken @ payloadLength @ msg_payload m) }"

section \<open>Reading\<close>

definition decode_msg :: "bytes \<Rightarrow> Msg option" where
  "decode_msg m = do {
     decoder \<leftarrow> NewValueFromBytes m;
     d \<leftarrow> Value_SliceFrom decoder 1;
     Some \<lparr>wm_Type = of_nat (Value_Uint (Value_Get decoder 0)), wm_Data = d\<rparr> }"

text \<open>The error of a panic that is recovered and the error returned for a wrong token are one outcome. \<open>Read_blocked\<close> is a
  reader that waits for more than the connection delivers; \<open>Read_ok\<close> carries the reads that were not made.\<close>

datatype read_result = Read_ok "Msg list" "bytes list" | Read_error | Read_blocked

text \<open>The token and the length. With fewer than eight bytes one of the slice expressions fails.\<close>

definition read_header :: "nat \<Rightarrow> bytes \<Rightarrow> (nat \<times> bytes) option" where
  "read_header msgLength buff =
     (if msgLength = 0 then
        if length buff < 8 \<or> take 4 buff \<noteq> MagicToken then None
        else map_option (\<lambda>l. (l, drop 8 buff)) (BytesToNumber (take 4 (drop 4 buff)))
      else Some (msgLength, buff))"

definition decode_msgs :: "bytes list \<Rightarrow> bytes list \<Rightarrow> read_result" where
  "decode_msgs messages unread =
     (case those (map decode_msg messages) of None \<Rightarrow> Read_error | Some msgs \<Rightarrow> Read_ok msgs unread)"

fun read_loop :: "bytes list \<Rightarrow> bytes \<Rightarrow> bytes list \<Rightarrow> nat \<Rightarrow> read_result" where
  "read_loop [] buff messages msgLength = Read_blocked"
| "read_loop (b # bs) buff messages msgLength =
     (if b = [] \<and> buff = [] then read_loop bs buff messages msgLength
      else
       (case read_header msgLength (buff @ b) of
          None \<Rightarrow> Read_error
        | Some (msgLength, buff) \<Rightarrow>
            if msgLength \<le> length buff then
              let messages = messages @ [take msgLength buff]; buff = drop msgLength buff
              in if buff = [] then decode_msgs messages bs else read_loop bs buff messages 0
            else read_loop bs buff messages msgLength))"

definition ReadMessages :: "bytes list \<Rightarrow> read_result" where
  "ReadMessages conn = read_loop conn [] [] 0"

text \<open>The reader of a buffer. It cuts off the rest before it compares the length, so a message that is not complete is a
  panic and not the error it has for that.\<close>

datatype message_result = No_message | Invalid_message | Message Msg bytes | Message_panic

definition ReadMessage :: "bytes \<Rightarrow> message_result" where
  "ReadMessage data =
     (if length data = 0 then No_message
      else if length data \<le> 8 \<or> MagicToken \<noteq> take 4 data then Invalid_message
      else
       (case BytesToNumber (take 4 (drop 4 data)) of
          None \<Rightarrow> Message_panic
        | Some l \<Rightarrow>
            if length data < 8 + l then Message_panic
            else (case decode_msg (take l (drop 8 data)) of
               None \<Rightarrow> Message_panic
             | Some m \<Rightarrow> Message m (drop (8 + l) data))))"

section \<open>Frames\<close>

definition msg_ok :: "Msg \<Rightarrow> bool" where
  "msg_ok m \<longleftrightarrow> length (msg_payload m) < 2 ^ 32"

text \<open>What the format keeps of a message.\<close>

definition wire_msg :: "Msg \<Rightarrow> Msg" where
  "wire_msg m = \<lparr>wm_Type = wm_Type m, wm_Data = VList (map canon (Value_Slice (wm_Data m)))\<rparr>"

definition frame_bytes :: "Msg \<Rightarrow> bytes" where
  "frame_bytes m = MagicToken @ LeftPadBytes (be_bytes (length (msg_payload m))) 4 @ msg_payload m"

lemma length_frame_length: "msg_ok m \<Longrightarrow> length (LeftPadBytes (be_bytes (length (msg_payload m))) 4) = 4"
  using length_be_bytes_le_iff [of "length (msg_payload m)" 4] by (simp add: msg_ok_def)

lemma WriteMessage_frame: "msg_ok m \<Longrightarrow> WriteMessage m = Some (frame_bytes m)"
  using length_frame_length [of m] by (simp add: WriteMessage_def NumberToBytes_def frame_bytes_def msg_ok_def Let_def)

lemma payload_not_Nil: "msg_payload m \<noteq> []"
  by (simp add: msg_payload_def Value_Encode_def Encode_def Encode_with_not_Nil)

lemma decode_payload: "msg_ok m \<Longrightarrow> decode_msg (msg_payload m) = Some (wire_msg m)"
proof -
  assume "msg_ok m"
  then have "NewValueFromBytes (msg_payload m) = Some (canon (VList (VByte (wm_Type m) # Value_Slice (wm_Data m))))"
    unfolding msg_payload_def by (intro NewValueFromBytes_Encode) (simp add: msg_ok_def msg_payload_def)
  then show ?thesis
    by (simp add: decode_msg_def Value_SliceFrom_def Value_Slice_def Value_Get_def canon_byte wire_msg_def del: canon_with.simps(4))
qed

text \<open>A header is read from the front of any buffer that has eight bytes of a frame.\<close>

lemma read_header_frame:
  assumes "msg_ok m" "8 \<le> length buff" "buff @ rest = frame_bytes m @ next_bytes"
  shows "read_header 0 buff = Some (length (msg_payload m), drop 8 buff)" "drop 8 buff @ rest = msg_payload m @ next_bytes"
proof -
  let ?l = "LeftPadBytes (be_bytes (length (msg_payload m))) 4"
  have l: "length ?l = 4" "length MagicToken = 4" using length_frame_length [OF assms(1)] by (simp_all add: MagicToken_def)
  obtain d where d: "drop 8 buff = d" by simp
  have "buff = take 8 (buff @ rest) @ d" using assms(2) d by (metis append_take_drop_id take_append diff_is_0_eq' take_0 append_Nil2)
  also have "take 8 (buff @ rest) = MagicToken @ ?l" using assms(3) l by (simp add: frame_bytes_def)
  finally have b: "buff = MagicToken @ ?l @ d" by simp
  have "BytesToNumber ?l = Some (length (msg_payload m))"
    using l(1) by (simp add: BytesToNumber_def binary_Read_def be_val_zeros_append)
  then show "read_header 0 buff = Some (length (msg_payload m), drop 8 buff)"
    unfolding d using l by (simp add: read_header_def b del: length_LeftPadBytes)
  show "drop 8 buff @ rest = msg_payload m @ next_bytes" unfolding d using assms(3) b by (simp add: frame_bytes_def)
qed

lemma read_loop_body:
  assumes "buff @ concat cs = payload" "length buff < length payload" "cs \<noteq> []" "last cs \<noteq> []"
  shows "read_loop (cs @ unread) buff messages (length payload) = decode_msgs (messages @ [payload]) unread"
  using assms
proof (induction cs arbitrary: buff)
  case (Cons b cs)
  have len: "read_header (length payload) (buff @ b) = Some (length payload, buff @ b)"
    using Cons.prems(2) by (auto simp: read_header_def)
  have cs: "cs = [] \<or> cs \<noteq> [] \<and> concat cs \<noteq> []" using Cons.prems(4) last_in_set [of cs] by fastforce
  have total: "length payload = length (buff @ b) + length (concat cs)" using Cons.prems(1) by auto
  show ?case
  proof (cases "cs = []")
    case True
    then show ?thesis using Cons.prems len by (auto simp: Let_def)
  next
    case False
    then have "length (buff @ b) < length payload" using total cs by simp
    then show ?thesis using Cons.IH [of "buff @ b"] Cons.prems False len by auto
  qed
qed simp

lemma read_loop_first:
  assumes "msg_ok m" "concat (c # cs) = frame_bytes m" "8 \<le> length c" "last (c # cs) \<noteq> []"
  shows "read_loop ((c # cs) @ unread) [] messages 0 = decode_msgs (messages @ [msg_payload m]) unread"
proof -
  note h = read_header_frame [of m c "concat cs" "[]", OF assms(1,3)]
  have c: "read_header 0 c = Some (length (msg_payload m), drop 8 c)" "drop 8 c @ concat cs = msg_payload m"
    using h assms(2) by simp_all
  have "c \<noteq> []" using assms(3) by auto
  show ?thesis
  proof (cases "cs = []")
    case True
    then show ?thesis using c \<open>c \<noteq> []\<close> by (simp add: Let_def)
  next
    case False
    then have "concat cs \<noteq> []" using assms(4) last_in_set [of cs] by fastforce
    then have "length (drop 8 c) < length (msg_payload m)" using arg_cong [OF c(2), of length] by (cases "concat cs") simp_all
    then show ?thesis
      using read_loop_body [OF c(2) _ False] assms(4) False c(1) \<open>c \<noteq> []\<close> by simp
  qed
qed

lemma read_loop_batch:
  assumes "\<And>m. m \<in> set (m0 # ms) \<Longrightarrow> msg_ok m" "buff @ b = concat (map frame_bytes (m0 # ms))"
  shows "read_loop (b # replicate (length ms) [] @ unread) buff messages 0 =
    decode_msgs (messages @ map msg_payload (m0 # ms)) unread"
  using assms
proof (induction ms arbitrary: m0 buff b messages)
  case Nil
  then have ok: "msg_ok m0" "buff @ b = frame_bytes m0" by simp_all
  have n: "8 \<le> length (frame_bytes m0)" using length_frame_length [OF ok(1)] by (simp add: frame_bytes_def MagicToken_def)
  then have "frame_bytes m0 \<noteq> []" by auto
  then have "\<not> (b = [] \<and> buff = [])" using ok(2) by auto
  then show ?case using read_header_frame [of m0 "frame_bytes m0" "[]" "[]"] ok n by (auto simp: Let_def)
next
  case (Cons m1 ms)
  let ?rest = "concat (map frame_bytes (m1 # ms))"
  have ok: "msg_ok m0" "buff @ b = frame_bytes m0 @ ?rest" "msg_ok m1" using Cons.prems by simp_all
  have n: "8 \<le> length (frame_bytes m0)" "8 \<le> length (frame_bytes m1)"
    using length_frame_length ok by (simp_all add: frame_bytes_def MagicToken_def)
  then have ne: "frame_bytes m0 \<noteq> []" "?rest \<noteq> []" by auto
  have h: "read_header 0 (buff @ b) = Some (length (msg_payload m0), msg_payload m0 @ ?rest)"
    using read_header_frame [of m0 "buff @ b" "[]" ?rest] ok n by simp
  have "\<not> (b = [] \<and> buff = [])" using ok(2) ne by auto
  then have "read_loop (b # replicate (length (m1 # ms)) [] @ unread) buff messages 0 =
      read_loop ([] # replicate (length ms) [] @ unread) ?rest (messages @ [msg_payload m0]) 0"
    using h ne by (subst read_loop.simps) (auto simp: Let_def simp del: read_loop.simps)
  then show ?case using Cons.IH [of m1 ?rest "[]" "messages @ [msg_payload m0]"] Cons.prems(1) by (simp del: read_loop.simps)
qed

lemma decode_msgs_payloads:
  "(\<And>m. m \<in> set ms \<Longrightarrow> msg_ok m) \<Longrightarrow> decode_msgs (map msg_payload ms) unread = Read_ok (map wire_msg ms) unread"
proof -
  assume "\<And>m. m \<in> set ms \<Longrightarrow> msg_ok m"
  then have "those (map decode_msg (map msg_payload ms)) = Some (map wire_msg ms)"
    by (induction ms) (simp_all add: decode_payload)
  then show ?thesis by (simp add: decode_msgs_def del: map_map)
qed

section \<open>Properties\<close>

text \<open>C34: Messages survive the network. A message that arrives in any number of pieces, the first of at least eight bytes,
  is read as it was written, and nothing is taken from the connection after it; messages that arrive together in one piece
  are all read, one by each of the following reads, even if these deliver nothing.\<close>

theorem wire_roundtrip:
  assumes "\<forall>m\<in>set (m # ms). msg_ok m"
    and "Some (concat (c # cs)) = WriteMessage m" "8 \<le> length c" "last (c # cs) \<noteq> []"
    and "Some fs = those (map WriteMessage (m # ms))"
  shows "ReadMessages ((c # cs) @ unread) = Read_ok [wire_msg m] unread \<and>
    ReadMessages (concat fs # replicate (length ms) [] @ unread) = Read_ok (map wire_msg (m # ms)) unread"
proof
  have ok: "x \<in> set (m # ms) \<Longrightarrow> msg_ok x" for x using assms(1) by blast
  have "msg_ok m" "concat (c # cs) = frame_bytes m" using assms(1,2) WriteMessage_frame [of m] by simp_all
  from read_loop_first [OF this assms(3,4)] decode_msgs_payloads [of "[m]"] \<open>msg_ok m\<close>
  show "ReadMessages ((c # cs) @ unread) = Read_ok [wire_msg m] unread" by (simp add: ReadMessages_def)
  have "those (map WriteMessage ns) = Some (map frame_bytes ns)" if "\<forall>m\<in>set ns. msg_ok m" for ns
    using that by (induction ns) (simp_all add: WriteMessage_frame)
  from this [OF assms(1)] have "fs = map frame_bytes (m # ms)" using assms(5) by simp
  then show "ReadMessages (concat fs # replicate (length ms) [] @ unread) = Read_ok (map wire_msg (m # ms)) unread"
    using read_loop_batch [of m ms "[]" "concat fs" unread "[]", OF ok] decode_msgs_payloads [of "m # ms" unread, OF ok]
    by (simp add: ReadMessages_def del: map_map read_loop.simps)
qed

text \<open>A ping and a request for block hashes.\<close>

definition ping_msg :: Msg where
  "ping_msg = \<lparr>wm_Type = 2, wm_Data = VList []\<rparr>"

definition hashes_msg :: Msg where
  "hashes_msg = \<lparr>wm_Type = 0x13, wm_Data = VList [VStr [1, 2, 3], VUint 256]\<rparr>"

theorem wire_roundtrip_witness:
  "ReadMessages [[34, 64, 8, 145, 0, 0, 0, 9, 200], [0x13, 131, 1, 2], [3, 130, 1, 0], []] =
     Read_ok [\<lparr>wm_Type = 0x13, wm_Data = VList [VBytes [1, 2, 3], VBytes [1, 0]]\<rparr>] [[]] \<and>
   ReadMessages [[34, 64, 8, 145, 0, 0, 0, 9, 200, 0x13, 131, 1, 2, 3, 130, 1, 0, 34, 64, 8, 145, 0, 0, 0, 2, 193, 2], []] =
     Read_ok [\<lparr>wm_Type = 0x13, wm_Data = VList [VBytes [1, 2, 3], VBytes [1, 0]]\<rparr>, \<lparr>wm_Type = 2, wm_Data = VList []\<rparr>] []"
proof -
  let ?c = "[34, 64, 8, 145, 0, 0, 0, 9, 200]" and ?cs = "[[0x13, 131, 1, 2], [3, 130, 1, 0]]"
  have "length (msg_payload hashes_msg) < 100" "length (msg_payload ping_msg) < 100" by code_simp+
  then have ok: "\<forall>m \<in> set [hashes_msg, ping_msg]. msg_ok m" by (simp add: msg_ok_def)
  have "frame_bytes hashes_msg = [34, 64, 8, 145, 0, 0, 0, 9, 200, 0x13, 131, 1, 2, 3, 130, 1, 0]"
    "frame_bytes ping_msg = [34, 64, 8, 145, 0, 0, 0, 2, 193, 2]" by code_simp+
  then have w: "WriteMessage hashes_msg = Some [34, 64, 8, 145, 0, 0, 0, 9, 200, 0x13, 131, 1, 2, 3, 130, 1, 0]"
    "WriteMessage ping_msg = Some [34, 64, 8, 145, 0, 0, 0, 2, 193, 2]" using ok WriteMessage_frame by simp_all
  have m: "wire_msg hashes_msg = \<lparr>wm_Type = 0x13, wm_Data = VList [VBytes [1, 2, 3], VBytes [1, 0]]\<rparr>"
    "wire_msg ping_msg = \<lparr>wm_Type = 2, wm_Data = VList []\<rparr>" by code_simp+
  show ?thesis
    using wire_roundtrip [of hashes_msg "[ping_msg]" ?c ?cs _ "[[]]", OF ok] wire_roundtrip [of hashes_msg "[ping_msg]" ?c ?cs _ "[]", OF ok]
    by (simp add: w m del: read_loop.simps)
qed

end
