(* ===== verification/Mnemonic.thy ===== *)
theory Mnemonic
  imports Mnemonic_Words
begin

text \<open>
  Keys as words, \<^verbatim>\<open>monkcrypto/mnemonic.go\<close>: eight hexadecimal digits are three words of the list. A panic is \<open>None\<close>.
\<close>

section \<open>Numbers and text\<close>

text \<open>Division and remainder of Go, which round towards zero.\<close>

definition int_quot :: "int \<Rightarrow> int \<Rightarrow> int" where
  "int_quot x y = sgn x * sgn y * (\<bar>x\<bar> div \<bar>y\<bar>)"

definition int_rem :: "int \<Rightarrow> int \<Rightarrow> int" where
  "int_rem x y = sgn x * (\<bar>x\<bar> mod \<bar>y\<bar>)"

definition hex_value :: "char \<Rightarrow> nat option" where
  "hex_value c =
     (let k = of_char c :: nat in
      if 48 \<le> k \<and> k \<le> 57 then Some (k - 48)
      else if 97 \<le> k \<and> k \<le> 102 then Some (k - 87)
      else if 65 \<le> k \<and> k \<le> 70 then Some (k - 55)
      else None)"

fun hex_number :: "nat \<Rightarrow> string \<Rightarrow> nat option" where
  "hex_number n [] = Some n"
| "hex_number n (c # cs) = (case hex_value c of None \<Rightarrow> None | Some d \<Rightarrow> hex_number (16 * n + d) cs)"

text \<open>\<open>strconv.ParseInt\<close> to base 16 on up to eight characters; the value that comes with an error is 0.\<close>

definition ParseInt :: "string \<Rightarrow> int" where
  "ParseInt s =
     (let (sign, ds) =
        (case s of [] \<Rightarrow> (1, []) | c # cs \<Rightarrow> if c = CHR ''-'' then (- 1, cs) else if c = CHR ''+'' then (1, cs) else (1, s))
      in if ds = [] then 0 else (case hex_number 0 ds of None \<Rightarrow> 0 | Some n \<Rightarrow> sign * int n))"

definition hex_char :: "nat \<Rightarrow> char" where
  "hex_char d = ''0123456789abcdef'' ! d"

fun hex_string :: "nat \<Rightarrow> string" where
  "hex_string n = (if n < 16 then [hex_char n] else hex_string (n div 16) @ [hex_char (n mod 16)])"

declare hex_string.simps [simp del]

text \<open>The format \<^verbatim>\<open>%08x\<close>.\<close>

definition Sprintf_08x :: "int \<Rightarrow> string" where
  "Sprintf_08x x =
     (let s = hex_string (nat \<bar>x\<bar>)
      in if x < 0 then CHR ''-'' # replicate (7 - length s) CHR ''0'' @ s else replicate (8 - length s) CHR ''0'' @ s)"

section \<open>Encoding and decoding\<close>

fun index_from :: "int \<Rightarrow> string list \<Rightarrow> string \<Rightarrow> int" where
  "index_from p [] val = - 1"
| "index_from p (v # vs) val = (if v = val then p else index_from (p + 1) vs val)"

definition IndexOf :: "string list \<Rightarrow> string \<Rightarrow> int" where
  "IndexOf sl val = index_from 0 sl val"

definition word_at :: "int \<Rightarrow> string option" where
  "word_at w = (if 0 \<le> w \<and> w < int (length MnemonicWords) then Some (MnemonicWords ! nat w) else None)"

definition encode_group :: "string \<Rightarrow> string list option" where
  "encode_group x =
     (let n = int (length MnemonicWords); bit = ParseInt x;
          w1 = int_rem bit n;
          w2 = int_rem (int_quot bit n + w1) n;
          w3 = int_rem (int_quot (int_quot bit n) n + w2) n
      in those [word_at w1, word_at w2, word_at w3])"

text \<open>The loop steps by an eighth of the length of the message, whatever that is.\<close>

function encode_from :: "string \<Rightarrow> nat \<Rightarrow> string list option" where
  "encode_from message i =
     (if i < length message then
        if i + 8 \<le> length message then
          (case encode_group (take 8 (drop i message)) of
             None \<Rightarrow> None
           | Some ws \<Rightarrow> map_option ((@) ws) (encode_from message (i + length message div 8)))
        else None
      else Some [])"
  by pat_completeness auto

termination
  by (relation "measure (\<lambda>(message, i). length message - i)") auto

declare encode_from.simps [simp del]

definition MnemonicEncode :: "string \<Rightarrow> string list option" where
  "MnemonicEncode message = encode_from message 0"

definition decode_group :: "string \<Rightarrow> string \<Rightarrow> string \<Rightarrow> string" where
  "decode_group word1 word2 word3 =
     (let n = int (length MnemonicWords);
          w1 = IndexOf MnemonicWords word1; w2 = IndexOf MnemonicWords word2; w3 = IndexOf MnemonicWords word3;
          y = int_rem (w2 - w1) n; z = int_rem (w3 - w2) n;
          z = (if z < 0 then z + n else z); y = (if y < 0 then y + n else y)
      in Sprintf_08x (w1 + n * y + n * n * z))"

fun MnemonicDecode :: "string list \<Rightarrow> string option" where
  "MnemonicDecode (word1 # word2 # word3 # ws) = map_option ((@) (decode_group word1 word2 word3)) (MnemonicDecode ws)"
| "MnemonicDecode [] = Some []"
| "MnemonicDecode ws = None"

section \<open>Hexadecimal digits\<close>

fun hex_fixed :: "nat \<Rightarrow> nat \<Rightarrow> string" where
  "hex_fixed 0 n = []"
| "hex_fixed (Suc k) n = hex_fixed k (n div 16) @ [hex_char (n mod 16)]"

lemma hex_fixed_0: "hex_fixed k 0 = replicate k CHR ''0''"
  by (induction k) (simp_all add: hex_char_def replicate_append_same)

lemma hex_string_fixed:
  "0 < k \<Longrightarrow> n < 16 ^ k \<Longrightarrow> length (hex_string n) \<le> k \<and> replicate (k - length (hex_string n)) CHR ''0'' @ hex_string n = hex_fixed k n"
proof (induction n arbitrary: k rule: hex_string.induct)
  case (1 n)
  obtain j where k: "k = Suc j" using "1.prems"(1) by (cases k) auto
  show ?case
  proof (cases "n < 16")
    case True
    then show ?thesis by (simp add: k hex_string.simps [of n] hex_fixed_0 replicate_append_same)
  next
    case False
    then have "n div 16 < 16 ^ j" "0 < j" using "1.prems"(2) k by (auto intro!: Nat.gr0I simp: less_mult_imp_div_less mult.commute)
    with "1.IH" [OF False, of j] False show ?thesis by (simp add: k hex_string.simps [of n])
  qed
qed

definition is_hex :: "string \<Rightarrow> bool" where
  "is_hex s \<longleftrightarrow> set s \<subseteq> set ''0123456789abcdef''"

lemma hex_value_char:
  assumes "c \<in> set ''0123456789abcdef''"
  obtains d where "hex_value c = Some d" "d < 16" "hex_char d = c" "c \<noteq> CHR ''-''" "c \<noteq> CHR ''+''"
proof -
  have "list_all (\<lambda>c. case hex_value c of None \<Rightarrow> False | Some d \<Rightarrow> d < 16 \<and> hex_char d = c \<and> c \<noteq> CHR ''-'' \<and> c \<noteq> CHR ''+'')
      ''0123456789abcdef''" by code_simp
  then show thesis using assms that unfolding list_all_iff by (fastforce split: option.splits)
qed

lemma hex_number_fixed:
  assumes "is_hex s"
  shows "\<exists>v. hex_number m s = Some (m * 16 ^ length s + v) \<and> v < 16 ^ length s \<and> hex_fixed (length s) v = s"
  using assms
proof (induction s rule: rev_induct)
  case (snoc c s)
  have append: "hex_number k (s @ t) = Option.bind (hex_number k s) (\<lambda>j. hex_number j t)" for k t
    by (induction s arbitrary: k) (simp_all split: option.splits)
  obtain d where d: "hex_value c = Some d" "d < 16" "hex_char d = c"
    using snoc.prems hex_value_char [of c] by (auto simp: is_hex_def)
  obtain v where v: "hex_number m s = Some (m * 16 ^ length s + v)" "v < 16 ^ length s" "hex_fixed (length s) v = s"
    using snoc by (auto simp: is_hex_def)
  show ?case
    by (rule exI [of _ "16 * v + d"]) (use d v in \<open>simp add: append\<close>)
qed simp

lemma ParseInt_hex:
  assumes "is_hex s" "length s = 8"
  shows "0 \<le> ParseInt s" "ParseInt s < 2 ^ 32" "Sprintf_08x (ParseInt s) = s"
proof -
  obtain v where v: "hex_number 0 s = Some v" "v < 16 ^ 8" "hex_fixed 8 v = s"
    using hex_number_fixed [OF assms(1), of 0] assms(2) by auto
  obtain c cs where s: "s = c # cs" using assms(2) by (cases s) auto
  then have "c \<in> set ''0123456789abcdef''" using assms(1) by (simp add: is_hex_def)
  then have "c \<noteq> CHR ''-''" "c \<noteq> CHR ''+''" using hex_value_char [of c] by metis+
  then have P: "ParseInt s = int v" using v(1) s by (simp add: ParseInt_def)
  show "0 \<le> ParseInt s" "ParseInt s < 2 ^ 32" using P v(2) by simp_all
  show "Sprintf_08x (ParseInt s) = s"
    using P hex_string_fixed [of 8 v] v(2,3) by (simp add: Sprintf_08x_def Let_def)
qed

section \<open>Three words\<close>

lemma int_rem_fix: "0 < n \<Longrightarrow> (let y = int_rem a n in if y < 0 then y + n else y) = a mod n"
  by (auto simp: int_rem_def Let_def sgn_if abs_if zmod_zminus1_eq_if dest: pos_mod_bound [of n a] pos_mod_sign [of n a])

lemma int_rem_nonneg: "0 \<le> k \<Longrightarrow> 0 < n \<Longrightarrow> int_rem k n = k mod n" "0 \<le> k \<Longrightarrow> 0 < n \<Longrightarrow> int_quot k n = k div n"
  by (simp_all add: int_rem_def int_quot_def sgn_if)

lemma triple_value:
  fixes b n :: int
  assumes "0 \<le> b" "b < n * n * n" "0 < n"
  defines "w1 \<equiv> b mod n" and "w2 \<equiv> (b div n + b mod n) mod n"
  defines "w3 \<equiv> (b div n div n + w2) mod n"
  shows "w1 + n * ((w2 - w1) mod n) + n * n * ((w3 - w2) mod n) = b"
proof -
  define q where "q = b div n"
  have "(w2 - w1) mod n = q mod n" by (simp add: w1_def w2_def q_def mod_simps)
  moreover have "(w3 - w2) mod n = (q div n) mod n" by (simp add: w3_def q_def mod_simps)
  moreover have "0 \<le> q div n" "q div n < n"
  proof -
    have z: "q div n = b div (n * n)" using assms(3) by (simp add: q_def zdiv_zmult2_eq)
    show "0 \<le> q div n" using assms(1,3) by (simp add: z pos_imp_zdiv_nonneg_iff)
    have "b div (n * n) * (n * n) \<le> b" using assms(3) by (simp add: minus_mod_eq_div_mult [symmetric])
    moreover have "n * (n * n) \<le> b div (n * n) * (n * n)" if "n \<le> q div n" using that assms(3) z by (intro mult_right_mono) auto
    ultimately have "\<not> n \<le> q div n" using assms(2) by (auto simp: mult.assoc)
    then show "q div n < n" by simp
  qed
  ultimately have "w1 + n * ((w2 - w1) mod n) + n * n * ((w3 - w2) mod n) = b mod n + n * (q mod n) + n * n * (q div n)"
    by (simp add: w1_def)
  also have "\<dots> = b mod n + n * (n * (q div n) + q mod n)" by (simp only: distrib_left ac_simps)
  also have "\<dots> = b" by (simp add: q_def)
  finally show ?thesis .
qed

section \<open>The words differ\<close>

text \<open>The words, five bits for each letter, are entered into a binary trie, those with the same first letter at a time.\<close>

datatype bit_trie = Empty | Branch bool bit_trie bit_trie

fun bit_mem :: "bit_trie \<Rightarrow> bool list \<Rightarrow> bool" where
  "bit_mem Empty p = False"
| "bit_mem (Branch here l r) [] = here"
| "bit_mem (Branch here l r) (b # p) = (if b then bit_mem r p else bit_mem l p)"

fun bit_add :: "bool list \<Rightarrow> bit_trie \<Rightarrow> bit_trie" where
  "bit_add [] Empty = Branch True Empty Empty"
| "bit_add (b # p) Empty = (if b then Branch False Empty (bit_add p Empty) else Branch False (bit_add p Empty) Empty)"
| "bit_add [] (Branch here l r) = Branch True l r"
| "bit_add (b # p) (Branch here l r) = (if b then Branch here l (bit_add p r) else Branch here (bit_add p l) r)"

lemma bit_mem_add: "bit_mem (bit_add p t) q \<longleftrightarrow> q = p \<or> bit_mem t q"
  by (induction p t arbitrary: q rule: bit_add.induct; case_tac q) auto

fun all_new :: "bit_trie \<Rightarrow> bool list list \<Rightarrow> bool" where
  "all_new t [] = True"
| "all_new t (p # ps) = (\<not> bit_mem t p \<and> all_new (bit_add p t) ps)"

lemma all_new_distinct: "all_new t ps \<Longrightarrow> distinct ps \<and> (\<forall>p\<in>set ps. \<not> bit_mem t p)"
proof (induction ps arbitrary: t)
  case (Cons p ps)
  from Cons.IH [of "bit_add p t"] Cons.prems show ?case by (auto simp: bit_mem_add)
qed simp

fun char_bits :: "char \<Rightarrow> bool list" where
  "char_bits (Char b0 b1 b2 b3 b4 b5 b6 b7) = [b0, b1, b2, b3, b4]"

definition word_bits :: "string \<Rightarrow> bool list" where
  "word_bits w = concat (map char_bits w)"

fun starts_with :: "bool list \<Rightarrow> string \<Rightarrow> bool" where
  "starts_with [a0, a1, a2, a3, a4] (Char b0 b1 b2 b3 b4 b5 b6 b7 # w) = (a0 = b0 \<and> a1 = b1 \<and> a2 = b2 \<and> a3 = b3 \<and> a4 = b4)"
| "starts_with k w = False"

definition word_bucket :: "bool list \<Rightarrow> string list list \<Rightarrow> bool list list" where
  "word_bucket k rows = concat (map (\<lambda>row. map word_bits (filter (starts_with k) row)) rows)"

definition words_apart :: "bool list \<Rightarrow> bool" where
  "words_apart k \<longleftrightarrow> all_new Empty (concat [word_bucket k mnemonic_words_1, word_bucket k mnemonic_words_2,
     word_bucket k mnemonic_words_3, word_bucket k mnemonic_words_4, word_bucket k mnemonic_words_5,
     word_bucket k mnemonic_words_6, word_bucket k mnemonic_words_7, word_bucket k mnemonic_words_8,
     word_bucket k mnemonic_words_9, word_bucket k mnemonic_words_10, word_bucket k mnemonic_words_11,
     word_bucket k mnemonic_words_12])"

lemma words_apart_eq:
  "words_apart k \<Longrightarrow> distinct (map word_bits (filter (starts_with k) MnemonicWords))"
  using all_new_distinct [of Empty "map word_bits (filter (starts_with k) MnemonicWords)"]
  by (simp add: words_apart_def word_bucket_def MnemonicWords_def filter_concat map_concat comp_def)

definition bit_lists :: "bool list list" where
  "bit_lists = List.n_lists 5 [False, True]"

lemma words_apart_1: "list_all words_apart (take 8 bit_lists)"
  by code_simp

lemma words_apart_2: "list_all words_apart (take 8 (drop 8 bit_lists))"
  by code_simp

lemma words_apart_3: "list_all words_apart (take 8 (drop 16 bit_lists))"
  by code_simp

lemma words_apart_4: "list_all words_apart (drop 24 bit_lists)"
  by code_simp

lemma words_not_empty: "list_all (list_all (\<lambda>w. w \<noteq> [])) (concat [mnemonic_words_1, mnemonic_words_2, mnemonic_words_3, mnemonic_words_4,
  mnemonic_words_5, mnemonic_words_6, mnemonic_words_7, mnemonic_words_8, mnemonic_words_9, mnemonic_words_10, mnemonic_words_11,
  mnemonic_words_12])"
  by (simp add: mnemonic_words_1_def mnemonic_words_2_def mnemonic_words_3_def mnemonic_words_4_def mnemonic_words_5_def
      mnemonic_words_6_def mnemonic_words_7_def mnemonic_words_8_def mnemonic_words_9_def mnemonic_words_10_def
      mnemonic_words_11_def mnemonic_words_12_def)

lemma length_MnemonicWords: "length MnemonicWords = 1626"
  by (simp add: MnemonicWords_def mnemonic_words_1_def mnemonic_words_2_def mnemonic_words_3_def mnemonic_words_4_def
      mnemonic_words_5_def mnemonic_words_6_def mnemonic_words_7_def mnemonic_words_8_def mnemonic_words_9_def
      mnemonic_words_10_def mnemonic_words_11_def mnemonic_words_12_def)

lemma distinct_by_key:
  assumes "\<And>x. x \<in> set xs \<Longrightarrow> \<exists>k\<in>K. P k x" "\<And>k. k \<in> K \<Longrightarrow> distinct (filter (P k) xs)"
  shows "distinct xs"
  using assms
proof (induction xs)
  case (Cons x xs)
  obtain k where k: "k \<in> K" "P k x" using Cons.prems(1) [of x] by auto
  then have "x \<notin> set xs" using Cons.prems(2) [of k] by auto
  moreover have "distinct (filter (P j) xs)" if "j \<in> K" for j
    using Cons.prems(2) [OF that] by (auto split: if_splits)
  ultimately show ?case using Cons by auto
qed simp

lemma distinct_MnemonicWords: "distinct MnemonicWords"
proof (rule distinct_by_key [of _ "set bit_lists" starts_with])
  fix w assume "w \<in> set MnemonicWords"
  then have "w \<noteq> []" using words_not_empty by (auto simp: MnemonicWords_def list_all_iff)
  then obtain c v where w: "w = c # v" by (cases w) auto
  obtain b0 b1 b2 b3 b4 b5 b6 b7 where c: "c = Char b0 b1 b2 b3 b4 b5 b6 b7" by (cases c) auto
  have "[b0, b1, b2, b3, b4] \<in> set bit_lists" by (auto simp: bit_lists_def set_n_lists)
  moreover have "starts_with [b0, b1, b2, b3, b4] w" by (simp add: w c)
  ultimately show "\<exists>k\<in>set bit_lists. starts_with k w" by blast
next
  fix k assume "k \<in> set bit_lists"
  moreover have "bit_lists = take 8 bit_lists @ take 8 (drop 8 bit_lists) @ take 8 (drop 16 bit_lists) @ drop 24 bit_lists"
    by code_simp
  then have "set bit_lists = set (take 8 bit_lists) \<union> set (take 8 (drop 8 bit_lists)) \<union> set (take 8 (drop 16 bit_lists)) \<union>
      set (drop 24 bit_lists)" by (metis set_append Un_assoc)
  ultimately have "words_apart k" using words_apart_1 words_apart_2 words_apart_3 words_apart_4 unfolding list_all_iff by blast
  then show "distinct (filter (starts_with k) MnemonicWords)" using words_apart_eq by (auto simp: distinct_map)
qed

section \<open>Groups of words\<close>

lemma index_from_nth: "distinct vs \<Longrightarrow> i < length vs \<Longrightarrow> index_from p vs (vs ! i) = p + int i"
  by (induction vs arbitrary: p i) (auto simp: nth_Cons split: nat.splits)

lemma word_at_IndexOf:
  assumes "0 \<le> w" "w < int (length MnemonicWords)"
  obtains v where "word_at w = Some v" "IndexOf MnemonicWords v = w"
  using that [of "MnemonicWords ! nat w"] assms index_from_nth [OF distinct_MnemonicWords, of "nat w" 0]
  by (simp add: word_at_def IndexOf_def nat_less_iff)

lemma group_roundtrip:
  assumes "is_hex x" "length x = 8"
  shows "\<exists>a b c. encode_group x = Some [a, b, c] \<and> decode_group a b c = x"
proof -
  define n :: int where "n = 1626"
  define bit where "bit = ParseInt x"
  have n: "int (length MnemonicWords) = n" "0 < n" by (simp_all add: n_def length_MnemonicWords)
  have x: "Sprintf_08x bit = x" "0 \<le> bit" "bit < 2 ^ 32" using ParseInt_hex [OF assms] by (simp_all add: bit_def)
  moreover have "(2 :: int) ^ 32 < n * n * n" by (simp add: n_def)
  ultimately have bit: "0 \<le> bit" "bit < n * n * n" by simp_all
  define w1 w2 w3 where "w1 = bit mod n" and "w2 = (bit div n + bit mod n) mod n" and "w3 = (bit div n div n + w2) mod n"
  have r: "0 \<le> w1" "w1 < n" "0 \<le> w2" "w2 < n" "0 \<le> w3" "w3 < n" using n(2) by (simp_all add: w1_def w2_def w3_def)
  have q: "0 \<le> bit div n" "0 \<le> bit div n div n" using bit(1) n(2) by (simp_all add: pos_imp_zdiv_nonneg_iff)
  have w: "int_rem bit n = w1" "int_rem (int_quot bit n + w1) n = w2" "int_rem (int_quot (int_quot bit n) n + w2) n = w3"
    using bit(1) q r n(2) by (simp_all add: int_rem_nonneg w1_def [symmetric]) (simp_all add: w1_def w2_def w3_def)
  obtain a where a: "word_at w1 = Some a" "IndexOf MnemonicWords a = w1" using word_at_IndexOf [of w1] r n(1) by blast
  obtain b where b: "word_at w2 = Some b" "IndexOf MnemonicWords b = w2" using word_at_IndexOf [of w2] r n(1) by blast
  obtain c where c: "word_at w3 = Some c" "IndexOf MnemonicWords c = w3" using word_at_IndexOf [of w3] r n(1) by blast
  have "encode_group x = Some [a, b, c]"
    using a b c unfolding encode_group_def bit_def [symmetric] n(1) Let_def w by simp
  moreover have "decode_group a b c = Sprintf_08x (w1 + n * ((w2 - w1) mod n) + n * n * ((w3 - w2) mod n))"
    unfolding decode_group_def a b c n(1) using int_rem_fix [OF n(2), of "w2 - w1"] int_rem_fix [OF n(2), of "w3 - w2"]
    by (simp add: Let_def)
  moreover have "w1 + n * ((w2 - w1) mod n) + n * n * ((w3 - w2) mod n) = bit"
    using triple_value [OF bit n(2)] unfolding w1_def w2_def w3_def .
  ultimately show ?thesis using x(1) by auto
qed

lemma encode_from_groups:
  assumes "length message = 64" "is_hex message" "j \<le> 8"
  shows "\<exists>ws. encode_from message (8 * (8 - j)) = Some ws \<and> length ws = 3 * j \<and> MnemonicDecode ws = Some (drop (8 * (8 - j)) message)"
  using assms(3)
proof (induction j)
  case 0
  then show ?case using assms(1) by (simp add: encode_from.simps)
next
  case (Suc j)
  let ?i = "8 * (8 - Suc j)"
  have i: "?i + 8 = 8 * (8 - j)" "?i + 8 \<le> 64" using Suc.prems by simp_all
  obtain ws where ws: "encode_from message (?i + 8) = Some ws" "length ws = 3 * j"
    "MnemonicDecode ws = Some (drop (?i + 8) message)" using Suc unfolding i(1) by auto
  have "is_hex (take 8 (drop ?i message))" using assms(2) set_take_subset set_drop_subset unfolding is_hex_def by (meson order_trans)
  moreover have "length (take 8 (drop ?i message)) = 8" using assms(1) i(2) by simp
  ultimately obtain a b c where g: "encode_group (take 8 (drop ?i message)) = Some [a, b, c]"
    "decode_group a b c = take 8 (drop ?i message)" using group_roundtrip by blast
  have "encode_from message ?i = Some ([a, b, c] @ ws)"
    using g(1) ws(1) i(2) assms(1) by (subst encode_from.simps) simp
  moreover have "MnemonicDecode ([a, b, c] @ ws) = Some (drop ?i message)"
    using ws(3) g(2) append_take_drop_id [of 8 "drop ?i message"] by (simp add: add.commute)
  ultimately show ?case using ws(2) by auto
qed

section \<open>Properties\<close>

text \<open>C35: A key of 64 lower-case hexadecimal digits is written as 24 words, and the words give back the key.\<close>

theorem mnemonic_roundtrip:
  assumes "length message = 64" and "is_hex message"
  shows "\<exists>ws. MnemonicEncode message = Some ws \<and> length ws = 24 \<and> MnemonicDecode ws = Some message"
  using encode_from_groups [OF assms, of 8] by (simp add: MnemonicEncode_def)

theorem mnemonic_roundtrip_witness:
  "\<exists>ws. MnemonicEncode (concat (replicate 8 ''0beef12f'')) = Some ws \<and> length ws = 24 \<and>
    MnemonicDecode ws = Some (concat (replicate 8 ''0beef12f''))"
proof -
  have "length (concat (replicate 8 ''0beef12f'')) = 64" "is_hex (concat (replicate 8 ''0beef12f''))"
    by (simp_all add: is_hex_def eval_nat_numeral)
  then show ?thesis by (rule mnemonic_roundtrip)
qed

end
