(* ===== verification/Spec2Isabelle.thy ===== *)
theory Spec2Isabelle
  imports Rlp_Reader Value Vm_Examples Block_Examples Message_Filter Wire Mnemonic
begin

text \<open>
  A verification library of the blockchain client Thelonious, a fork of an early Ethereum client written in Go.

  \<^bold>\<open>The program.\<close> Values travel and are stored in the RLP format (\<^verbatim>\<open>src/monkutil/rlp.go\<close>), decoded into dynamic values
  (\<^verbatim>\<open>src/monkutil/value.go\<close>). The accounts of the chain are the leaves of a Merkle Patricia trie (\<^verbatim>\<open>src/monktrie\<close>) over
  a key-value database. \<^verbatim>\<open>src/monkstate\<close> caches accounts in front of that trie and takes and restores snapshots.
  The virtual machine of \<^verbatim>\<open>src/monkvm\<close> runs the code of accounts against such a state and pays for it with gas.
  \<^verbatim>\<open>src/monkchain\<close> applies transactions to the state, processes blocks and keeps the chain of blocks and its forks. Messages between
  nodes are framed by \<^verbatim>\<open>src/monkwire\<close>, and keys are written down as words (\<^verbatim>\<open>src/monkcrypto\<close>). The rest of the client, the network and
  the user interfaces, drives these parts.

  \<^bold>\<open>Conventions.\<close> Byte slices and strings are lists of 8-bit words, \<open>big.Int\<close> is \<open>int\<close>, \<open>uint64\<close> is \<open>nat\<close> with the wrap
  around written out, a panic is \<open>None\<close> (an outcome of its own in the machine). A slice expression is checked
  against the capacity of the slice as Go does, so what lies behind the length is an argument where it can be
  seen. Code outside the repository (the hash functions, the curve library, the allocation policy of the Go
  runtime) is a parameter: the records \<open>Platform\<close> and \<open>Runtime\<close>. Log lines, locks, debugger hooks and printing
  are left out.

  \<^bold>\<open>Theories.\<close>
  \<^item> \<open>Prelude\<close>: bytes, big-endian numbers, Go's indexing and slicing, 64-bit conversions.
  \<^item> \<open>Byte_Util\<close>: \<^verbatim>\<open>monkutil/bytes.go\<close> and \<^verbatim>\<open>big.go\<close>.
  \<^item> \<open>Rlp\<close>, \<open>Rlp_Compress\<close>, \<open>Rlp_Reader\<close>: \<^verbatim>\<open>monkutil/rlp.go\<close>, the encoder, the decoders and the compression of runs of
    zeros; round trip, equivalence of the decoders, and where the compression and the reader break.
  \<^item> \<open>Value\<close>: \<^verbatim>\<open>monkutil/value.go\<close>.
  \<^item> \<open>Trie_Encoding\<close>, \<open>Trie\<close>, \<open>Trie_Iterator\<close>: \<^verbatim>\<open>monktrie/encoding.go\<close>, \<^verbatim>\<open>slice.go\<close>, \<^verbatim>\<open>trie.go\<close>. \<open>Trie_Abstract\<close> is a trie as a
    datatype, \<open>Trie_Correct\<close> relates nodes in the cache and the database to it, and \<open>Trie_Map\<close> concludes that the
    trie of the code is a map under \<open>Update\<close>, \<open>Get\<close>, \<open>Sync\<close> and \<open>Undo\<close>, provided that the hash has no collision among
    the nodes written (\<open>sound\<close>).
  \<^item> \<open>State_Object\<close>, \<open>State\<close>: \<^verbatim>\<open>monkstate/state_object.go\<close>, \<^verbatim>\<open>state.go\<close>, \<^verbatim>\<open>manifest.go\<close>. Accounts live in a heap, because the
    program shares pointers to them and a snapshot is only right if it shares none.
  \<^item> \<open>Vm_Memory\<close>, \<open>Opcode\<close>, \<open>Vm_Closure\<close>, \<open>Vm\<close>, \<open>Vm_Run\<close>: \<^verbatim>\<open>monkvm\<close>, from the stack to \<open>RunClosure\<close> and \<open>Message.Exec\<close>.
    One definition models each group of instructions, \<open>step\<close> one turn of the loop, \<open>run_frame\<close> the loop.
  \<^item> \<open>Vm_Frame\<close>: which accounts a run can touch, that a failed call restores all of them, and what a call moves. \<open>Vm_Gas\<close>: gas is never
    created, and the length of a run is bounded by its gas. \<open>Vm_Words\<close>: 256-bit arithmetic and memory words. \<open>Vm_Examples\<close>: witnesses,
    and runs of small programs that show defects of the machine.
  \<^item> \<open>Transaction\<close>, \<open>Block\<close>: \<^verbatim>\<open>monkchain/transaction.go\<close>, \<^verbatim>\<open>block.go\<close>, \<^verbatim>\<open>genesis.go\<close>: hashes, signatures and encodings, with the round trips and
    the recovery of the sender.
  \<^item> \<open>State_Transition\<close>: \<^verbatim>\<open>monkchain/state_transition.go\<close> and \<^verbatim>\<open>vm_env.go\<close>: buying gas, moving the value, running code, refunding; what
    a plain transfer, a refused transaction and failing code do to the balances. \<open>Chain_Examples\<close>: witnesses, and a transaction that never ends.
  \<^item> \<open>Chain_Manager\<close>: \<^verbatim>\<open>monkchain/chain_manager.go\<close>: the stored chain, the tree of forks with the shared number in
    its links, checkpoints and reorganisation.
  \<^item> \<open>Block_Manager\<close>: \<^verbatim>\<open>monkchain/block_manager.go\<close>, \<^verbatim>\<open>bloom.go\<close>, \<^verbatim>\<open>error.go\<close>: the transactions, receipts, uncles and rewards of a block.
    \<open>Block_Examples\<close>: witnesses. \<open>Message_Filter\<close>: \<^verbatim>\<open>filter.go\<close>, the search for messages.
  \<^item> \<open>Wire\<close>: \<^verbatim>\<open>monkwire/messaging.go\<close> and \<^verbatim>\<open>messages2.go\<close>, framing of messages. \<open>Mnemonic_Words\<close>, \<open>Mnemonic\<close>: the word list and the coding of
    \<^verbatim>\<open>monkcrypto/mnemonic.go\<close>.

  \<^bold>\<open>Bounds and fuel.\<close> \<open>run_frame\<close>, \<open>RunClosure\<close> and \<open>Exec\<close> take fuel and return \<open>None\<close> when it runs out; \<open>Vm_Gas\<close> proves that
  \<open>4 * gas + 2\<close> is enough for every run, since an instruction that goes on costs gas or shrinks the stack, which it cannot make
  grow by more than one number. \<open>TransitionState\<close> and what is built on it take the fuel of the runs they start; the loop over posted messages is not
  bounded by gas. Walks over stored blocks are partial functions. The walks of the trie iterator take the field \<open>depth\<close> of the platform as fuel. A trie walk that never
  ends, possible only in a database with a cyclic node, is \<open>None\<close> like a panic.

  \<^bold>\<open>Limits of the model.\<close> Read caches filled before a panic are lost with it. Allocation always succeeds, and memory
  stays below 2^53 bytes, where \<open>math.Min\<close> on floats is exact. Go visits the entries of a map in any order; the model
  visits cached accounts and storage in the order of its lists, so the order of writes in \<open>State_Update\<close> and
  \<open>StateObject_Sync\<close> is one of the possible ones. The permission and validation model of the protocol is the parameter \<open>GenDoug\<close>; where
  a theorem needs it to only read, it says so (\<open>perms_read\<close>, \<open>checks_read\<close>), and the model of the program that runs a contract to check a transaction need
  not satisfy the latter. Goroutines and locks are left out: every operation runs alone. \<open>RLPDECODE\<close> onto its own input and a collision of
  the address of a new contract, on which the Go code loops for ever, are the outcomes \<open>Stuck\<close>. The manifest
  keeps the input and output of a message as they were at the call.

  \<^bold>\<open>Not modelled.\<close> The network (\<^verbatim>\<open>peer.go\<close>, \<^verbatim>\<open>thelonious.go\<close>, \<^verbatim>\<open>nat*.go\<close>, \<^verbatim>\<open>websocket\<close>, \<^verbatim>\<open>monkrpc\<close>), the transaction and block
  pools, the reactor, the miner with its proof of work, the protocol models (\<^verbatim>\<open>monkdoug\<close>), key files, the user interfaces and command line tools (\<^verbatim>\<open>monk\<close>, \<^verbatim>\<open>monkpipe\<close>, \<^verbatim>\<open>cmd\<close>), logging and configuration are input and output
  around the parts above.
\<close>

end
